theory Spec2Isabelle
  imports Main
begin

section \<open>Pins, constants and phases (main.cpp, lines 26--64)\<close>

text \<open>
  Pins are the GPIO numbers of the sketch. Output levels are kept in a function from
  pin number to level, so that the distinctness of the pin numbers is part of the model.
\<close>

definition PIN_NS_RED :: nat where "PIN_NS_RED = 2"
definition PIN_NS_YELLOW :: nat where "PIN_NS_YELLOW = 4"
definition PIN_NS_GREEN :: nat where "PIN_NS_GREEN = 5"

definition PIN_EW_RED :: nat where "PIN_EW_RED = 18"
definition PIN_EW_YELLOW :: nat where "PIN_EW_YELLOW = 19"
definition PIN_EW_GREEN :: nat where "PIN_EW_GREEN = 21"

definition PIN_PED_RED :: nat where "PIN_PED_RED = 22"
definition PIN_PED_GREEN :: nat where "PIN_PED_GREEN = 23"

definition PIN_BTN_NS_TRAFFIC :: nat where "PIN_BTN_NS_TRAFFIC = 12"
definition PIN_BTN_EW_TRAFFIC :: nat where "PIN_BTN_EW_TRAFFIC = 13"
definition PIN_BTN_PED_REQUEST :: nat where "PIN_BTN_PED_REQUEST = 14"

abbreviation (input) HIGH :: bool where "HIGH \<equiv> True"
abbreviation (input) LOW :: bool where "LOW \<equiv> False"

definition YELLOW_TIME_SEC :: int where "YELLOW_TIME_SEC = 3"
definition PED_TIME_SEC :: int where "PED_TIME_SEC = 8"
definition BASE_GREEN_SEC :: int where "BASE_GREEN_SEC = 10"

datatype Phase =
    PHASE_NS_GREEN
  | PHASE_NS_YELLOW
  | PHASE_EW_GREEN
  | PHASE_EW_YELLOW
  | PHASE_PED_GREEN

section \<open>The world: display, outputs, inputs\<close>

text \<open>
  The 16x2 character display: the text of its two rows and the cursor. \<open>clear\<close> empties
  both rows and homes the cursor; printing writes at the cursor and advances it.
\<close>

record display =
  line1 :: string
  line2 :: string
  cur_col :: nat
  cur_row :: nat

definition put_at :: "nat \<Rightarrow> string \<Rightarrow> string \<Rightarrow> string" where
  "put_at c txt l =
     take c (l @ replicate (c - length l) CHR '' '') @ txt @ drop (c + length txt) l"

definition display_write :: "string \<Rightarrow> display \<Rightarrow> display" where
  "display_write txt d =
     (if cur_row d = 0
      then d\<lparr>line1 := put_at (cur_col d) txt (line1 d), cur_col := cur_col d + length txt\<rparr>
      else d\<lparr>line2 := put_at (cur_col d) txt (line2 d), cur_col := cur_col d + length txt\<rparr>)"

text \<open>Decimal printing of an \<open>int\<close>, as \<open>Print::print(int)\<close> does.\<close>

fun digits_of :: "nat \<Rightarrow> string" where
  "digits_of n =
     (if n < 10 then [''0123456789'' ! n]
      else digits_of (n div 10) @ [''0123456789'' ! (n mod 10)])"

declare digits_of.simps [simp del]

definition print_int :: "int \<Rightarrow> string" where
  "print_int i = (if i < 0 then CHR ''-'' # digits_of (nat (- i)) else digits_of (nat i))"

text \<open>
  One line of the display log: what the controller holds and shows at the moment a
  one-second tick begins.
\<close>

record tick =
  t_phase :: Phase
  t_line1 :: string
  t_line2 :: string
  t_countNS :: int
  t_countEW :: int
  t_request :: bool

text \<open>
  The controller: the global variables of the sketch, then the world it acts on
  (output levels, display, number of input polls taken, milliseconds spent in
  \<open>delay\<close>), then two observation logs that no code reads:
  \<^item> \<open>outlog\<close>: the output levels after every single \<open>digitalWrite\<close> and every assignment
    to \<open>currentPhase\<close>, with the phase current at that instant;
  \<^item> \<open>ticklog\<close>: one entry per call of \<open>waitOneSecondWithButtons\<close>.
\<close>

record controller =
  currentPhase :: Phase
  trafficCountNS :: int
  trafficCountEW :: int
  pedRequest :: bool
  lastNsBtnState :: bool
  lastEwBtnState :: bool
  lastPedBtnState :: bool
  gpio :: "nat \<Rightarrow> bool"
  lcd :: display
  polls :: nat
  elapsed :: nat
  outlog :: "(Phase \<times> (nat \<Rightarrow> bool)) list"
  ticklog :: "tick list"

text \<open>
  The input source: the level of each button pin at each poll. Poll \<open>k\<close> is the
  \<open>k\<close>-th call of \<open>readButtons\<close> since power-on.
\<close>

type_synonym inputs = "nat \<Rightarrow> nat \<Rightarrow> bool"

definition digitalRead :: "inputs \<Rightarrow> nat \<Rightarrow> controller \<Rightarrow> bool" where
  "digitalRead inp pin s = inp (polls s) pin"

definition digitalWrite :: "nat \<Rightarrow> bool \<Rightarrow> controller \<Rightarrow> controller" where
  "digitalWrite pin v s =
     s\<lparr>gpio := (gpio s)(pin := v),
       outlog := outlog s @ [(currentPhase s, (gpio s)(pin := v))]\<rparr>"

definition set_currentPhase :: "Phase \<Rightarrow> controller \<Rightarrow> controller" where
  "set_currentPhase p s = s\<lparr>currentPhase := p, outlog := outlog s @ [(p, gpio s)]\<rparr>"

definition delay :: "nat \<Rightarrow> controller \<Rightarrow> controller" where
  "delay ms s = s\<lparr>elapsed := elapsed s + ms\<rparr>"

definition lcd_clear :: "controller \<Rightarrow> controller" where
  "lcd_clear s = s\<lparr>lcd := \<lparr>line1 = [], line2 = [], cur_col = 0, cur_row = 0\<rparr>\<rparr>"

definition lcd_setCursor :: "nat \<Rightarrow> nat \<Rightarrow> controller \<Rightarrow> controller" where
  "lcd_setCursor c r s = s\<lparr>lcd := (lcd s)\<lparr>cur_col := c, cur_row := r\<rparr>\<rparr>"

definition lcd_print :: "string \<Rightarrow> controller \<Rightarrow> controller" where
  "lcd_print txt s = s\<lparr>lcd := display_write txt (lcd s)\<rparr>"

definition lcd_print_int :: "int \<Rightarrow> controller \<Rightarrow> controller" where
  "lcd_print_int i s = lcd_print (print_int i) s"

section \<open>LCD helper (lines 451--457)\<close>

definition lcdShowTwoLines :: "string \<Rightarrow> string \<Rightarrow> controller \<Rightarrow> controller" where
  "lcdShowTwoLines l1 l2 s =
     (let s = lcd_clear s;
          s = lcd_setCursor 0 0 s;
          s = lcd_print l1 s;
          s = lcd_setCursor 0 1 s;
          s = lcd_print l2 s
      in s)"

section \<open>Red-status helpers (lines 359--370)\<close>

definition isNsRed :: "controller \<Rightarrow> bool" where
  "isNsRed s =
     (currentPhase s = PHASE_EW_GREEN \<or>
      currentPhase s = PHASE_EW_YELLOW \<or>
      currentPhase s = PHASE_PED_GREEN)"

definition isEwRed :: "controller \<Rightarrow> bool" where
  "isEwRed s =
     (currentPhase s = PHASE_NS_GREEN \<or>
      currentPhase s = PHASE_NS_YELLOW \<or>
      currentPhase s = PHASE_PED_GREEN)"

section \<open>LED state helpers (lines 374--412)\<close>

definition setAllVehicleRed :: "controller \<Rightarrow> controller" where
  "setAllVehicleRed s =
     (let s = digitalWrite PIN_NS_RED HIGH s;
          s = digitalWrite PIN_NS_YELLOW LOW s;
          s = digitalWrite PIN_NS_GREEN LOW s;
          s = digitalWrite PIN_EW_RED HIGH s;
          s = digitalWrite PIN_EW_YELLOW LOW s;
          s = digitalWrite PIN_EW_GREEN LOW s
      in s)"

definition setNsGreenState :: "controller \<Rightarrow> controller" where
  "setNsGreenState s =
     (let s = setAllVehicleRed s;
          s = digitalWrite PIN_NS_RED LOW s;
          s = digitalWrite PIN_NS_GREEN HIGH s
      in s)"

definition setNsYellowState :: "controller \<Rightarrow> controller" where
  "setNsYellowState s =
     (let s = setAllVehicleRed s;
          s = digitalWrite PIN_NS_RED LOW s;
          s = digitalWrite PIN_NS_YELLOW HIGH s
      in s)"

definition setEwGreenState :: "controller \<Rightarrow> controller" where
  "setEwGreenState s =
     (let s = setAllVehicleRed s;
          s = digitalWrite PIN_EW_RED LOW s;
          s = digitalWrite PIN_EW_GREEN HIGH s
      in s)"

definition setEwYellowState :: "controller \<Rightarrow> controller" where
  "setEwYellowState s =
     (let s = setAllVehicleRed s;
          s = digitalWrite PIN_EW_RED LOW s;
          s = digitalWrite PIN_EW_YELLOW HIGH s
      in s)"

definition setPedestrianGreenState :: "controller \<Rightarrow> controller" where
  "setPedestrianGreenState s =
     (let s = setAllVehicleRed s;
          s = digitalWrite PIN_PED_RED LOW s;
          s = digitalWrite PIN_PED_GREEN HIGH s
      in s)"

section \<open>Green time computation (lines 416--447)\<close>

definition computeNsGreenSeconds :: "controller \<Rightarrow> int" where
  "computeNsGreenSeconds s =
     (let extra = (if trafficCountNS s \<ge> 15 then 30
                   else if trafficCountNS s \<ge> 10 then 20
                   else if trafficCountNS s \<ge> 5 then 10
                   else 0)
      in BASE_GREEN_SEC + extra)"

definition computeEwGreenSeconds :: "controller \<Rightarrow> int" where
  "computeEwGreenSeconds s =
     (let extra = (if trafficCountEW s \<ge> 15 then 30
                   else if trafficCountEW s \<ge> 10 then 20
                   else if trafficCountEW s \<ge> 5 then 10
                   else 0)
      in BASE_GREEN_SEC + extra)"

section \<open>Button handling (lines 153--200)\<close>

text \<open>The three blocks of \<open>readButtons\<close>, in the order of the source.\<close>

definition readNsButton :: "inputs \<Rightarrow> controller \<Rightarrow> controller" where
  "readNsButton inp s =
     (let nsBtn = digitalRead inp PIN_BTN_NS_TRAFFIC s;
          s = (if nsBtn = LOW \<and> lastNsBtnState s = HIGH then
                 (let s = (if isNsRed s then
                             (let s = s\<lparr>trafficCountNS := trafficCountNS s + 1\<rparr>;
                                  s = lcd_clear s;
                                  s = lcd_setCursor 0 0 s;
                                  s = lcd_print ''NS RED: Count'' s;
                                  s = lcd_setCursor 0 1 s;
                                  s = lcd_print ''NS='' s;
                                  s = lcd_print_int (trafficCountNS s) s
                              in s)
                           else lcdShowTwoLines ''NS not RED'' ''No count'' s)
                  in delay 30 s)
               else s)
      in s\<lparr>lastNsBtnState := nsBtn\<rparr>)"

definition readEwButton :: "inputs \<Rightarrow> controller \<Rightarrow> controller" where
  "readEwButton inp s =
     (let ewBtn = digitalRead inp PIN_BTN_EW_TRAFFIC s;
          s = (if ewBtn = LOW \<and> lastEwBtnState s = HIGH then
                 (let s = (if isEwRed s then
                             (let s = s\<lparr>trafficCountEW := trafficCountEW s + 1\<rparr>;
                                  s = lcd_clear s;
                                  s = lcd_setCursor 0 0 s;
                                  s = lcd_print ''EW RED: Count'' s;
                                  s = lcd_setCursor 0 1 s;
                                  s = lcd_print ''EW='' s;
                                  s = lcd_print_int (trafficCountEW s) s
                              in s)
                           else lcdShowTwoLines ''EW not RED'' ''No count'' s)
                  in delay 30 s)
               else s)
      in s\<lparr>lastEwBtnState := ewBtn\<rparr>)"

definition readPedButton :: "inputs \<Rightarrow> controller \<Rightarrow> controller" where
  "readPedButton inp s =
     (let pedBtn = digitalRead inp PIN_BTN_PED_REQUEST s;
          s = (if pedBtn = LOW \<and> lastPedBtnState s = HIGH then
                 (let s = s\<lparr>pedRequest := True\<rparr>;
                      s = lcdShowTwoLines ''Pedestrian Req'' ''Stored'' s
                  in delay 30 s)
               else s)
      in s\<lparr>lastPedBtnState := pedBtn\<rparr>)"

text \<open>One poll: the three blocks, then the poll counter advances to the next sample.\<close>

definition readButtons :: "inputs \<Rightarrow> controller \<Rightarrow> controller" where
  "readButtons inp s =
     (let s = readNsButton inp s;
          s = readEwButton inp s;
          s = readPedButton inp s
      in s\<lparr>polls := polls s + 1\<rparr>)"

section \<open>Timing helper (lines 205--210)\<close>

function waitLoop :: "inputs \<Rightarrow> int \<Rightarrow> controller \<Rightarrow> controller" where
  "waitLoop inp i s =
     (if i < 50 then waitLoop inp (i + 1) (delay 20 (readButtons inp s)) else s)"
  by pat_completeness auto
termination
  by (relation "measure (\<lambda>(inp, i, s). nat (50 - i))") auto

declare waitLoop.simps [simp del]

definition observe :: "controller \<Rightarrow> tick" where
  "observe s =
     \<lparr>t_phase = currentPhase s, t_line1 = line1 (lcd s), t_line2 = line2 (lcd s),
      t_countNS = trafficCountNS s, t_countEW = trafficCountEW s,
      t_request = pedRequest s\<rparr>"

definition waitOneSecondWithButtons :: "inputs \<Rightarrow> controller \<Rightarrow> controller" where
  "waitOneSecondWithButtons inp s =
     waitLoop inp 0 (s\<lparr>ticklog := ticklog s @ [observe s]\<rparr>)"

section \<open>Phase functions (lines 214--354)\<close>

text \<open>
  The countdown loop \<open>for (int remaining = n; remaining > 0; remaining--) body\<close>
  shared by the five phases.
\<close>

function countdown :: "(int \<Rightarrow> 'a \<Rightarrow> 'a) \<Rightarrow> int \<Rightarrow> 'a \<Rightarrow> 'a" where
  "countdown body remaining s =
     (if remaining > 0 then countdown body (remaining - 1) (body remaining s) else s)"
  by pat_completeness auto
termination
  by (relation "measure (\<lambda>(body, remaining, s). nat remaining)") auto

declare countdown.simps [simp del]

definition nsGreenSecond :: "inputs \<Rightarrow> int \<Rightarrow> int \<Rightarrow> int \<Rightarrow> controller \<Rightarrow> controller" where
  "nsGreenSecond inp baseSecs extraSecs remaining s =
     (let s = lcd_clear s;
          s = lcd_setCursor 0 0 s;
          s = lcd_print ''NSG '' s;
          s = lcd_print_int baseSecs s;
          s = lcd_print ''+'' s;
          s = lcd_print_int extraSecs s;
          s = lcd_print ''s'' s;
          s = lcd_setCursor 0 1 s;
          s = lcd_print ''T='' s;
          s = lcd_print_int remaining s;
          s = lcd_print '' EW='' s;
          s = lcd_print_int (trafficCountEW s) s
      in waitOneSecondWithButtons inp s)"

definition phaseNsGreen :: "inputs \<Rightarrow> controller \<Rightarrow> controller" where
  "phaseNsGreen inp s =
     (let s = set_currentPhase PHASE_NS_GREEN s;
          totalSecs = computeNsGreenSeconds s;
          baseSecs = BASE_GREEN_SEC;
          extraSecs = totalSecs - baseSecs;
          extraSecs = (if extraSecs < 0 then 0 else extraSecs);
          s = setNsGreenState s;
          s = countdown (nsGreenSecond inp baseSecs extraSecs) totalSecs s
      in s\<lparr>trafficCountNS := 0\<rparr>)"

definition nsYellowSecond :: "inputs \<Rightarrow> int \<Rightarrow> controller \<Rightarrow> controller" where
  "nsYellowSecond inp remaining s =
     (let s = lcd_clear s;
          s = lcd_setCursor 0 0 s;
          s = lcd_print ''NSY T='' s;
          s = lcd_print_int remaining s;
          s = lcd_print ''s'' s;
          s = lcd_setCursor 0 1 s;
          s = lcd_print ''EW='' s;
          s = lcd_print_int (trafficCountEW s) s;
          s = setNsYellowState s
      in waitOneSecondWithButtons inp s)"

definition phaseNsYellow :: "inputs \<Rightarrow> controller \<Rightarrow> controller" where
  "phaseNsYellow inp s =
     (let s = set_currentPhase PHASE_NS_YELLOW s
      in countdown (nsYellowSecond inp) YELLOW_TIME_SEC s)"

definition ewGreenSecond :: "inputs \<Rightarrow> int \<Rightarrow> int \<Rightarrow> int \<Rightarrow> controller \<Rightarrow> controller" where
  "ewGreenSecond inp baseSecs extraSecs remaining s =
     (let s = lcd_clear s;
          s = lcd_setCursor 0 0 s;
          s = lcd_print ''EWG '' s;
          s = lcd_print_int baseSecs s;
          s = lcd_print ''+'' s;
          s = lcd_print_int extraSecs s;
          s = lcd_print ''s'' s;
          s = lcd_setCursor 0 1 s;
          s = lcd_print ''T='' s;
          s = lcd_print_int remaining s;
          s = lcd_print '' NS='' s;
          s = lcd_print_int (trafficCountNS s) s
      in waitOneSecondWithButtons inp s)"

definition phaseEwGreen :: "inputs \<Rightarrow> controller \<Rightarrow> controller" where
  "phaseEwGreen inp s =
     (let s = set_currentPhase PHASE_EW_GREEN s;
          totalSecs = computeEwGreenSeconds s;
          baseSecs = BASE_GREEN_SEC;
          extraSecs = totalSecs - baseSecs;
          extraSecs = (if extraSecs < 0 then 0 else extraSecs);
          s = setEwGreenState s;
          s = countdown (ewGreenSecond inp baseSecs extraSecs) totalSecs s
      in s\<lparr>trafficCountEW := 0\<rparr>)"

definition ewYellowSecond :: "inputs \<Rightarrow> int \<Rightarrow> controller \<Rightarrow> controller" where
  "ewYellowSecond inp remaining s =
     (let s = lcd_clear s;
          s = lcd_setCursor 0 0 s;
          s = lcd_print ''EWY T='' s;
          s = lcd_print_int remaining s;
          s = lcd_print ''s'' s;
          s = lcd_setCursor 0 1 s;
          s = lcd_print ''NS='' s;
          s = lcd_print_int (trafficCountNS s) s;
          s = setEwYellowState s
      in waitOneSecondWithButtons inp s)"

definition phaseEwYellow :: "inputs \<Rightarrow> controller \<Rightarrow> controller" where
  "phaseEwYellow inp s =
     (let s = set_currentPhase PHASE_EW_YELLOW s
      in countdown (ewYellowSecond inp) YELLOW_TIME_SEC s)"

definition pedSecond :: "inputs \<Rightarrow> int \<Rightarrow> controller \<Rightarrow> controller" where
  "pedSecond inp remaining s =
     (let s = lcd_clear s;
          s = lcd_setCursor 0 0 s;
          s = lcd_print ''PEDESTRIAN'' s;
          s = lcd_setCursor 0 1 s;
          s = lcd_print ''T='' s;
          s = lcd_print_int remaining s;
          s = lcd_print '' WALK'' s
      in waitOneSecondWithButtons inp s)"

definition phasePedestrianIfRequested :: "inputs \<Rightarrow> controller \<Rightarrow> controller" where
  "phasePedestrianIfRequested inp s =
     (if \<not> pedRequest s then s
      else
        (let s = set_currentPhase PHASE_PED_GREEN s;
             s = setPedestrianGreenState s;
             s = countdown (pedSecond inp) PED_TIME_SEC s;
             s = setAllVehicleRed s;
             s = digitalWrite PIN_PED_RED HIGH s;
             s = digitalWrite PIN_PED_GREEN LOW s;
             s = lcdShowTwoLines ''PEDESTRIAN'' ''STOP'' s;
             s = delay 500 s
         in s\<lparr>pedRequest := False\<rparr>))"

section \<open>Setup and main loop (lines 105--149)\<close>

text \<open>
  The state at power-on: the initialisers of the globals, a blank display, and the
  output levels \<open>g0\<close> the hardware starts with.
\<close>

definition power_on :: "(nat \<Rightarrow> bool) \<Rightarrow> controller" where
  "power_on g0 =
     \<lparr>currentPhase = PHASE_NS_GREEN,
      trafficCountNS = 0,
      trafficCountEW = 0,
      pedRequest = False,
      lastNsBtnState = HIGH,
      lastEwBtnState = HIGH,
      lastPedBtnState = HIGH,
      gpio = g0,
      lcd = \<lparr>line1 = [], line2 = [], cur_col = 0, cur_row = 0\<rparr>,
      polls = 0,
      elapsed = 0,
      outlog = [(PHASE_NS_GREEN, g0)],
      ticklog = []\<rparr>"

definition setup_main :: "controller \<Rightarrow> controller" where
  "setup_main s =
     (let s = lcdShowTwoLines ''Traffic System'' ''Starting...'' s;
          s = delay 1000 s;
          s = setAllVehicleRed s;
          s = digitalWrite PIN_PED_RED HIGH s;
          s = digitalWrite PIN_PED_GREEN LOW s;
          s = lcdShowTwoLines ''Traffic System'' ''Ready'' s;
          s = delay 1000 s
      in s)"

definition loop :: "inputs \<Rightarrow> controller \<Rightarrow> controller" where
  "loop inp s =
     (let s = phaseNsGreen inp s;
          s = phaseNsYellow inp s;
          s = phasePedestrianIfRequested inp s;
          s = phaseEwGreen inp s;
          s = phaseEwYellow inp s;
          s = phasePedestrianIfRequested inp s
      in s)"

text \<open>The Arduino runtime: \<open>setup()\<close> once, then \<open>loop()\<close> again and again.\<close>

fun run :: "inputs \<Rightarrow> nat \<Rightarrow> controller \<Rightarrow> controller" where
  "run inp 0 s = s"
| "run inp (Suc n) s = run inp n (loop inp s)"

definition boot :: "inputs \<Rightarrow> nat \<Rightarrow> (nat \<Rightarrow> bool) \<Rightarrow> controller" where
  "boot inp n g0 = run inp n (setup_main (power_on g0))"

section \<open>Notions used to state the properties\<close>

text \<open>
  The number of press edges (a LOW sample after a HIGH one) in a sequence of sampled
  levels, given the level sampled just before it.
\<close>

fun pressEdges :: "bool \<Rightarrow> bool list \<Rightarrow> nat" where
  "pressEdges prev [] = 0"
| "pressEdges prev (x # xs) = (if x = LOW \<and> prev = HIGH then 1 else 0) + pressEdges x xs"

text \<open>The levels of pin \<open>pin\<close> at the \<open>n\<close> polls starting with poll \<open>k\<close>.\<close>

definition samples :: "inputs \<Rightarrow> nat \<Rightarrow> nat \<Rightarrow> nat \<Rightarrow> bool list" where
  "samples inp pin k n = map (\<lambda>j. inp j pin) [k..<k + n]"

text \<open>The ticks logged between an earlier state and a later one.\<close>

definition newticks :: "controller \<Rightarrow> controller \<Rightarrow> tick list" where
  "newticks s s' = drop (length (ticklog s)) (ticklog s')"

text \<open>The values the loop variable of \<open>countdown\<close> takes: \<open>n, n - 1, ..., 1\<close>.\<close>

function downfrom :: "int \<Rightarrow> int list" where
  "downfrom n = (if n > 0 then n # downfrom (n - 1) else [])"
  by pat_completeness auto
termination
  by (relation "measure nat") auto

declare downfrom.simps [simp del]

text \<open>
  What \<open>n\<close> polls under an unchanged phase do to the variables of the sketch: the
  counts grow by the press edges of their buttons while their approach is stopped, and
  the latch is set by any press edge of the pedestrian button.
\<close>

definition polled :: "inputs \<Rightarrow> nat \<Rightarrow> controller \<Rightarrow> controller \<Rightarrow> bool" where
  "polled inp n s s' =
     (currentPhase s' = currentPhase s \<and>
      polls s' = polls s + n \<and>
      trafficCountNS s' = trafficCountNS s +
        (if isNsRed s
         then int (pressEdges (lastNsBtnState s) (samples inp PIN_BTN_NS_TRAFFIC (polls s) n))
         else 0) \<and>
      trafficCountEW s' = trafficCountEW s +
        (if isEwRed s
         then int (pressEdges (lastEwBtnState s) (samples inp PIN_BTN_EW_TRAFFIC (polls s) n))
         else 0) \<and>
      pedRequest s' =
        (pedRequest s \<or>
         0 < pressEdges (lastPedBtnState s) (samples inp PIN_BTN_PED_REQUEST (polls s) n)) \<and>
      lastNsBtnState s' = last (lastNsBtnState s # samples inp PIN_BTN_NS_TRAFFIC (polls s) n) \<and>
      lastEwBtnState s' = last (lastEwBtnState s # samples inp PIN_BTN_EW_TRAFFIC (polls s) n) \<and>
      lastPedBtnState s' = last (lastPedBtnState s # samples inp PIN_BTN_PED_REQUEST (polls s) n))"

text \<open>\<open>n\<close> rounds of the body of the loop of \<open>waitOneSecondWithButtons\<close>.\<close>

primrec pollN :: "inputs \<Rightarrow> nat \<Rightarrow> controller \<Rightarrow> controller" where
  "pollN inp 0 s = s"
| "pollN inp (Suc n) s = pollN inp n (delay 20 (readButtons inp s))"

text \<open>
  The safety condition on one logged output state: the two vehicle greens are not
  both asserted, and pedestrian green is asserted only in phase \<open>PHASE_PED_GREEN\<close>.
\<close>

definition safe_out :: "Phase \<times> (nat \<Rightarrow> bool) \<Rightarrow> bool" where
  "safe_out e =
     (\<not> (snd e PIN_NS_GREEN \<and> snd e PIN_EW_GREEN) \<and>
      (snd e PIN_PED_GREEN \<longrightarrow> fst e = PHASE_PED_GREEN))"

text \<open>
  The invariant of the outputs: every logged output state is safe, and so is the
  present one.
\<close>

definition signals_safe :: "controller \<Rightarrow> bool" where
  "signals_safe s = (list_all safe_out (outlog s) \<and> safe_out (currentPhase s, gpio s))"

text \<open>Concrete inputs: no button is ever pressed; every output is off at power-on.\<close>

definition idle :: inputs where
  "idle = (\<lambda>k pin. HIGH)"

definition all_low :: "nat \<Rightarrow> bool" where
  "all_low = (\<lambda>pin. LOW)"

text \<open>The button on \<open>pin\<close> is down at poll \<open>k\<close> and at no other poll; no other button is.\<close>

definition press_at :: "nat \<Rightarrow> nat \<Rightarrow> inputs" where
  "press_at k pin = (\<lambda>j p. \<not> (j = k \<and> p = pin))"

section \<open>Basic facts\<close>

lemmas pin_defs =
  PIN_NS_RED_def PIN_NS_YELLOW_def PIN_NS_GREEN_def PIN_EW_RED_def PIN_EW_YELLOW_def
  PIN_EW_GREEN_def PIN_PED_RED_def PIN_PED_GREEN_def

lemmas lcd_defs =
  lcdShowTwoLines_def lcd_clear_def lcd_setCursor_def lcd_print_def lcd_print_int_def

subsection \<open>What the display operations and \<open>delay\<close> leave alone\<close>

lemma lcd_keeps [simp]:
  "currentPhase (lcd_clear s) = currentPhase s"
  "trafficCountNS (lcd_clear s) = trafficCountNS s"
  "trafficCountEW (lcd_clear s) = trafficCountEW s"
  "pedRequest (lcd_clear s) = pedRequest s"
  "lastNsBtnState (lcd_clear s) = lastNsBtnState s"
  "lastEwBtnState (lcd_clear s) = lastEwBtnState s"
  "lastPedBtnState (lcd_clear s) = lastPedBtnState s"
  "gpio (lcd_clear s) = gpio s"
  "polls (lcd_clear s) = polls s"
  "elapsed (lcd_clear s) = elapsed s"
  "outlog (lcd_clear s) = outlog s"
  "ticklog (lcd_clear s) = ticklog s"
  "currentPhase (lcd_setCursor c r s) = currentPhase s"
  "trafficCountNS (lcd_setCursor c r s) = trafficCountNS s"
  "trafficCountEW (lcd_setCursor c r s) = trafficCountEW s"
  "pedRequest (lcd_setCursor c r s) = pedRequest s"
  "lastNsBtnState (lcd_setCursor c r s) = lastNsBtnState s"
  "lastEwBtnState (lcd_setCursor c r s) = lastEwBtnState s"
  "lastPedBtnState (lcd_setCursor c r s) = lastPedBtnState s"
  "gpio (lcd_setCursor c r s) = gpio s"
  "polls (lcd_setCursor c r s) = polls s"
  "elapsed (lcd_setCursor c r s) = elapsed s"
  "outlog (lcd_setCursor c r s) = outlog s"
  "ticklog (lcd_setCursor c r s) = ticklog s"
  "currentPhase (lcd_print txt s) = currentPhase s"
  "trafficCountNS (lcd_print txt s) = trafficCountNS s"
  "trafficCountEW (lcd_print txt s) = trafficCountEW s"
  "pedRequest (lcd_print txt s) = pedRequest s"
  "lastNsBtnState (lcd_print txt s) = lastNsBtnState s"
  "lastEwBtnState (lcd_print txt s) = lastEwBtnState s"
  "lastPedBtnState (lcd_print txt s) = lastPedBtnState s"
  "gpio (lcd_print txt s) = gpio s"
  "polls (lcd_print txt s) = polls s"
  "elapsed (lcd_print txt s) = elapsed s"
  "outlog (lcd_print txt s) = outlog s"
  "ticklog (lcd_print txt s) = ticklog s"
  "currentPhase (lcd_print_int i s) = currentPhase s"
  "trafficCountNS (lcd_print_int i s) = trafficCountNS s"
  "trafficCountEW (lcd_print_int i s) = trafficCountEW s"
  "pedRequest (lcd_print_int i s) = pedRequest s"
  "lastNsBtnState (lcd_print_int i s) = lastNsBtnState s"
  "lastEwBtnState (lcd_print_int i s) = lastEwBtnState s"
  "lastPedBtnState (lcd_print_int i s) = lastPedBtnState s"
  "gpio (lcd_print_int i s) = gpio s"
  "polls (lcd_print_int i s) = polls s"
  "elapsed (lcd_print_int i s) = elapsed s"
  "outlog (lcd_print_int i s) = outlog s"
  "ticklog (lcd_print_int i s) = ticklog s"
  by (simp_all add: lcd_clear_def lcd_setCursor_def lcd_print_def lcd_print_int_def)

lemma lcdShowTwoLines_keeps [simp]:
  "currentPhase (lcdShowTwoLines a b s) = currentPhase s"
  "trafficCountNS (lcdShowTwoLines a b s) = trafficCountNS s"
  "trafficCountEW (lcdShowTwoLines a b s) = trafficCountEW s"
  "pedRequest (lcdShowTwoLines a b s) = pedRequest s"
  "lastNsBtnState (lcdShowTwoLines a b s) = lastNsBtnState s"
  "lastEwBtnState (lcdShowTwoLines a b s) = lastEwBtnState s"
  "lastPedBtnState (lcdShowTwoLines a b s) = lastPedBtnState s"
  "gpio (lcdShowTwoLines a b s) = gpio s"
  "polls (lcdShowTwoLines a b s) = polls s"
  "elapsed (lcdShowTwoLines a b s) = elapsed s"
  "outlog (lcdShowTwoLines a b s) = outlog s"
  "ticklog (lcdShowTwoLines a b s) = ticklog s"
  by (simp_all add: lcdShowTwoLines_def)

lemma delay_keeps [simp]:
  "currentPhase (delay ms s) = currentPhase s"
  "trafficCountNS (delay ms s) = trafficCountNS s"
  "trafficCountEW (delay ms s) = trafficCountEW s"
  "pedRequest (delay ms s) = pedRequest s"
  "lastNsBtnState (delay ms s) = lastNsBtnState s"
  "lastEwBtnState (delay ms s) = lastEwBtnState s"
  "lastPedBtnState (delay ms s) = lastPedBtnState s"
  "gpio (delay ms s) = gpio s"
  "lcd (delay ms s) = lcd s"
  "polls (delay ms s) = polls s"
  "outlog (delay ms s) = outlog s"
  "ticklog (delay ms s) = ticklog s"
  by (simp_all add: delay_def)

subsection \<open>Sampled levels and press edges\<close>

lemma samples_0: "samples inp pin k 0 = []"
  by (simp add: samples_def)

lemma samples_1: "samples inp pin k (Suc 0) = [inp k pin]"
  by (simp add: samples_def)

lemma samples_add: "samples inp pin k (m + n) = samples inp pin k m @ samples inp pin (k + m) n"
proof -
  have "[k..<k + (m + n)] = [k..<k + m] @ [k + m..<k + m + n]"
    by (metis add.assoc le_add1 upt_add_eq_append)
  then show ?thesis
    by (simp add: samples_def)
qed

lemma length_samples: "length (samples inp pin k n) = n"
  by (simp add: samples_def)

lemma pressEdges_append:
  "pressEdges prev (xs @ ys) = pressEdges prev xs + pressEdges (last (prev # xs)) ys"
  by (induction xs arbitrary: prev) auto

lemma last_samples_append:
  "last (prev # xs @ ys) = last (last (prev # xs) # ys)"
  by (induction xs arbitrary: prev) auto

lemma pressEdges_le_length: "pressEdges prev xs \<le> length xs"
  by (induction xs arbitrary: prev) (auto simp: le_SucI)

subsection \<open>The relation \<open>polled\<close>\<close>

lemma polled_trans:
  assumes "polled inp m s t" and "polled inp n t u"
  shows "polled inp (m + n) s u"
  using assms
  by (simp add: polled_def isNsRed_def isEwRed_def samples_add pressEdges_append
      last_samples_append)

lemma polled_0_then:
  assumes "polled inp 0 s t" and "polled inp n t u"
  shows "polled inp n s u"
  using polled_trans [OF assms] by simp

lemma polled_then_0:
  assumes "polled inp n s t" and "polled inp 0 t u"
  shows "polled inp n s u"
  using polled_trans [OF assms] by simp

lemma polled_refl: "polled inp 0 s s"
  by (simp add: polled_def samples_0)

lemma polled_delay: "polled inp 0 s (delay ms s)"
  by (simp add: polled_def samples_0 delay_def)

lemma polled_readNsButton:
  "currentPhase (readNsButton inp s) = currentPhase s"
  "polls (readNsButton inp s) = polls s"
  "trafficCountNS (readNsButton inp s) =
     trafficCountNS s +
       (if isNsRed s \<and> inp (polls s) PIN_BTN_NS_TRAFFIC = LOW \<and> lastNsBtnState s = HIGH
        then 1 else 0)"
  "trafficCountEW (readNsButton inp s) = trafficCountEW s"
  "pedRequest (readNsButton inp s) = pedRequest s"
  "lastNsBtnState (readNsButton inp s) = inp (polls s) PIN_BTN_NS_TRAFFIC"
  "lastEwBtnState (readNsButton inp s) = lastEwBtnState s"
  "lastPedBtnState (readNsButton inp s) = lastPedBtnState s"
  by (simp_all add: readNsButton_def digitalRead_def lcd_defs delay_def Let_def)

lemma polled_readEwButton:
  "currentPhase (readEwButton inp s) = currentPhase s"
  "polls (readEwButton inp s) = polls s"
  "trafficCountNS (readEwButton inp s) = trafficCountNS s"
  "trafficCountEW (readEwButton inp s) =
     trafficCountEW s +
       (if isEwRed s \<and> inp (polls s) PIN_BTN_EW_TRAFFIC = LOW \<and> lastEwBtnState s = HIGH
        then 1 else 0)"
  "pedRequest (readEwButton inp s) = pedRequest s"
  "lastNsBtnState (readEwButton inp s) = lastNsBtnState s"
  "lastEwBtnState (readEwButton inp s) = inp (polls s) PIN_BTN_EW_TRAFFIC"
  "lastPedBtnState (readEwButton inp s) = lastPedBtnState s"
  by (simp_all add: readEwButton_def digitalRead_def lcd_defs delay_def Let_def)

lemma polled_readPedButton:
  "currentPhase (readPedButton inp s) = currentPhase s"
  "polls (readPedButton inp s) = polls s"
  "trafficCountNS (readPedButton inp s) = trafficCountNS s"
  "trafficCountEW (readPedButton inp s) = trafficCountEW s"
  "pedRequest (readPedButton inp s) =
     (pedRequest s \<or> (inp (polls s) PIN_BTN_PED_REQUEST = LOW \<and> lastPedBtnState s = HIGH))"
  "lastNsBtnState (readPedButton inp s) = lastNsBtnState s"
  "lastEwBtnState (readPedButton inp s) = lastEwBtnState s"
  "lastPedBtnState (readPedButton inp s) = inp (polls s) PIN_BTN_PED_REQUEST"
  by (simp_all add: readPedButton_def digitalRead_def lcd_defs delay_def Let_def)

lemma isRed_readNsButton:
  "isNsRed (readNsButton inp s) = isNsRed s" "isEwRed (readNsButton inp s) = isEwRed s"
  by (simp_all add: isNsRed_def isEwRed_def polled_readNsButton)

lemma isRed_readEwButton:
  "isNsRed (readEwButton inp s) = isNsRed s" "isEwRed (readEwButton inp s) = isEwRed s"
  by (simp_all add: isNsRed_def isEwRed_def polled_readEwButton)

lemma readButtons_fields:
  "currentPhase (readButtons inp s) = currentPhase s"
  "polls (readButtons inp s) = polls s + 1"
  "trafficCountNS (readButtons inp s) =
     trafficCountNS s +
       (if isNsRed s \<and> inp (polls s) PIN_BTN_NS_TRAFFIC = LOW \<and> lastNsBtnState s = HIGH
        then 1 else 0)"
  "trafficCountEW (readButtons inp s) =
     trafficCountEW s +
       (if isEwRed s \<and> inp (polls s) PIN_BTN_EW_TRAFFIC = LOW \<and> lastEwBtnState s = HIGH
        then 1 else 0)"
  "pedRequest (readButtons inp s) =
     (pedRequest s \<or> (inp (polls s) PIN_BTN_PED_REQUEST = LOW \<and> lastPedBtnState s = HIGH))"
  "lastNsBtnState (readButtons inp s) = inp (polls s) PIN_BTN_NS_TRAFFIC"
  "lastEwBtnState (readButtons inp s) = inp (polls s) PIN_BTN_EW_TRAFFIC"
  "lastPedBtnState (readButtons inp s) = inp (polls s) PIN_BTN_PED_REQUEST"
  by (simp_all add: readButtons_def Let_def polled_readNsButton polled_readEwButton
      polled_readPedButton isRed_readNsButton isRed_readEwButton)

lemma polled_readButtons: "polled inp 1 s (readButtons inp s)"
  by (simp add: polled_def samples_1 readButtons_fields)

lemma polled_pollN: "polled inp n s (pollN inp n s)"
proof (induction n arbitrary: s)
  case 0
  show ?case by (simp add: polled_refl)
next
  case (Suc n)
  have "polled inp 1 s (delay 20 (readButtons inp s))"
    by (rule polled_then_0 [OF polled_readButtons polled_delay])
  from polled_trans [OF this Suc.IH] show ?case by simp
qed

lemma waitLoop_pollN: "waitLoop inp i s = pollN inp (nat (50 - i)) s"
proof (induction inp i s rule: waitLoop.induct)
  case (1 inp i s)
  show ?case
  proof (cases "i < 50")
    case True
    then have "nat (50 - i) = Suc (nat (50 - (i + 1)))" by simp
    with True "1.IH" show ?thesis
      by (subst waitLoop.simps) simp
  next
    case False
    then show ?thesis by (subst waitLoop.simps) simp
  qed
qed


subsection \<open>The display\<close>

lemma put_at_end: "c = length l \<Longrightarrow> put_at c txt l = l @ txt"
  by (simp add: put_at_def)

subsection \<open>Polling leaves the outputs and the logs alone\<close>

lemma button_world:
  "gpio (readNsButton inp s) = gpio s"
  "outlog (readNsButton inp s) = outlog s"
  "ticklog (readNsButton inp s) = ticklog s"
  "gpio (readEwButton inp s) = gpio s"
  "outlog (readEwButton inp s) = outlog s"
  "ticklog (readEwButton inp s) = ticklog s"
  "gpio (readPedButton inp s) = gpio s"
  "outlog (readPedButton inp s) = outlog s"
  "ticklog (readPedButton inp s) = ticklog s"
  by (simp_all add: readNsButton_def readEwButton_def readPedButton_def Let_def)

lemma readButtons_world:
  "gpio (readButtons inp s) = gpio s"
  "outlog (readButtons inp s) = outlog s"
  "ticklog (readButtons inp s) = ticklog s"
  by (simp_all add: readButtons_def Let_def button_world)

lemma pollN_world:
  "gpio (pollN inp n s) = gpio s"
  "outlog (pollN inp n s) = outlog s"
  "ticklog (pollN inp n s) = ticklog s"
  by (induction n arbitrary: s) (simp_all add: readButtons_world delay_def)

lemma polled_ignores [simp]:
  "polled inp n (s\<lparr>lcd := d\<rparr>) u = polled inp n s u"
  "polled inp n (s\<lparr>gpio := g\<rparr>) u = polled inp n s u"
  "polled inp n (s\<lparr>outlog := ol\<rparr>) u = polled inp n s u"
  "polled inp n (s\<lparr>ticklog := tk\<rparr>) u = polled inp n s u"
  "polled inp n (s\<lparr>elapsed := ms\<rparr>) u = polled inp n s u"
  by (simp_all add: polled_def isNsRed_def isEwRed_def)

lemma waitOneSecond_world:
  "gpio (waitOneSecondWithButtons inp s) = gpio s"
  "outlog (waitOneSecondWithButtons inp s) = outlog s"
  "ticklog (waitOneSecondWithButtons inp s) = ticklog s @ [observe s]"
  by (simp_all add: waitOneSecondWithButtons_def waitLoop_pollN pollN_world)

lemma polled_waitOneSecond: "polled inp 50 s (waitOneSecondWithButtons inp s)"
  using polled_pollN [of inp 50 "s\<lparr>ticklog := ticklog s @ [observe s]\<rparr>"]
  by (simp add: waitOneSecondWithButtons_def waitLoop_pollN)

subsection \<open>The countdown loop\<close>

lemma downfrom_pos: "0 < n \<Longrightarrow> downfrom n = n # downfrom (n - 1)"
  by (subst downfrom.simps) simp

lemma downfrom_nonpos: "n \<le> 0 \<Longrightarrow> downfrom n = []"
  by (subst downfrom.simps) simp

lemma length_downfrom: "length (downfrom n) = nat n"
proof (induction n rule: downfrom.induct)
  case (1 n)
  show ?case
  proof (cases "0 < n")
    case True
    with "1.IH" show ?thesis by (simp add: downfrom_pos nat_diff_distrib Suc_nat_eq_nat_zadd1)
  next
    case False
    then show ?thesis by (simp add: downfrom_nonpos)
  qed
qed

lemma countdown_pos: "0 < n \<Longrightarrow> countdown body n s = countdown body (n - 1) (body n s)"
  by (subst countdown.simps) simp

lemma countdown_nonpos: "n \<le> 0 \<Longrightarrow> countdown body n s = s"
  by (subst countdown.simps) simp

lemma countdown_keeps:
  assumes "\<And>r s. f (body r s) = f s"
  shows "f (countdown body n s) = f s"
proof (induction "nat n" arbitrary: n s)
  case 0
  then show ?case by (simp add: countdown_nonpos)
next
  case (Suc k)
  then have pos: "0 < n" and k: "k = nat (n - 1)" by simp_all
  have "f (countdown body (n - 1) (body n s)) = f (body n s)"
    by (rule Suc.hyps(1) [OF k])
  then show ?case
    using pos by (simp add: countdown_pos assms)
qed

lemma countdown_polled:
  assumes "\<And>r s. polled inp 50 s (body r s)"
  shows "polled inp (50 * nat n) s (countdown body n s)"
proof (induction "nat n" arbitrary: n s)
  case 0
  then show ?case by (simp add: countdown_nonpos polled_refl)
next
  case (Suc k)
  then have pos: "0 < n" and k: "k = nat (n - 1)" by simp_all
  have eq: "50 * nat n = 50 + 50 * nat (n - 1)"
    using pos by (simp add: nat_diff_distrib)
  have "polled inp (50 * nat (n - 1)) (body n s) (countdown body (n - 1) (body n s))"
    by (rule Suc.hyps(1) [OF k])
  from polled_trans [OF assms this] show ?case
    using pos by (simp add: countdown_pos eq)
qed

lemma countdown_ticks:
  assumes step: "\<And>r s. 0 < r \<Longrightarrow> I s \<Longrightarrow>
      I (body r s) \<and> (\<exists>f. ticklog (body r s) = ticklog s @ [f] \<and> P r f)"
    and "I s"
  shows "I (countdown body n s) \<and>
     (\<exists>X. ticklog (countdown body n s) = ticklog s @ X \<and> list_all2 P (downfrom n) X)"
  using \<open>I s\<close>
proof (induction "nat n" arbitrary: n s)
  case 0
  then show ?case by (simp add: countdown_nonpos downfrom_nonpos)
next
  case (Suc k)
  then have pos: "0 < n" and k: "k = nat (n - 1)" by simp_all
  from step [OF pos \<open>I s\<close>] have I1: "I (body n s)"
    and "\<exists>f. ticklog (body n s) = ticklog s @ [f] \<and> P n f"
    by simp_all
  then obtain f where f: "ticklog (body n s) = ticklog s @ [f]" "P n f"
    by blast
  from Suc.hyps(1) [OF k I1] have I2: "I (countdown body (n - 1) (body n s))"
    and "\<exists>X. ticklog (countdown body (n - 1) (body n s)) = ticklog (body n s) @ X \<and>
           list_all2 P (downfrom (n - 1)) X"
    by simp_all
  then obtain X where
    X: "ticklog (countdown body (n - 1) (body n s)) = ticklog (body n s) @ X"
       "list_all2 P (downfrom (n - 1)) X"
    by blast
  have "ticklog (countdown body n s) = ticklog s @ (f # X)"
    using pos f X by (simp add: countdown_pos)
  moreover have "list_all2 P (downfrom n) (f # X)"
    using pos f X by (simp add: downfrom_pos)
  ultimately show ?case
    using pos I2 by (simp add: countdown_pos)
qed

lemma newticks_append: "ticklog s' = ticklog s @ X \<Longrightarrow> newticks s s' = X"
  by (simp add: newticks_def)

subsection \<open>What the output operations leave alone\<close>

lemma digitalWrite_keeps [simp]:
  "currentPhase (digitalWrite pin v s) = currentPhase s"
  "trafficCountNS (digitalWrite pin v s) = trafficCountNS s"
  "trafficCountEW (digitalWrite pin v s) = trafficCountEW s"
  "pedRequest (digitalWrite pin v s) = pedRequest s"
  "lastNsBtnState (digitalWrite pin v s) = lastNsBtnState s"
  "lastEwBtnState (digitalWrite pin v s) = lastEwBtnState s"
  "lastPedBtnState (digitalWrite pin v s) = lastPedBtnState s"
  "lcd (digitalWrite pin v s) = lcd s"
  "polls (digitalWrite pin v s) = polls s"
  "elapsed (digitalWrite pin v s) = elapsed s"
  "ticklog (digitalWrite pin v s) = ticklog s"
  by (simp_all add: digitalWrite_def)

lemma setAllVehicleRed_keeps [simp]:
  "currentPhase (setAllVehicleRed s) = currentPhase s"
  "trafficCountNS (setAllVehicleRed s) = trafficCountNS s"
  "trafficCountEW (setAllVehicleRed s) = trafficCountEW s"
  "pedRequest (setAllVehicleRed s) = pedRequest s"
  "lastNsBtnState (setAllVehicleRed s) = lastNsBtnState s"
  "lastEwBtnState (setAllVehicleRed s) = lastEwBtnState s"
  "lastPedBtnState (setAllVehicleRed s) = lastPedBtnState s"
  "lcd (setAllVehicleRed s) = lcd s"
  "polls (setAllVehicleRed s) = polls s"
  "elapsed (setAllVehicleRed s) = elapsed s"
  "ticklog (setAllVehicleRed s) = ticklog s"
  by (simp_all add: setAllVehicleRed_def)

lemma setState_keeps [simp]:
  "currentPhase (setNsGreenState s) = currentPhase s"
  "trafficCountNS (setNsGreenState s) = trafficCountNS s"
  "trafficCountEW (setNsGreenState s) = trafficCountEW s"
  "pedRequest (setNsGreenState s) = pedRequest s"
  "lastNsBtnState (setNsGreenState s) = lastNsBtnState s"
  "lastEwBtnState (setNsGreenState s) = lastEwBtnState s"
  "lastPedBtnState (setNsGreenState s) = lastPedBtnState s"
  "lcd (setNsGreenState s) = lcd s"
  "polls (setNsGreenState s) = polls s"
  "elapsed (setNsGreenState s) = elapsed s"
  "ticklog (setNsGreenState s) = ticklog s"
  "currentPhase (setNsYellowState s) = currentPhase s"
  "trafficCountNS (setNsYellowState s) = trafficCountNS s"
  "trafficCountEW (setNsYellowState s) = trafficCountEW s"
  "pedRequest (setNsYellowState s) = pedRequest s"
  "lastNsBtnState (setNsYellowState s) = lastNsBtnState s"
  "lastEwBtnState (setNsYellowState s) = lastEwBtnState s"
  "lastPedBtnState (setNsYellowState s) = lastPedBtnState s"
  "lcd (setNsYellowState s) = lcd s"
  "polls (setNsYellowState s) = polls s"
  "elapsed (setNsYellowState s) = elapsed s"
  "ticklog (setNsYellowState s) = ticklog s"
  "currentPhase (setEwGreenState s) = currentPhase s"
  "trafficCountNS (setEwGreenState s) = trafficCountNS s"
  "trafficCountEW (setEwGreenState s) = trafficCountEW s"
  "pedRequest (setEwGreenState s) = pedRequest s"
  "lastNsBtnState (setEwGreenState s) = lastNsBtnState s"
  "lastEwBtnState (setEwGreenState s) = lastEwBtnState s"
  "lastPedBtnState (setEwGreenState s) = lastPedBtnState s"
  "lcd (setEwGreenState s) = lcd s"
  "polls (setEwGreenState s) = polls s"
  "elapsed (setEwGreenState s) = elapsed s"
  "ticklog (setEwGreenState s) = ticklog s"
  "currentPhase (setEwYellowState s) = currentPhase s"
  "trafficCountNS (setEwYellowState s) = trafficCountNS s"
  "trafficCountEW (setEwYellowState s) = trafficCountEW s"
  "pedRequest (setEwYellowState s) = pedRequest s"
  "lastNsBtnState (setEwYellowState s) = lastNsBtnState s"
  "lastEwBtnState (setEwYellowState s) = lastEwBtnState s"
  "lastPedBtnState (setEwYellowState s) = lastPedBtnState s"
  "lcd (setEwYellowState s) = lcd s"
  "polls (setEwYellowState s) = polls s"
  "elapsed (setEwYellowState s) = elapsed s"
  "ticklog (setEwYellowState s) = ticklog s"
  "currentPhase (setPedestrianGreenState s) = currentPhase s"
  "trafficCountNS (setPedestrianGreenState s) = trafficCountNS s"
  "trafficCountEW (setPedestrianGreenState s) = trafficCountEW s"
  "pedRequest (setPedestrianGreenState s) = pedRequest s"
  "lastNsBtnState (setPedestrianGreenState s) = lastNsBtnState s"
  "lastEwBtnState (setPedestrianGreenState s) = lastEwBtnState s"
  "lastPedBtnState (setPedestrianGreenState s) = lastPedBtnState s"
  "lcd (setPedestrianGreenState s) = lcd s"
  "polls (setPedestrianGreenState s) = polls s"
  "elapsed (setPedestrianGreenState s) = elapsed s"
  "ticklog (setPedestrianGreenState s) = ticklog s"
  by (simp_all add: setNsGreenState_def setNsYellowState_def setEwGreenState_def
      setEwYellowState_def setPedestrianGreenState_def)

lemma set_currentPhase_keeps [simp]:
  "trafficCountNS (set_currentPhase p s) = trafficCountNS s"
  "trafficCountEW (set_currentPhase p s) = trafficCountEW s"
  "pedRequest (set_currentPhase p s) = pedRequest s"
  "lastNsBtnState (set_currentPhase p s) = lastNsBtnState s"
  "lastEwBtnState (set_currentPhase p s) = lastEwBtnState s"
  "lastPedBtnState (set_currentPhase p s) = lastPedBtnState s"
  "gpio (set_currentPhase p s) = gpio s"
  "lcd (set_currentPhase p s) = lcd s"
  "polls (set_currentPhase p s) = polls s"
  "elapsed (set_currentPhase p s) = elapsed s"
  "ticklog (set_currentPhase p s) = ticklog s"
  by (simp_all add: set_currentPhase_def)

lemma set_currentPhase_phase [simp]: "currentPhase (set_currentPhase p s) = p"
  by (simp add: set_currentPhase_def)

subsection \<open>What the display shows after a sequence of prints\<close>

lemma lcd_home:
  "lcd (lcd_setCursor 0 0 (lcd_clear s)) =
     \<lparr>line1 = [], line2 = [], cur_col = length ([] :: string), cur_row = 0\<rparr>"
  by (simp add: lcd_clear_def lcd_setCursor_def)

lemma lcd_second_row:
  "lcd s = \<lparr>line1 = a, line2 = [], cur_col = length a, cur_row = 0\<rparr> \<Longrightarrow>
   lcd (lcd_setCursor 0 1 s) =
     \<lparr>line1 = a, line2 = [], cur_col = length ([] :: string), cur_row = 1\<rparr>"
  by (simp add: lcd_setCursor_def)

lemma lcd_print_row0:
  "lcd s = \<lparr>line1 = a, line2 = b, cur_col = length a, cur_row = 0\<rparr> \<Longrightarrow>
   lcd (lcd_print txt s) =
     \<lparr>line1 = a @ txt, line2 = b, cur_col = length (a @ txt), cur_row = 0\<rparr>"
  by (simp add: lcd_print_def display_write_def put_at_end)

lemma lcd_print_row1:
  "lcd s = \<lparr>line1 = a, line2 = b, cur_col = length b, cur_row = 1\<rparr> \<Longrightarrow>
   lcd (lcd_print txt s) =
     \<lparr>line1 = a, line2 = b @ txt, cur_col = length (b @ txt), cur_row = 1\<rparr>"
  by (simp add: lcd_print_def display_write_def put_at_end)

lemmas lcd_steps = lcd_home lcd_second_row lcd_print_row0 lcd_print_row1

lemma display_nsGreen:
  "lcd (lcd_print_int c (lcd_print '' EW='' (lcd_print_int r (lcd_print ''T='' (lcd_setCursor 0 1
     (lcd_print ''s'' (lcd_print_int e (lcd_print ''+'' (lcd_print_int b (lcd_print ''NSG ''
     (lcd_setCursor 0 0 (lcd_clear s)))))))))))) =
   \<lparr>line1 = ''NSG '' @ print_int b @ ''+'' @ print_int e @ ''s'',
    line2 = ''T='' @ print_int r @ '' EW='' @ print_int c,
    cur_col = length (''T='' @ print_int r @ '' EW='' @ print_int c), cur_row = 1\<rparr>"
proof -
  have "lcd (lcd_print_int c (lcd_print '' EW='' (lcd_print_int r (lcd_print ''T=''
     (lcd_setCursor 0 1 (lcd_print ''s'' (lcd_print_int e (lcd_print ''+'' (lcd_print_int b
     (lcd_print ''NSG '' (lcd_setCursor 0 0 (lcd_clear s)))))))))))) =
   \<lparr>line1 = (((([] @ ''NSG '') @ print_int b) @ ''+'') @ print_int e) @ ''s'',
    line2 = ((([] @ ''T='') @ print_int r) @ '' EW='') @ print_int c,
    cur_col = length (((([] @ ''T='') @ print_int r) @ '' EW='') @ print_int c),
    cur_row = 1\<rparr>"
    unfolding lcd_print_int_def by (intro lcd_steps)
  then show ?thesis by simp
qed

lemma display_ewGreen:
  "lcd (lcd_print_int c (lcd_print '' NS='' (lcd_print_int r (lcd_print ''T='' (lcd_setCursor 0 1
     (lcd_print ''s'' (lcd_print_int e (lcd_print ''+'' (lcd_print_int b (lcd_print ''EWG ''
     (lcd_setCursor 0 0 (lcd_clear s)))))))))))) =
   \<lparr>line1 = ''EWG '' @ print_int b @ ''+'' @ print_int e @ ''s'',
    line2 = ''T='' @ print_int r @ '' NS='' @ print_int c,
    cur_col = length (''T='' @ print_int r @ '' NS='' @ print_int c), cur_row = 1\<rparr>"
proof -
  have "lcd (lcd_print_int c (lcd_print '' NS='' (lcd_print_int r (lcd_print ''T=''
     (lcd_setCursor 0 1 (lcd_print ''s'' (lcd_print_int e (lcd_print ''+'' (lcd_print_int b
     (lcd_print ''EWG '' (lcd_setCursor 0 0 (lcd_clear s)))))))))))) =
   \<lparr>line1 = (((([] @ ''EWG '') @ print_int b) @ ''+'') @ print_int e) @ ''s'',
    line2 = ((([] @ ''T='') @ print_int r) @ '' NS='') @ print_int c,
    cur_col = length (((([] @ ''T='') @ print_int r) @ '' NS='') @ print_int c),
    cur_row = 1\<rparr>"
    unfolding lcd_print_int_def by (intro lcd_steps)
  then show ?thesis by simp
qed

lemma display_nsYellow:
  "lcd (lcd_print_int c (lcd_print ''EW='' (lcd_setCursor 0 1
     (lcd_print ''s'' (lcd_print_int r (lcd_print ''NSY T=''
     (lcd_setCursor 0 0 (lcd_clear s)))))))) =
   \<lparr>line1 = ''NSY T='' @ print_int r @ ''s'',
    line2 = ''EW='' @ print_int c,
    cur_col = length (''EW='' @ print_int c), cur_row = 1\<rparr>"
proof -
  have "lcd (lcd_print_int c (lcd_print ''EW='' (lcd_setCursor 0 1
     (lcd_print ''s'' (lcd_print_int r (lcd_print ''NSY T=''
     (lcd_setCursor 0 0 (lcd_clear s)))))))) =
   \<lparr>line1 = (([] @ ''NSY T='') @ print_int r) @ ''s'',
    line2 = ([] @ ''EW='') @ print_int c,
    cur_col = length (([] @ ''EW='') @ print_int c), cur_row = 1\<rparr>"
    unfolding lcd_print_int_def by (intro lcd_steps)
  then show ?thesis by simp
qed

lemma display_ewYellow:
  "lcd (lcd_print_int c (lcd_print ''NS='' (lcd_setCursor 0 1
     (lcd_print ''s'' (lcd_print_int r (lcd_print ''EWY T=''
     (lcd_setCursor 0 0 (lcd_clear s)))))))) =
   \<lparr>line1 = ''EWY T='' @ print_int r @ ''s'',
    line2 = ''NS='' @ print_int c,
    cur_col = length (''NS='' @ print_int c), cur_row = 1\<rparr>"
proof -
  have "lcd (lcd_print_int c (lcd_print ''NS='' (lcd_setCursor 0 1
     (lcd_print ''s'' (lcd_print_int r (lcd_print ''EWY T=''
     (lcd_setCursor 0 0 (lcd_clear s)))))))) =
   \<lparr>line1 = (([] @ ''EWY T='') @ print_int r) @ ''s'',
    line2 = ([] @ ''NS='') @ print_int c,
    cur_col = length (([] @ ''NS='') @ print_int c), cur_row = 1\<rparr>"
    unfolding lcd_print_int_def by (intro lcd_steps)
  then show ?thesis by simp
qed

lemma display_ped:
  "lcd (lcd_print '' WALK'' (lcd_print_int r (lcd_print ''T='' (lcd_setCursor 0 1
     (lcd_print ''PEDESTRIAN'' (lcd_setCursor 0 0 (lcd_clear s))))))) =
   \<lparr>line1 = ''PEDESTRIAN'',
    line2 = ''T='' @ print_int r @ '' WALK'',
    cur_col = length (''T='' @ print_int r @ '' WALK''), cur_row = 1\<rparr>"
proof -
  have "lcd (lcd_print '' WALK'' (lcd_print_int r (lcd_print ''T='' (lcd_setCursor 0 1
     (lcd_print ''PEDESTRIAN'' (lcd_setCursor 0 0 (lcd_clear s))))))) =
   \<lparr>line1 = [] @ ''PEDESTRIAN'',
    line2 = (([] @ ''T='') @ print_int r) @ '' WALK'',
    cur_col = length ((([] @ ''T='') @ print_int r) @ '' WALK''), cur_row = 1\<rparr>"
    unfolding lcd_print_int_def by (intro lcd_steps)
  then show ?thesis by simp
qed

subsection \<open>One second of each phase\<close>

lemma polled_waitOneSecond_after:
  "polled inp 0 s t \<Longrightarrow> polled inp 50 s (waitOneSecondWithButtons inp t)"
  by (rule polled_0_then [OF _ polled_waitOneSecond])

lemma polled_nsGreenSecond: "polled inp 50 s (nsGreenSecond inp b e r s)"
  unfolding nsGreenSecond_def Let_def
  by (rule polled_waitOneSecond_after) (simp add: polled_def samples_0)

lemma polled_ewGreenSecond: "polled inp 50 s (ewGreenSecond inp b e r s)"
  unfolding ewGreenSecond_def Let_def
  by (rule polled_waitOneSecond_after) (simp add: polled_def samples_0)

lemma polled_pedSecond: "polled inp 50 s (pedSecond inp r s)"
  unfolding pedSecond_def Let_def
  by (rule polled_waitOneSecond_after) (simp add: polled_def samples_0)

lemma polled_nsYellowSecond: "polled inp 50 s (nsYellowSecond inp r s)"
  unfolding nsYellowSecond_def Let_def
  by (rule polled_waitOneSecond_after) (simp add: polled_def samples_0)

lemma polled_ewYellowSecond: "polled inp 50 s (ewYellowSecond inp r s)"
  unfolding ewYellowSecond_def Let_def
  by (rule polled_waitOneSecond_after) (simp add: polled_def samples_0)

lemma tick_nsGreenSecond:
  "ticklog (nsGreenSecond inp b e r s) = ticklog s @
     [\<lparr>t_phase = currentPhase s,
       t_line1 = ''NSG '' @ print_int b @ ''+'' @ print_int e @ ''s'',
       t_line2 = ''T='' @ print_int r @ '' EW='' @ print_int (trafficCountEW s),
       t_countNS = trafficCountNS s, t_countEW = trafficCountEW s,
      t_request = pedRequest s\<rparr>]"
  by (simp add: nsGreenSecond_def Let_def waitOneSecond_world observe_def display_nsGreen
      del: One_nat_def)

lemma tick_ewGreenSecond:
  "ticklog (ewGreenSecond inp b e r s) = ticklog s @
     [\<lparr>t_phase = currentPhase s,
       t_line1 = ''EWG '' @ print_int b @ ''+'' @ print_int e @ ''s'',
       t_line2 = ''T='' @ print_int r @ '' NS='' @ print_int (trafficCountNS s),
       t_countNS = trafficCountNS s, t_countEW = trafficCountEW s,
      t_request = pedRequest s\<rparr>]"
  by (simp add: ewGreenSecond_def Let_def waitOneSecond_world observe_def display_ewGreen
      del: One_nat_def)

lemma tick_nsYellowSecond:
  "ticklog (nsYellowSecond inp r s) = ticklog s @
     [\<lparr>t_phase = currentPhase s,
       t_line1 = ''NSY T='' @ print_int r @ ''s'',
       t_line2 = ''EW='' @ print_int (trafficCountEW s),
       t_countNS = trafficCountNS s, t_countEW = trafficCountEW s,
      t_request = pedRequest s\<rparr>]"
  by (simp add: nsYellowSecond_def Let_def waitOneSecond_world observe_def display_nsYellow
      del: One_nat_def)

lemma tick_ewYellowSecond:
  "ticklog (ewYellowSecond inp r s) = ticklog s @
     [\<lparr>t_phase = currentPhase s,
       t_line1 = ''EWY T='' @ print_int r @ ''s'',
       t_line2 = ''NS='' @ print_int (trafficCountNS s),
       t_countNS = trafficCountNS s, t_countEW = trafficCountEW s,
      t_request = pedRequest s\<rparr>]"
  by (simp add: ewYellowSecond_def Let_def waitOneSecond_world observe_def display_ewYellow
      del: One_nat_def)

lemma tick_pedSecond:
  "ticklog (pedSecond inp r s) = ticklog s @
     [\<lparr>t_phase = currentPhase s,
       t_line1 = ''PEDESTRIAN'',
       t_line2 = ''T='' @ print_int r @ '' WALK'',
       t_countNS = trafficCountNS s, t_countEW = trafficCountEW s,
      t_request = pedRequest s\<rparr>]"
  by (simp add: pedSecond_def Let_def waitOneSecond_world observe_def display_ped
      del: One_nat_def)

lemma world_greenSecond:
  "gpio (nsGreenSecond inp b e r s) = gpio s"
  "outlog (nsGreenSecond inp b e r s) = outlog s"
  "gpio (ewGreenSecond inp b e r s) = gpio s"
  "outlog (ewGreenSecond inp b e r s) = outlog s"
  "gpio (pedSecond inp r s) = gpio s"
  "outlog (pedSecond inp r s) = outlog s"
  by (simp_all add: nsGreenSecond_def ewGreenSecond_def pedSecond_def Let_def
      waitOneSecond_world)

subsection \<open>The output invariant, operation by operation\<close>

lemma pins_distinct:
  "PIN_NS_RED \<noteq> PIN_NS_YELLOW"
  "PIN_NS_RED \<noteq> PIN_NS_GREEN"
  "PIN_NS_RED \<noteq> PIN_EW_RED"
  "PIN_NS_RED \<noteq> PIN_EW_YELLOW"
  "PIN_NS_RED \<noteq> PIN_EW_GREEN"
  "PIN_NS_RED \<noteq> PIN_PED_RED"
  "PIN_NS_RED \<noteq> PIN_PED_GREEN"
  "PIN_NS_YELLOW \<noteq> PIN_NS_RED"
  "PIN_NS_YELLOW \<noteq> PIN_NS_GREEN"
  "PIN_NS_YELLOW \<noteq> PIN_EW_RED"
  "PIN_NS_YELLOW \<noteq> PIN_EW_YELLOW"
  "PIN_NS_YELLOW \<noteq> PIN_EW_GREEN"
  "PIN_NS_YELLOW \<noteq> PIN_PED_RED"
  "PIN_NS_YELLOW \<noteq> PIN_PED_GREEN"
  "PIN_NS_GREEN \<noteq> PIN_NS_RED"
  "PIN_NS_GREEN \<noteq> PIN_NS_YELLOW"
  "PIN_NS_GREEN \<noteq> PIN_EW_RED"
  "PIN_NS_GREEN \<noteq> PIN_EW_YELLOW"
  "PIN_NS_GREEN \<noteq> PIN_EW_GREEN"
  "PIN_NS_GREEN \<noteq> PIN_PED_RED"
  "PIN_NS_GREEN \<noteq> PIN_PED_GREEN"
  "PIN_EW_RED \<noteq> PIN_NS_RED"
  "PIN_EW_RED \<noteq> PIN_NS_YELLOW"
  "PIN_EW_RED \<noteq> PIN_NS_GREEN"
  "PIN_EW_RED \<noteq> PIN_EW_YELLOW"
  "PIN_EW_RED \<noteq> PIN_EW_GREEN"
  "PIN_EW_RED \<noteq> PIN_PED_RED"
  "PIN_EW_RED \<noteq> PIN_PED_GREEN"
  "PIN_EW_YELLOW \<noteq> PIN_NS_RED"
  "PIN_EW_YELLOW \<noteq> PIN_NS_YELLOW"
  "PIN_EW_YELLOW \<noteq> PIN_NS_GREEN"
  "PIN_EW_YELLOW \<noteq> PIN_EW_RED"
  "PIN_EW_YELLOW \<noteq> PIN_EW_GREEN"
  "PIN_EW_YELLOW \<noteq> PIN_PED_RED"
  "PIN_EW_YELLOW \<noteq> PIN_PED_GREEN"
  "PIN_EW_GREEN \<noteq> PIN_NS_RED"
  "PIN_EW_GREEN \<noteq> PIN_NS_YELLOW"
  "PIN_EW_GREEN \<noteq> PIN_NS_GREEN"
  "PIN_EW_GREEN \<noteq> PIN_EW_RED"
  "PIN_EW_GREEN \<noteq> PIN_EW_YELLOW"
  "PIN_EW_GREEN \<noteq> PIN_PED_RED"
  "PIN_EW_GREEN \<noteq> PIN_PED_GREEN"
  "PIN_PED_RED \<noteq> PIN_NS_RED"
  "PIN_PED_RED \<noteq> PIN_NS_YELLOW"
  "PIN_PED_RED \<noteq> PIN_NS_GREEN"
  "PIN_PED_RED \<noteq> PIN_EW_RED"
  "PIN_PED_RED \<noteq> PIN_EW_YELLOW"
  "PIN_PED_RED \<noteq> PIN_EW_GREEN"
  "PIN_PED_RED \<noteq> PIN_PED_GREEN"
  "PIN_PED_GREEN \<noteq> PIN_NS_RED"
  "PIN_PED_GREEN \<noteq> PIN_NS_YELLOW"
  "PIN_PED_GREEN \<noteq> PIN_NS_GREEN"
  "PIN_PED_GREEN \<noteq> PIN_EW_RED"
  "PIN_PED_GREEN \<noteq> PIN_EW_YELLOW"
  "PIN_PED_GREEN \<noteq> PIN_EW_GREEN"
  "PIN_PED_GREEN \<noteq> PIN_PED_RED"
  by (simp_all add: pin_defs)

lemma polled_phase: "polled inp n s t \<Longrightarrow> currentPhase t = currentPhase s"
  by (simp add: polled_def)

lemma countdown_inv:
  assumes "\<And>r s. P s \<Longrightarrow> P (body r s)" and "P s"
  shows "P (countdown body n s)"
  using \<open>P s\<close>
proof (induction "nat n" arbitrary: n s)
  case 0
  then show ?case by (simp add: countdown_nonpos)
next
  case (Suc k)
  then have pos: "0 < n" and k: "k = nat (n - 1)" by simp_all
  have "P (countdown body (n - 1) (body n s))"
    by (rule Suc.hyps(1) [OF k assms(1) [OF \<open>P s\<close>]])
  then show ?case
    using pos by (simp add: countdown_pos)
qed

lemma signals_safe_cong:
  "outlog t = outlog s \<Longrightarrow> gpio t = gpio s \<Longrightarrow> currentPhase t = currentPhase s \<Longrightarrow>
   signals_safe t = signals_safe s"
  by (simp add: signals_safe_def)

lemma safe_set_currentPhase:
  "signals_safe s \<Longrightarrow> \<not> gpio s PIN_PED_GREEN \<Longrightarrow> signals_safe (set_currentPhase p s)"
  by (simp add: signals_safe_def set_currentPhase_def safe_out_def)

lemma safe_set_pedPhase:
  "signals_safe s \<Longrightarrow> signals_safe (set_currentPhase PHASE_PED_GREEN s)"
  by (simp add: signals_safe_def set_currentPhase_def safe_out_def)

lemma safe_write_low:
  "signals_safe s \<Longrightarrow> signals_safe (digitalWrite pin LOW s)"
  by (simp add: signals_safe_def digitalWrite_def safe_out_def)

lemma safe_write_other:
  "signals_safe s \<Longrightarrow> pin \<noteq> PIN_NS_GREEN \<Longrightarrow> pin \<noteq> PIN_EW_GREEN \<Longrightarrow>
   pin \<noteq> PIN_PED_GREEN \<Longrightarrow> signals_safe (digitalWrite pin v s)"
  by (simp add: signals_safe_def digitalWrite_def safe_out_def)

lemma safe_write_nsGreen:
  "signals_safe s \<Longrightarrow> \<not> gpio s PIN_EW_GREEN \<Longrightarrow>
   signals_safe (digitalWrite PIN_NS_GREEN HIGH s)"
  by (simp add: signals_safe_def digitalWrite_def safe_out_def pins_distinct)

lemma safe_write_ewGreen:
  "signals_safe s \<Longrightarrow> \<not> gpio s PIN_NS_GREEN \<Longrightarrow>
   signals_safe (digitalWrite PIN_EW_GREEN HIGH s)"
  by (simp add: signals_safe_def digitalWrite_def safe_out_def pins_distinct)

lemma safe_write_pedGreen:
  "signals_safe s \<Longrightarrow> currentPhase s = PHASE_PED_GREEN \<Longrightarrow>
   signals_safe (digitalWrite PIN_PED_GREEN HIGH s)"
  by (simp add: signals_safe_def digitalWrite_def safe_out_def pins_distinct)

lemma gpio_digitalWrite: "gpio (digitalWrite pin v s) = (gpio s)(pin := v)"
  by (simp add: digitalWrite_def)

lemma safe_setAllVehicleRed:
  "signals_safe s \<Longrightarrow> signals_safe (setAllVehicleRed s)"
  unfolding setAllVehicleRed_def Let_def
  by (intro safe_write_low safe_write_other) (simp_all add: pins_distinct)

lemma gpio_setAllVehicleRed:
  "gpio (setAllVehicleRed s) PIN_NS_GREEN = LOW"
  "gpio (setAllVehicleRed s) PIN_EW_GREEN = LOW"
  "gpio (setAllVehicleRed s) PIN_PED_GREEN = gpio s PIN_PED_GREEN"
  by (simp_all add: setAllVehicleRed_def gpio_digitalWrite pins_distinct)

lemma safe_setNsGreenState:
  "signals_safe s \<Longrightarrow> signals_safe (setNsGreenState s)"
  unfolding setNsGreenState_def Let_def
  by (intro safe_write_nsGreen safe_write_low safe_setAllVehicleRed)
    (simp_all add: gpio_digitalWrite gpio_setAllVehicleRed pins_distinct)

lemma safe_setEwGreenState:
  "signals_safe s \<Longrightarrow> signals_safe (setEwGreenState s)"
  unfolding setEwGreenState_def Let_def
  by (intro safe_write_ewGreen safe_write_low safe_setAllVehicleRed)
    (simp_all add: gpio_digitalWrite gpio_setAllVehicleRed pins_distinct)

lemma safe_setNsYellowState:
  "signals_safe s \<Longrightarrow> signals_safe (setNsYellowState s)"
  unfolding setNsYellowState_def Let_def
  by (intro safe_write_other safe_write_low safe_setAllVehicleRed) (simp_all add: pins_distinct)

lemma safe_setEwYellowState:
  "signals_safe s \<Longrightarrow> signals_safe (setEwYellowState s)"
  unfolding setEwYellowState_def Let_def
  by (intro safe_write_other safe_write_low safe_setAllVehicleRed) (simp_all add: pins_distinct)

lemma safe_setPedestrianGreenState:
  "signals_safe s \<Longrightarrow> currentPhase s = PHASE_PED_GREEN \<Longrightarrow>
   signals_safe (setPedestrianGreenState s)"
  unfolding setPedestrianGreenState_def Let_def
  by (intro safe_write_pedGreen safe_write_low safe_setAllVehicleRed) simp_all

lemma pedGreen_setStates:
  "gpio (setNsGreenState s) PIN_PED_GREEN = gpio s PIN_PED_GREEN"
  "gpio (setNsYellowState s) PIN_PED_GREEN = gpio s PIN_PED_GREEN"
  "gpio (setEwGreenState s) PIN_PED_GREEN = gpio s PIN_PED_GREEN"
  "gpio (setEwYellowState s) PIN_PED_GREEN = gpio s PIN_PED_GREEN"
  by (simp_all add: setNsGreenState_def setNsYellowState_def setEwGreenState_def
      setEwYellowState_def gpio_digitalWrite gpio_setAllVehicleRed pins_distinct)

text \<open>Between phases: the outputs are safe and pedestrian green is off.\<close>

lemma safe_greenSecond:
  "signals_safe (nsGreenSecond inp b e r s) = signals_safe s"
  "signals_safe (ewGreenSecond inp b e r s) = signals_safe s"
  "signals_safe (pedSecond inp r s) = signals_safe s"
  by (rule signals_safe_cong;
      simp add: world_greenSecond
        polled_phase [OF polled_nsGreenSecond] polled_phase [OF polled_ewGreenSecond]
        polled_phase [OF polled_pedSecond])+

lemma world_yellowSecond:
  "gpio (nsYellowSecond inp r s) = gpio (setNsYellowState s)"
  "outlog (nsYellowSecond inp r s) = outlog (setNsYellowState s)"
  "gpio (ewYellowSecond inp r s) = gpio (setEwYellowState s)"
  "outlog (ewYellowSecond inp r s) = outlog (setEwYellowState s)"
  by (simp_all add: nsYellowSecond_def ewYellowSecond_def Let_def waitOneSecond_world
      setNsYellowState_def setEwYellowState_def setAllVehicleRed_def digitalWrite_def)

lemma safe_yellowSecond:
  "signals_safe s \<Longrightarrow> signals_safe (nsYellowSecond inp r s)"
  "signals_safe s \<Longrightarrow> signals_safe (ewYellowSecond inp r s)"
proof -
  have "signals_safe (nsYellowSecond inp r s) = signals_safe (setNsYellowState s)"
    by (rule signals_safe_cong)
      (simp_all add: world_yellowSecond polled_phase [OF polled_nsYellowSecond])
  then show "signals_safe s \<Longrightarrow> signals_safe (nsYellowSecond inp r s)"
    by (simp add: safe_setNsYellowState)
  have "signals_safe (ewYellowSecond inp r s) = signals_safe (setEwYellowState s)"
    by (rule signals_safe_cong)
      (simp_all add: world_yellowSecond polled_phase [OF polled_ewYellowSecond])
  then show "signals_safe s \<Longrightarrow> signals_safe (ewYellowSecond inp r s)"
    by (simp add: safe_setEwYellowState)
qed

subsection \<open>The phases: variables and polls\<close>

lemma computeGreen_ge_base:
  "BASE_GREEN_SEC \<le> computeNsGreenSeconds s" "BASE_GREEN_SEC \<le> computeEwGreenSeconds s"
  by (simp_all add: computeNsGreenSeconds_def computeEwGreenSeconds_def)

lemma computeGreen_set_currentPhase [simp]:
  "computeNsGreenSeconds (set_currentPhase p s) = computeNsGreenSeconds s"
  "computeEwGreenSeconds (set_currentPhase p s) = computeEwGreenSeconds s"
  by (simp_all add: computeNsGreenSeconds_def computeEwGreenSeconds_def)

lemma phaseNsGreen_alt:
  "phaseNsGreen inp s =
     (countdown
        (nsGreenSecond inp BASE_GREEN_SEC (computeNsGreenSeconds s - BASE_GREEN_SEC))
        (computeNsGreenSeconds s)
        (setNsGreenState (set_currentPhase PHASE_NS_GREEN s)))\<lparr>trafficCountNS := 0\<rparr>"
proof -
  have "(computeNsGreenSeconds s - BASE_GREEN_SEC < 0) = False"
    using computeGreen_ge_base(1) [of s] by simp
  then show ?thesis
    unfolding phaseNsGreen_def Let_def computeGreen_set_currentPhase by simp
qed

lemma phaseEwGreen_alt:
  "phaseEwGreen inp s =
     (countdown
        (ewGreenSecond inp BASE_GREEN_SEC (computeEwGreenSeconds s - BASE_GREEN_SEC))
        (computeEwGreenSeconds s)
        (setEwGreenState (set_currentPhase PHASE_EW_GREEN s)))\<lparr>trafficCountEW := 0\<rparr>"
proof -
  have "(computeEwGreenSeconds s - BASE_GREEN_SEC < 0) = False"
    using computeGreen_ge_base(2) [of s] by simp
  then show ?thesis
    unfolding phaseEwGreen_def Let_def computeGreen_set_currentPhase by simp
qed

lemma phasePedestrian_skip: "\<not> pedRequest s \<Longrightarrow> phasePedestrianIfRequested inp s = s"
  by (simp add: phasePedestrianIfRequested_def)

lemma phasePedestrian_alt:
  "pedRequest s \<Longrightarrow>
   phasePedestrianIfRequested inp s =
     (delay 500 (lcdShowTwoLines ''PEDESTRIAN'' ''STOP''
        (digitalWrite PIN_PED_GREEN LOW (digitalWrite PIN_PED_RED HIGH (setAllVehicleRed
          (countdown (pedSecond inp) PED_TIME_SEC
            (setPedestrianGreenState (set_currentPhase PHASE_PED_GREEN s))))))))
     \<lparr>pedRequest := False\<rparr>"
  by (simp add: phasePedestrianIfRequested_def Let_def)

lemma polled_entry:
  "polled inp 0 (s\<lparr>currentPhase := PHASE_NS_GREEN\<rparr>)
     (setNsGreenState (set_currentPhase PHASE_NS_GREEN s))"
  "polled inp 0 (s\<lparr>currentPhase := PHASE_EW_GREEN\<rparr>)
     (setEwGreenState (set_currentPhase PHASE_EW_GREEN s))"
  "polled inp 0 (s\<lparr>currentPhase := PHASE_PED_GREEN\<rparr>)
     (setPedestrianGreenState (set_currentPhase PHASE_PED_GREEN s))"
  "polled inp 0 (s\<lparr>currentPhase := p\<rparr>) (set_currentPhase p s)"
  by (simp_all add: polled_def samples_0)

lemma countdown_seconds:
  "polled inp (50 * nat n) s (countdown (nsGreenSecond inp b e) n s)"
  "polled inp (50 * nat n) s (countdown (ewGreenSecond inp b e) n s)"
  "polled inp (50 * nat n) s (countdown (nsYellowSecond inp) n s)"
  "polled inp (50 * nat n) s (countdown (ewYellowSecond inp) n s)"
  "polled inp (50 * nat n) s (countdown (pedSecond inp) n s)"
  by (rule countdown_polled, rule polled_nsGreenSecond polled_ewGreenSecond
      polled_nsYellowSecond polled_ewYellowSecond polled_pedSecond)+

lemma phaseNsGreen_runs:
  "\<exists>t. polled inp (50 * nat (computeNsGreenSeconds s)) (s\<lparr>currentPhase := PHASE_NS_GREEN\<rparr>) t \<and>
       phaseNsGreen inp s = t\<lparr>trafficCountNS := 0\<rparr>"
  using polled_0_then [OF polled_entry(1) countdown_seconds(1)] phaseNsGreen_alt
  by blast

lemma phaseEwGreen_runs:
  "\<exists>t. polled inp (50 * nat (computeEwGreenSeconds s)) (s\<lparr>currentPhase := PHASE_EW_GREEN\<rparr>) t \<and>
       phaseEwGreen inp s = t\<lparr>trafficCountEW := 0\<rparr>"
  using polled_0_then [OF polled_entry(2) countdown_seconds(2)] phaseEwGreen_alt
  by blast

lemma phaseNsYellow_runs:
  "polled inp 150 (s\<lparr>currentPhase := PHASE_NS_YELLOW\<rparr>) (phaseNsYellow inp s)"
proof -
  have "polled inp (50 * nat YELLOW_TIME_SEC) (s\<lparr>currentPhase := PHASE_NS_YELLOW\<rparr>)
     (countdown (nsYellowSecond inp) YELLOW_TIME_SEC (set_currentPhase PHASE_NS_YELLOW s))"
    by (rule polled_0_then [OF polled_entry(4) countdown_seconds(3)])
  then show ?thesis
    by (simp add: phaseNsYellow_def YELLOW_TIME_SEC_def)
qed

lemma phaseEwYellow_runs:
  "polled inp 150 (s\<lparr>currentPhase := PHASE_EW_YELLOW\<rparr>) (phaseEwYellow inp s)"
proof -
  have "polled inp (50 * nat YELLOW_TIME_SEC) (s\<lparr>currentPhase := PHASE_EW_YELLOW\<rparr>)
     (countdown (ewYellowSecond inp) YELLOW_TIME_SEC (set_currentPhase PHASE_EW_YELLOW s))"
    by (rule polled_0_then [OF polled_entry(4) countdown_seconds(4)])
  then show ?thesis
    by (simp add: phaseEwYellow_def YELLOW_TIME_SEC_def)
qed

lemma phasePedestrian_runs:
  assumes "pedRequest s"
  shows "\<exists>t. polled inp 400 (s\<lparr>currentPhase := PHASE_PED_GREEN\<rparr>) t \<and>
       phasePedestrianIfRequested inp s = t\<lparr>pedRequest := False\<rparr>"
proof -
  define t0 where
    "t0 = countdown (pedSecond inp) PED_TIME_SEC
       (setPedestrianGreenState (set_currentPhase PHASE_PED_GREEN s))"
  define t where
    "t = delay 500 (lcdShowTwoLines ''PEDESTRIAN'' ''STOP''
        (digitalWrite PIN_PED_GREEN LOW (digitalWrite PIN_PED_RED HIGH
          (setAllVehicleRed t0))))"
  have "polled inp (50 * nat PED_TIME_SEC) (s\<lparr>currentPhase := PHASE_PED_GREEN\<rparr>) t0"
    unfolding t0_def by (rule polled_0_then [OF polled_entry(3) countdown_seconds(5)])
  then have "polled inp 400 (s\<lparr>currentPhase := PHASE_PED_GREEN\<rparr>) t0"
    by (simp add: PED_TIME_SEC_def)
  moreover have "polled inp 0 t0 t"
    by (simp add: polled_def samples_0 t_def)
  ultimately have "polled inp 400 (s\<lparr>currentPhase := PHASE_PED_GREEN\<rparr>) t"
    by (rule polled_then_0)
  moreover have "phasePedestrianIfRequested inp s = t\<lparr>pedRequest := False\<rparr>"
    using assms by (simp add: phasePedestrian_alt t_def t0_def)
  ultimately show ?thesis by blast
qed

lemma phaseNsGreen_fields:
  "currentPhase (phaseNsGreen inp s) = PHASE_NS_GREEN"
  "polls (phaseNsGreen inp s) = polls s + 50 * nat (computeNsGreenSeconds s)"
  "trafficCountNS (phaseNsGreen inp s) = 0"
  "trafficCountEW (phaseNsGreen inp s) =
     trafficCountEW s + int (pressEdges (lastEwBtnState s)
       (samples inp PIN_BTN_EW_TRAFFIC (polls s) (50 * nat (computeNsGreenSeconds s))))"
  "pedRequest (phaseNsGreen inp s) =
     (pedRequest s \<or> 0 < pressEdges (lastPedBtnState s)
       (samples inp PIN_BTN_PED_REQUEST (polls s) (50 * nat (computeNsGreenSeconds s))))"
  "lastNsBtnState (phaseNsGreen inp s) =
     last (lastNsBtnState s #
       samples inp PIN_BTN_NS_TRAFFIC (polls s) (50 * nat (computeNsGreenSeconds s)))"
  "lastEwBtnState (phaseNsGreen inp s) =
     last (lastEwBtnState s #
       samples inp PIN_BTN_EW_TRAFFIC (polls s) (50 * nat (computeNsGreenSeconds s)))"
  "lastPedBtnState (phaseNsGreen inp s) =
     last (lastPedBtnState s #
       samples inp PIN_BTN_PED_REQUEST (polls s) (50 * nat (computeNsGreenSeconds s)))"
proof -
  obtain t where
    "polled inp (50 * nat (computeNsGreenSeconds s)) (s\<lparr>currentPhase := PHASE_NS_GREEN\<rparr>) t"
    and "phaseNsGreen inp s = t\<lparr>trafficCountNS := 0\<rparr>"
    using phaseNsGreen_runs by blast
  then show
    "currentPhase (phaseNsGreen inp s) = PHASE_NS_GREEN"
    "polls (phaseNsGreen inp s) = polls s + 50 * nat (computeNsGreenSeconds s)"
    "trafficCountNS (phaseNsGreen inp s) = 0"
    "trafficCountEW (phaseNsGreen inp s) =
       trafficCountEW s + int (pressEdges (lastEwBtnState s)
         (samples inp PIN_BTN_EW_TRAFFIC (polls s) (50 * nat (computeNsGreenSeconds s))))"
    "pedRequest (phaseNsGreen inp s) =
       (pedRequest s \<or> 0 < pressEdges (lastPedBtnState s)
         (samples inp PIN_BTN_PED_REQUEST (polls s) (50 * nat (computeNsGreenSeconds s))))"
    "lastNsBtnState (phaseNsGreen inp s) =
       last (lastNsBtnState s #
         samples inp PIN_BTN_NS_TRAFFIC (polls s) (50 * nat (computeNsGreenSeconds s)))"
    "lastEwBtnState (phaseNsGreen inp s) =
       last (lastEwBtnState s #
         samples inp PIN_BTN_EW_TRAFFIC (polls s) (50 * nat (computeNsGreenSeconds s)))"
    "lastPedBtnState (phaseNsGreen inp s) =
       last (lastPedBtnState s #
         samples inp PIN_BTN_PED_REQUEST (polls s) (50 * nat (computeNsGreenSeconds s)))"
    by (simp_all add: polled_def isNsRed_def isEwRed_def)
qed

lemma phaseEwGreen_fields:
  "currentPhase (phaseEwGreen inp s) = PHASE_EW_GREEN"
  "polls (phaseEwGreen inp s) = polls s + 50 * nat (computeEwGreenSeconds s)"
  "trafficCountEW (phaseEwGreen inp s) = 0"
  "trafficCountNS (phaseEwGreen inp s) =
     trafficCountNS s + int (pressEdges (lastNsBtnState s)
       (samples inp PIN_BTN_NS_TRAFFIC (polls s) (50 * nat (computeEwGreenSeconds s))))"
  "pedRequest (phaseEwGreen inp s) =
     (pedRequest s \<or> 0 < pressEdges (lastPedBtnState s)
       (samples inp PIN_BTN_PED_REQUEST (polls s) (50 * nat (computeEwGreenSeconds s))))"
  "lastNsBtnState (phaseEwGreen inp s) =
     last (lastNsBtnState s #
       samples inp PIN_BTN_NS_TRAFFIC (polls s) (50 * nat (computeEwGreenSeconds s)))"
  "lastEwBtnState (phaseEwGreen inp s) =
     last (lastEwBtnState s #
       samples inp PIN_BTN_EW_TRAFFIC (polls s) (50 * nat (computeEwGreenSeconds s)))"
  "lastPedBtnState (phaseEwGreen inp s) =
     last (lastPedBtnState s #
       samples inp PIN_BTN_PED_REQUEST (polls s) (50 * nat (computeEwGreenSeconds s)))"
proof -
  obtain t where
    "polled inp (50 * nat (computeEwGreenSeconds s)) (s\<lparr>currentPhase := PHASE_EW_GREEN\<rparr>) t"
    and "phaseEwGreen inp s = t\<lparr>trafficCountEW := 0\<rparr>"
    using phaseEwGreen_runs by blast
  then show
    "currentPhase (phaseEwGreen inp s) = PHASE_EW_GREEN"
    "polls (phaseEwGreen inp s) = polls s + 50 * nat (computeEwGreenSeconds s)"
    "trafficCountEW (phaseEwGreen inp s) = 0"
    "trafficCountNS (phaseEwGreen inp s) =
       trafficCountNS s + int (pressEdges (lastNsBtnState s)
         (samples inp PIN_BTN_NS_TRAFFIC (polls s) (50 * nat (computeEwGreenSeconds s))))"
    "pedRequest (phaseEwGreen inp s) =
       (pedRequest s \<or> 0 < pressEdges (lastPedBtnState s)
         (samples inp PIN_BTN_PED_REQUEST (polls s) (50 * nat (computeEwGreenSeconds s))))"
    "lastNsBtnState (phaseEwGreen inp s) =
       last (lastNsBtnState s #
         samples inp PIN_BTN_NS_TRAFFIC (polls s) (50 * nat (computeEwGreenSeconds s)))"
    "lastEwBtnState (phaseEwGreen inp s) =
       last (lastEwBtnState s #
         samples inp PIN_BTN_EW_TRAFFIC (polls s) (50 * nat (computeEwGreenSeconds s)))"
    "lastPedBtnState (phaseEwGreen inp s) =
       last (lastPedBtnState s #
         samples inp PIN_BTN_PED_REQUEST (polls s) (50 * nat (computeEwGreenSeconds s)))"
    by (simp_all add: polled_def isNsRed_def isEwRed_def)
qed

lemma phaseNsYellow_fields:
  "currentPhase (phaseNsYellow inp s) = PHASE_NS_YELLOW"
  "polls (phaseNsYellow inp s) = polls s + 150"
  "trafficCountNS (phaseNsYellow inp s) = trafficCountNS s"
  "trafficCountEW (phaseNsYellow inp s) =
     trafficCountEW s + int (pressEdges (lastEwBtnState s)
       (samples inp PIN_BTN_EW_TRAFFIC (polls s) 150))"
  "pedRequest (phaseNsYellow inp s) =
     (pedRequest s \<or> 0 < pressEdges (lastPedBtnState s)
       (samples inp PIN_BTN_PED_REQUEST (polls s) 150))"
  "lastNsBtnState (phaseNsYellow inp s) =
     last (lastNsBtnState s # samples inp PIN_BTN_NS_TRAFFIC (polls s) 150)"
  "lastEwBtnState (phaseNsYellow inp s) =
     last (lastEwBtnState s # samples inp PIN_BTN_EW_TRAFFIC (polls s) 150)"
  "lastPedBtnState (phaseNsYellow inp s) =
     last (lastPedBtnState s # samples inp PIN_BTN_PED_REQUEST (polls s) 150)"
  using phaseNsYellow_runs [of inp s]
  by (simp_all add: polled_def isNsRed_def isEwRed_def)

lemma phaseEwYellow_fields:
  "currentPhase (phaseEwYellow inp s) = PHASE_EW_YELLOW"
  "polls (phaseEwYellow inp s) = polls s + 150"
  "trafficCountEW (phaseEwYellow inp s) = trafficCountEW s"
  "trafficCountNS (phaseEwYellow inp s) =
     trafficCountNS s + int (pressEdges (lastNsBtnState s)
       (samples inp PIN_BTN_NS_TRAFFIC (polls s) 150))"
  "pedRequest (phaseEwYellow inp s) =
     (pedRequest s \<or> 0 < pressEdges (lastPedBtnState s)
       (samples inp PIN_BTN_PED_REQUEST (polls s) 150))"
  "lastNsBtnState (phaseEwYellow inp s) =
     last (lastNsBtnState s # samples inp PIN_BTN_NS_TRAFFIC (polls s) 150)"
  "lastEwBtnState (phaseEwYellow inp s) =
     last (lastEwBtnState s # samples inp PIN_BTN_EW_TRAFFIC (polls s) 150)"
  "lastPedBtnState (phaseEwYellow inp s) =
     last (lastPedBtnState s # samples inp PIN_BTN_PED_REQUEST (polls s) 150)"
  using phaseEwYellow_runs [of inp s]
  by (simp_all add: polled_def isNsRed_def isEwRed_def)

lemma phasePedestrian_fields:
  assumes "pedRequest s"
  shows
  "currentPhase (phasePedestrianIfRequested inp s) = PHASE_PED_GREEN"
  "polls (phasePedestrianIfRequested inp s) = polls s + 400"
  "trafficCountNS (phasePedestrianIfRequested inp s) =
     trafficCountNS s + int (pressEdges (lastNsBtnState s)
       (samples inp PIN_BTN_NS_TRAFFIC (polls s) 400))"
  "trafficCountEW (phasePedestrianIfRequested inp s) =
     trafficCountEW s + int (pressEdges (lastEwBtnState s)
       (samples inp PIN_BTN_EW_TRAFFIC (polls s) 400))"
  "pedRequest (phasePedestrianIfRequested inp s) = False"
  "lastNsBtnState (phasePedestrianIfRequested inp s) =
     last (lastNsBtnState s # samples inp PIN_BTN_NS_TRAFFIC (polls s) 400)"
  "lastEwBtnState (phasePedestrianIfRequested inp s) =
     last (lastEwBtnState s # samples inp PIN_BTN_EW_TRAFFIC (polls s) 400)"
  "lastPedBtnState (phasePedestrianIfRequested inp s) =
     last (lastPedBtnState s # samples inp PIN_BTN_PED_REQUEST (polls s) 400)"
proof -
  obtain t where
    "polled inp 400 (s\<lparr>currentPhase := PHASE_PED_GREEN\<rparr>) t"
    and "phasePedestrianIfRequested inp s = t\<lparr>pedRequest := False\<rparr>"
    using phasePedestrian_runs [OF assms] by blast
  then show
    "currentPhase (phasePedestrianIfRequested inp s) = PHASE_PED_GREEN"
    "polls (phasePedestrianIfRequested inp s) = polls s + 400"
    "trafficCountNS (phasePedestrianIfRequested inp s) =
       trafficCountNS s + int (pressEdges (lastNsBtnState s)
         (samples inp PIN_BTN_NS_TRAFFIC (polls s) 400))"
    "trafficCountEW (phasePedestrianIfRequested inp s) =
       trafficCountEW s + int (pressEdges (lastEwBtnState s)
         (samples inp PIN_BTN_EW_TRAFFIC (polls s) 400))"
    "pedRequest (phasePedestrianIfRequested inp s) = False"
    "lastNsBtnState (phasePedestrianIfRequested inp s) =
       last (lastNsBtnState s # samples inp PIN_BTN_NS_TRAFFIC (polls s) 400)"
    "lastEwBtnState (phasePedestrianIfRequested inp s) =
       last (lastEwBtnState s # samples inp PIN_BTN_EW_TRAFFIC (polls s) 400)"
    "lastPedBtnState (phasePedestrianIfRequested inp s) =
       last (lastPedBtnState s # samples inp PIN_BTN_PED_REQUEST (polls s) 400)"
    by (simp_all add: polled_def isNsRed_def isEwRed_def)
qed

lemma pedRequest_after_insertion: "\<not> pedRequest (phasePedestrianIfRequested inp s)"
  by (cases "pedRequest s") (simp_all add: phasePedestrian_fields phasePedestrian_skip)

subsection \<open>The phases: ticks\<close>

lemma countdown_newticks:
  assumes "\<And>r s. 0 < r \<Longrightarrow> I s \<Longrightarrow>
      I (body r s) \<and> (\<exists>f. ticklog (body r s) = ticklog s @ [f] \<and> P r f)"
    and "I s"
  shows "ticklog (countdown body n s) = ticklog s @ newticks s (countdown body n s)"
    and "list_all2 P (downfrom n) (newticks s (countdown body n s))"
proof -
  from countdown_ticks [of I body P s n, OF assms] obtain X where
    X: "ticklog (countdown body n s) = ticklog s @ X" "list_all2 P (downfrom n) X"
    by blast
  then have "newticks s (countdown body n s) = X"
    by (simp add: newticks_append)
  with X show "ticklog (countdown body n s) = ticklog s @ newticks s (countdown body n s)"
    and "list_all2 P (downfrom n) (newticks s (countdown body n s))"
    by simp_all
qed

lemma newticks_same_log:
  "ticklog t = ticklog s \<Longrightarrow> ticklog t' = ticklog s' \<Longrightarrow> newticks t t' = newticks s s'"
  by (simp add: newticks_def)

lemma second_keeps:
  "currentPhase (nsGreenSecond inp b e r s) = currentPhase s"
  "currentPhase (ewGreenSecond inp b e r s) = currentPhase s"
  "currentPhase (nsYellowSecond inp r s) = currentPhase s"
  "currentPhase (ewYellowSecond inp r s) = currentPhase s"
  "currentPhase (pedSecond inp r s) = currentPhase s"
  "\<not> isNsRed s \<Longrightarrow> trafficCountNS (nsGreenSecond inp b e r s) = trafficCountNS s"
  "\<not> isNsRed s \<Longrightarrow> trafficCountNS (nsYellowSecond inp r s) = trafficCountNS s"
  "\<not> isEwRed s \<Longrightarrow> trafficCountEW (ewGreenSecond inp b e r s) = trafficCountEW s"
  "\<not> isEwRed s \<Longrightarrow> trafficCountEW (ewYellowSecond inp r s) = trafficCountEW s"
  "pedRequest s \<Longrightarrow> pedRequest (pedSecond inp r s)"
  using polled_nsGreenSecond [of inp s b e r] polled_ewGreenSecond [of inp s b e r]
    polled_nsYellowSecond [of inp s r] polled_ewYellowSecond [of inp s r]
    polled_pedSecond [of inp s r]
  by (simp_all add: polled_def)

lemma nsGreen_countdown_ticks:
  assumes "currentPhase u = PHASE_NS_GREEN"
  shows "ticklog (countdown (nsGreenSecond inp b e) n u) =
      ticklog u @ newticks u (countdown (nsGreenSecond inp b e) n u)"
    and "list_all2
     (\<lambda>r f. t_phase f = PHASE_NS_GREEN \<and>
        t_line1 f = ''NSG '' @ print_int b @ ''+'' @ print_int e @ ''s'' \<and>
        t_line2 f = ''T='' @ print_int r @ '' EW='' @ print_int (t_countEW f) \<and>
        t_countNS f = trafficCountNS u)
     (downfrom n) (newticks u (countdown (nsGreenSecond inp b e) n u))"
proof -
  define c0 where "c0 = trafficCountNS u"
  let ?I = "\<lambda>v. currentPhase v = PHASE_NS_GREEN \<and> trafficCountNS v = c0"
  let ?P = "\<lambda>r f. t_phase f = PHASE_NS_GREEN \<and>
        t_line1 f = ''NSG '' @ print_int b @ ''+'' @ print_int e @ ''s'' \<and>
        t_line2 f = ''T='' @ print_int r @ '' EW='' @ print_int (t_countEW f) \<and>
        t_countNS f = c0"
  have step: "?I (nsGreenSecond inp b e r v) \<and>
      (\<exists>f. ticklog (nsGreenSecond inp b e r v) = ticklog v @ [f] \<and> ?P r f)"
    if "0 < r" "?I v" for r v
    using that by (simp add: second_keeps isNsRed_def tick_nsGreenSecond)
  have I: "?I u" using assms by (simp add: c0_def)
  show "ticklog (countdown (nsGreenSecond inp b e) n u) =
      ticklog u @ newticks u (countdown (nsGreenSecond inp b e) n u)"
    by (rule countdown_newticks(1) [where I = ?I and P = ?P, OF step I])
  show "list_all2
     (\<lambda>r f. t_phase f = PHASE_NS_GREEN \<and>
        t_line1 f = ''NSG '' @ print_int b @ ''+'' @ print_int e @ ''s'' \<and>
        t_line2 f = ''T='' @ print_int r @ '' EW='' @ print_int (t_countEW f) \<and>
        t_countNS f = trafficCountNS u)
     (downfrom n) (newticks u (countdown (nsGreenSecond inp b e) n u))"
    unfolding c0_def [symmetric]
    by (rule countdown_newticks(2) [where I = ?I and P = ?P, OF step I])
qed

lemma ewGreen_countdown_ticks:
  assumes "currentPhase u = PHASE_EW_GREEN"
  shows "ticklog (countdown (ewGreenSecond inp b e) n u) =
      ticklog u @ newticks u (countdown (ewGreenSecond inp b e) n u)"
    and "list_all2
     (\<lambda>r f. t_phase f = PHASE_EW_GREEN \<and>
        t_line1 f = ''EWG '' @ print_int b @ ''+'' @ print_int e @ ''s'' \<and>
        t_line2 f = ''T='' @ print_int r @ '' NS='' @ print_int (t_countNS f) \<and>
        t_countEW f = trafficCountEW u)
     (downfrom n) (newticks u (countdown (ewGreenSecond inp b e) n u))"
proof -
  define c0 where "c0 = trafficCountEW u"
  let ?I = "\<lambda>v. currentPhase v = PHASE_EW_GREEN \<and> trafficCountEW v = c0"
  let ?P = "\<lambda>r f. t_phase f = PHASE_EW_GREEN \<and>
        t_line1 f = ''EWG '' @ print_int b @ ''+'' @ print_int e @ ''s'' \<and>
        t_line2 f = ''T='' @ print_int r @ '' NS='' @ print_int (t_countNS f) \<and>
        t_countEW f = c0"
  have step: "?I (ewGreenSecond inp b e r v) \<and>
      (\<exists>f. ticklog (ewGreenSecond inp b e r v) = ticklog v @ [f] \<and> ?P r f)"
    if "0 < r" "?I v" for r v
    using that by (simp add: second_keeps isEwRed_def tick_ewGreenSecond)
  have I: "?I u" using assms by (simp add: c0_def)
  show "ticklog (countdown (ewGreenSecond inp b e) n u) =
      ticklog u @ newticks u (countdown (ewGreenSecond inp b e) n u)"
    by (rule countdown_newticks(1) [where I = ?I and P = ?P, OF step I])
  show "list_all2
     (\<lambda>r f. t_phase f = PHASE_EW_GREEN \<and>
        t_line1 f = ''EWG '' @ print_int b @ ''+'' @ print_int e @ ''s'' \<and>
        t_line2 f = ''T='' @ print_int r @ '' NS='' @ print_int (t_countNS f) \<and>
        t_countEW f = trafficCountEW u)
     (downfrom n) (newticks u (countdown (ewGreenSecond inp b e) n u))"
    unfolding c0_def [symmetric]
    by (rule countdown_newticks(2) [where I = ?I and P = ?P, OF step I])
qed

lemma nsYellow_countdown_ticks:
  assumes "currentPhase u = PHASE_NS_YELLOW"
  shows "ticklog (countdown (nsYellowSecond inp) n u) =
      ticklog u @ newticks u (countdown (nsYellowSecond inp) n u)"
    and "list_all2
     (\<lambda>r f. t_phase f = PHASE_NS_YELLOW \<and>
        t_line1 f = ''NSY T='' @ print_int r @ ''s'' \<and>
        t_line2 f = ''EW='' @ print_int (t_countEW f) \<and>
        t_countNS f = trafficCountNS u)
     (downfrom n) (newticks u (countdown (nsYellowSecond inp) n u))"
proof -
  define c0 where "c0 = trafficCountNS u"
  let ?I = "\<lambda>v. currentPhase v = PHASE_NS_YELLOW \<and> trafficCountNS v = c0"
  let ?P = "\<lambda>r f. t_phase f = PHASE_NS_YELLOW \<and>
        t_line1 f = ''NSY T='' @ print_int r @ ''s'' \<and>
        t_line2 f = ''EW='' @ print_int (t_countEW f) \<and>
        t_countNS f = c0"
  have step: "?I (nsYellowSecond inp r v) \<and>
      (\<exists>f. ticklog (nsYellowSecond inp r v) = ticklog v @ [f] \<and> ?P r f)"
    if "0 < r" "?I v" for r v
    using that by (simp add: second_keeps isNsRed_def tick_nsYellowSecond)
  have I: "?I u" using assms by (simp add: c0_def)
  show "ticklog (countdown (nsYellowSecond inp) n u) =
      ticklog u @ newticks u (countdown (nsYellowSecond inp) n u)"
    by (rule countdown_newticks(1) [where I = ?I and P = ?P, OF step I])
  show "list_all2
     (\<lambda>r f. t_phase f = PHASE_NS_YELLOW \<and>
        t_line1 f = ''NSY T='' @ print_int r @ ''s'' \<and>
        t_line2 f = ''EW='' @ print_int (t_countEW f) \<and>
        t_countNS f = trafficCountNS u)
     (downfrom n) (newticks u (countdown (nsYellowSecond inp) n u))"
    unfolding c0_def [symmetric]
    by (rule countdown_newticks(2) [where I = ?I and P = ?P, OF step I])
qed

lemma ewYellow_countdown_ticks:
  assumes "currentPhase u = PHASE_EW_YELLOW"
  shows "ticklog (countdown (ewYellowSecond inp) n u) =
      ticklog u @ newticks u (countdown (ewYellowSecond inp) n u)"
    and "list_all2
     (\<lambda>r f. t_phase f = PHASE_EW_YELLOW \<and>
        t_line1 f = ''EWY T='' @ print_int r @ ''s'' \<and>
        t_line2 f = ''NS='' @ print_int (t_countNS f) \<and>
        t_countEW f = trafficCountEW u)
     (downfrom n) (newticks u (countdown (ewYellowSecond inp) n u))"
proof -
  define c0 where "c0 = trafficCountEW u"
  let ?I = "\<lambda>v. currentPhase v = PHASE_EW_YELLOW \<and> trafficCountEW v = c0"
  let ?P = "\<lambda>r f. t_phase f = PHASE_EW_YELLOW \<and>
        t_line1 f = ''EWY T='' @ print_int r @ ''s'' \<and>
        t_line2 f = ''NS='' @ print_int (t_countNS f) \<and>
        t_countEW f = c0"
  have step: "?I (ewYellowSecond inp r v) \<and>
      (\<exists>f. ticklog (ewYellowSecond inp r v) = ticklog v @ [f] \<and> ?P r f)"
    if "0 < r" "?I v" for r v
    using that by (simp add: second_keeps isEwRed_def tick_ewYellowSecond)
  have I: "?I u" using assms by (simp add: c0_def)
  show "ticklog (countdown (ewYellowSecond inp) n u) =
      ticklog u @ newticks u (countdown (ewYellowSecond inp) n u)"
    by (rule countdown_newticks(1) [where I = ?I and P = ?P, OF step I])
  show "list_all2
     (\<lambda>r f. t_phase f = PHASE_EW_YELLOW \<and>
        t_line1 f = ''EWY T='' @ print_int r @ ''s'' \<and>
        t_line2 f = ''NS='' @ print_int (t_countNS f) \<and>
        t_countEW f = trafficCountEW u)
     (downfrom n) (newticks u (countdown (ewYellowSecond inp) n u))"
    unfolding c0_def [symmetric]
    by (rule countdown_newticks(2) [where I = ?I and P = ?P, OF step I])
qed

lemma ped_countdown_ticks:
  assumes "currentPhase u = PHASE_PED_GREEN" and "pedRequest u"
  shows "ticklog (countdown (pedSecond inp) n u) =
      ticklog u @ newticks u (countdown (pedSecond inp) n u)"
    and "list_all2
     (\<lambda>r f. t_phase f = PHASE_PED_GREEN \<and>
        t_line1 f = ''PEDESTRIAN'' \<and>
        t_line2 f = ''T='' @ print_int r @ '' WALK'' \<and>
        t_request f)
     (downfrom n) (newticks u (countdown (pedSecond inp) n u))"
proof -
  let ?I = "\<lambda>v. currentPhase v = PHASE_PED_GREEN \<and> pedRequest v"
  let ?P = "\<lambda>r f. t_phase f = PHASE_PED_GREEN \<and>
        t_line1 f = ''PEDESTRIAN'' \<and>
        t_line2 f = ''T='' @ print_int r @ '' WALK'' \<and>
        t_request f"
  have step: "?I (pedSecond inp r v) \<and>
      (\<exists>f. ticklog (pedSecond inp r v) = ticklog v @ [f] \<and> ?P r f)"
    if "0 < r" "?I v" for r v
    using that by (simp add: second_keeps tick_pedSecond)
  have I: "?I u" using assms by simp
  show "ticklog (countdown (pedSecond inp) n u) =
      ticklog u @ newticks u (countdown (pedSecond inp) n u)"
    by (rule countdown_newticks(1) [where I = ?I and P = ?P, OF step I])
  show "list_all2
     (\<lambda>r f. t_phase f = PHASE_PED_GREEN \<and>
        t_line1 f = ''PEDESTRIAN'' \<and>
        t_line2 f = ''T='' @ print_int r @ '' WALK'' \<and>
        t_request f)
     (downfrom n) (newticks u (countdown (pedSecond inp) n u))"
    by (rule countdown_newticks(2) [where I = ?I and P = ?P, OF step I])
qed

lemma phaseNsGreen_ticks:
  shows "ticklog (phaseNsGreen inp s) = ticklog s @ newticks s (phaseNsGreen inp s)"
    and "list_all2
     (\<lambda>r f. t_phase f = PHASE_NS_GREEN \<and>
        t_line1 f = ''NSG '' @ print_int BASE_GREEN_SEC @ ''+'' @ print_int (computeNsGreenSeconds s - BASE_GREEN_SEC) @ ''s'' \<and>
        t_line2 f = ''T='' @ print_int r @ '' EW='' @ print_int (t_countEW f) \<and>
        t_countNS f = trafficCountNS s)
     (downfrom (computeNsGreenSeconds s)) (newticks s (phaseNsGreen inp s))"
proof -
  let ?s1 = "setNsGreenState (set_currentPhase PHASE_NS_GREEN s)"
  let ?c = "countdown (nsGreenSecond inp BASE_GREEN_SEC (computeNsGreenSeconds s - BASE_GREEN_SEC)) (computeNsGreenSeconds s) ?s1"
  have ph: "currentPhase ?s1 = PHASE_NS_GREEN" by simp
  have log: "ticklog (phaseNsGreen inp s) = ticklog ?c"
    by (simp add: phaseNsGreen_alt)
  have log1: "ticklog ?s1 = ticklog s" by simp
  have same: "newticks s (phaseNsGreen inp s) = newticks ?s1 ?c"
    by (rule newticks_same_log [OF log1 [symmetric] log])
  have "ticklog ?c = ticklog ?s1 @ newticks ?s1 ?c"
    by (rule nsGreen_countdown_ticks(1) [OF ph])
  then show "ticklog (phaseNsGreen inp s) = ticklog s @ newticks s (phaseNsGreen inp s)"
    unfolding same log log1 .
  have "list_all2
     (\<lambda>r f. t_phase f = PHASE_NS_GREEN \<and>
        t_line1 f = ''NSG '' @ print_int BASE_GREEN_SEC @ ''+'' @ print_int (computeNsGreenSeconds s - BASE_GREEN_SEC) @ ''s'' \<and>
        t_line2 f = ''T='' @ print_int r @ '' EW='' @ print_int (t_countEW f) \<and>
        t_countNS f = trafficCountNS (setNsGreenState (set_currentPhase PHASE_NS_GREEN s)))
     (downfrom (computeNsGreenSeconds s)) (newticks ?s1 ?c)"
    by (rule nsGreen_countdown_ticks(2) [OF ph])
  then show "list_all2
     (\<lambda>r f. t_phase f = PHASE_NS_GREEN \<and>
        t_line1 f = ''NSG '' @ print_int BASE_GREEN_SEC @ ''+'' @ print_int (computeNsGreenSeconds s - BASE_GREEN_SEC) @ ''s'' \<and>
        t_line2 f = ''T='' @ print_int r @ '' EW='' @ print_int (t_countEW f) \<and>
        t_countNS f = trafficCountNS s)
     (downfrom (computeNsGreenSeconds s)) (newticks s (phaseNsGreen inp s))"
    unfolding same by simp
qed

lemma phaseEwGreen_ticks:
  shows "ticklog (phaseEwGreen inp s) = ticklog s @ newticks s (phaseEwGreen inp s)"
    and "list_all2
     (\<lambda>r f. t_phase f = PHASE_EW_GREEN \<and>
        t_line1 f = ''EWG '' @ print_int BASE_GREEN_SEC @ ''+'' @ print_int (computeEwGreenSeconds s - BASE_GREEN_SEC) @ ''s'' \<and>
        t_line2 f = ''T='' @ print_int r @ '' NS='' @ print_int (t_countNS f) \<and>
        t_countEW f = trafficCountEW s)
     (downfrom (computeEwGreenSeconds s)) (newticks s (phaseEwGreen inp s))"
proof -
  let ?s1 = "setEwGreenState (set_currentPhase PHASE_EW_GREEN s)"
  let ?c = "countdown (ewGreenSecond inp BASE_GREEN_SEC (computeEwGreenSeconds s - BASE_GREEN_SEC)) (computeEwGreenSeconds s) ?s1"
  have ph: "currentPhase ?s1 = PHASE_EW_GREEN" by simp
  have log: "ticklog (phaseEwGreen inp s) = ticklog ?c"
    by (simp add: phaseEwGreen_alt)
  have log1: "ticklog ?s1 = ticklog s" by simp
  have same: "newticks s (phaseEwGreen inp s) = newticks ?s1 ?c"
    by (rule newticks_same_log [OF log1 [symmetric] log])
  have "ticklog ?c = ticklog ?s1 @ newticks ?s1 ?c"
    by (rule ewGreen_countdown_ticks(1) [OF ph])
  then show "ticklog (phaseEwGreen inp s) = ticklog s @ newticks s (phaseEwGreen inp s)"
    unfolding same log log1 .
  have "list_all2
     (\<lambda>r f. t_phase f = PHASE_EW_GREEN \<and>
        t_line1 f = ''EWG '' @ print_int BASE_GREEN_SEC @ ''+'' @ print_int (computeEwGreenSeconds s - BASE_GREEN_SEC) @ ''s'' \<and>
        t_line2 f = ''T='' @ print_int r @ '' NS='' @ print_int (t_countNS f) \<and>
        t_countEW f = trafficCountEW (setEwGreenState (set_currentPhase PHASE_EW_GREEN s)))
     (downfrom (computeEwGreenSeconds s)) (newticks ?s1 ?c)"
    by (rule ewGreen_countdown_ticks(2) [OF ph])
  then show "list_all2
     (\<lambda>r f. t_phase f = PHASE_EW_GREEN \<and>
        t_line1 f = ''EWG '' @ print_int BASE_GREEN_SEC @ ''+'' @ print_int (computeEwGreenSeconds s - BASE_GREEN_SEC) @ ''s'' \<and>
        t_line2 f = ''T='' @ print_int r @ '' NS='' @ print_int (t_countNS f) \<and>
        t_countEW f = trafficCountEW s)
     (downfrom (computeEwGreenSeconds s)) (newticks s (phaseEwGreen inp s))"
    unfolding same by simp
qed

lemma phaseNsYellow_ticks:
  shows "ticklog (phaseNsYellow inp s) = ticklog s @ newticks s (phaseNsYellow inp s)"
    and "list_all2
     (\<lambda>r f. t_phase f = PHASE_NS_YELLOW \<and>
        t_line1 f = ''NSY T='' @ print_int r @ ''s'' \<and>
        t_line2 f = ''EW='' @ print_int (t_countEW f) \<and>
        t_countNS f = trafficCountNS s)
     (downfrom (YELLOW_TIME_SEC)) (newticks s (phaseNsYellow inp s))"
proof -
  let ?s1 = "set_currentPhase PHASE_NS_YELLOW s"
  let ?c = "countdown (nsYellowSecond inp) (YELLOW_TIME_SEC) ?s1"
  have ph: "currentPhase ?s1 = PHASE_NS_YELLOW" by simp
  have log: "ticklog (phaseNsYellow inp s) = ticklog ?c"
    by (simp add: phaseNsYellow_def)
  have log1: "ticklog ?s1 = ticklog s" by simp
  have same: "newticks s (phaseNsYellow inp s) = newticks ?s1 ?c"
    by (rule newticks_same_log [OF log1 [symmetric] log])
  have "ticklog ?c = ticklog ?s1 @ newticks ?s1 ?c"
    by (rule nsYellow_countdown_ticks(1) [OF ph])
  then show "ticklog (phaseNsYellow inp s) = ticklog s @ newticks s (phaseNsYellow inp s)"
    unfolding same log log1 .
  have "list_all2
     (\<lambda>r f. t_phase f = PHASE_NS_YELLOW \<and>
        t_line1 f = ''NSY T='' @ print_int r @ ''s'' \<and>
        t_line2 f = ''EW='' @ print_int (t_countEW f) \<and>
        t_countNS f = trafficCountNS (set_currentPhase PHASE_NS_YELLOW s))
     (downfrom (YELLOW_TIME_SEC)) (newticks ?s1 ?c)"
    by (rule nsYellow_countdown_ticks(2) [OF ph])
  then show "list_all2
     (\<lambda>r f. t_phase f = PHASE_NS_YELLOW \<and>
        t_line1 f = ''NSY T='' @ print_int r @ ''s'' \<and>
        t_line2 f = ''EW='' @ print_int (t_countEW f) \<and>
        t_countNS f = trafficCountNS s)
     (downfrom (YELLOW_TIME_SEC)) (newticks s (phaseNsYellow inp s))"
    unfolding same by simp
qed

lemma phaseEwYellow_ticks:
  shows "ticklog (phaseEwYellow inp s) = ticklog s @ newticks s (phaseEwYellow inp s)"
    and "list_all2
     (\<lambda>r f. t_phase f = PHASE_EW_YELLOW \<and>
        t_line1 f = ''EWY T='' @ print_int r @ ''s'' \<and>
        t_line2 f = ''NS='' @ print_int (t_countNS f) \<and>
        t_countEW f = trafficCountEW s)
     (downfrom (YELLOW_TIME_SEC)) (newticks s (phaseEwYellow inp s))"
proof -
  let ?s1 = "set_currentPhase PHASE_EW_YELLOW s"
  let ?c = "countdown (ewYellowSecond inp) (YELLOW_TIME_SEC) ?s1"
  have ph: "currentPhase ?s1 = PHASE_EW_YELLOW" by simp
  have log: "ticklog (phaseEwYellow inp s) = ticklog ?c"
    by (simp add: phaseEwYellow_def)
  have log1: "ticklog ?s1 = ticklog s" by simp
  have same: "newticks s (phaseEwYellow inp s) = newticks ?s1 ?c"
    by (rule newticks_same_log [OF log1 [symmetric] log])
  have "ticklog ?c = ticklog ?s1 @ newticks ?s1 ?c"
    by (rule ewYellow_countdown_ticks(1) [OF ph])
  then show "ticklog (phaseEwYellow inp s) = ticklog s @ newticks s (phaseEwYellow inp s)"
    unfolding same log log1 .
  have "list_all2
     (\<lambda>r f. t_phase f = PHASE_EW_YELLOW \<and>
        t_line1 f = ''EWY T='' @ print_int r @ ''s'' \<and>
        t_line2 f = ''NS='' @ print_int (t_countNS f) \<and>
        t_countEW f = trafficCountEW (set_currentPhase PHASE_EW_YELLOW s))
     (downfrom (YELLOW_TIME_SEC)) (newticks ?s1 ?c)"
    by (rule ewYellow_countdown_ticks(2) [OF ph])
  then show "list_all2
     (\<lambda>r f. t_phase f = PHASE_EW_YELLOW \<and>
        t_line1 f = ''EWY T='' @ print_int r @ ''s'' \<and>
        t_line2 f = ''NS='' @ print_int (t_countNS f) \<and>
        t_countEW f = trafficCountEW s)
     (downfrom (YELLOW_TIME_SEC)) (newticks s (phaseEwYellow inp s))"
    unfolding same by simp
qed

lemma phasePedestrian_ticks:
  assumes "pedRequest s"
  shows "ticklog (phasePedestrianIfRequested inp s) = ticklog s @ newticks s (phasePedestrianIfRequested inp s)"
    and "list_all2
     (\<lambda>r f. t_phase f = PHASE_PED_GREEN \<and>
        t_line1 f = ''PEDESTRIAN'' \<and>
        t_line2 f = ''T='' @ print_int r @ '' WALK'' \<and>
        t_request f)
     (downfrom (PED_TIME_SEC)) (newticks s (phasePedestrianIfRequested inp s))"
proof -
  let ?s1 = "setPedestrianGreenState (set_currentPhase PHASE_PED_GREEN s)"
  let ?c = "countdown (pedSecond inp) (PED_TIME_SEC) ?s1"
  have ph: "currentPhase ?s1 = PHASE_PED_GREEN" by simp
  have pr: "pedRequest ?s1" using assms by simp
  have log: "ticklog (phasePedestrianIfRequested inp s) = ticklog ?c"
    using assms by (simp add: phasePedestrian_alt)
  have log1: "ticklog ?s1 = ticklog s" by simp
  have same: "newticks s (phasePedestrianIfRequested inp s) = newticks ?s1 ?c"
    by (rule newticks_same_log [OF log1 [symmetric] log])
  have "ticklog ?c = ticklog ?s1 @ newticks ?s1 ?c"
    by (rule ped_countdown_ticks(1) [OF ph pr])
  then show "ticklog (phasePedestrianIfRequested inp s) = ticklog s @ newticks s (phasePedestrianIfRequested inp s)"
    unfolding same log log1 .
  have "list_all2
     (\<lambda>r f. t_phase f = PHASE_PED_GREEN \<and>
        t_line1 f = ''PEDESTRIAN'' \<and>
        t_line2 f = ''T='' @ print_int r @ '' WALK'' \<and>
        t_request f)
     (downfrom (PED_TIME_SEC)) (newticks ?s1 ?c)"
    by (rule ped_countdown_ticks(2) [OF ph pr])
  then show "list_all2
     (\<lambda>r f. t_phase f = PHASE_PED_GREEN \<and>
        t_line1 f = ''PEDESTRIAN'' \<and>
        t_line2 f = ''T='' @ print_int r @ '' WALK'' \<and>
        t_request f)
     (downfrom (PED_TIME_SEC)) (newticks s (phasePedestrianIfRequested inp s))"
    unfolding same by simp
qed

lemma newticks_skip: "newticks s s = []"
  by (simp add: newticks_def)

lemma downfrom_3: "downfrom 3 = [3, 2, 1]"
  by (simp add: downfrom_pos downfrom_nonpos)

lemma downfrom_8: "downfrom 8 = [8, 7, 6, 5, 4, 3, 2, 1]"
  by (simp add: downfrom_pos downfrom_nonpos)

lemma phases_of_ticks:
  assumes "list_all2 P rs X" and "\<And>r f. P r f \<Longrightarrow> t_phase f = p"
  shows "map t_phase X = replicate (length rs) p"
  using assms(1)
  by (induction rule: list_all2_induct) (simp_all add: assms(2))

subsection \<open>The phases: outputs\<close>

lemma signals_safe_ignores [simp]:
  "signals_safe (s\<lparr>trafficCountNS := a\<rparr>) = signals_safe s"
  "signals_safe (s\<lparr>trafficCountEW := b\<rparr>) = signals_safe s"
  "signals_safe (s\<lparr>pedRequest := c\<rparr>) = signals_safe s"
  "signals_safe (delay ms s) = signals_safe s"
  "signals_safe (lcdShowTwoLines l1 l2 s) = signals_safe s"
  by (simp_all add: signals_safe_def)

lemma countdown_pedGreen:
  assumes "\<And>r s. gpio (body r s) PIN_PED_GREEN = gpio s PIN_PED_GREEN"
  shows "gpio (countdown body n s) PIN_PED_GREEN = gpio s PIN_PED_GREEN"
  by (rule countdown_keeps [where f = "\<lambda>s. gpio s PIN_PED_GREEN"]) (rule assms)

lemma pedGreen_second:
  "gpio (nsGreenSecond inp b e r s) PIN_PED_GREEN = gpio s PIN_PED_GREEN"
  "gpio (ewGreenSecond inp b e r s) PIN_PED_GREEN = gpio s PIN_PED_GREEN"
  "gpio (pedSecond inp r s) PIN_PED_GREEN = gpio s PIN_PED_GREEN"
  "gpio (nsYellowSecond inp r s) PIN_PED_GREEN = gpio s PIN_PED_GREEN"
  "gpio (ewYellowSecond inp r s) PIN_PED_GREEN = gpio s PIN_PED_GREEN"
  by (simp_all add: world_greenSecond world_yellowSecond pedGreen_setStates)

lemma safe_phaseNsGreen:
  assumes "signals_safe s" and "\<not> gpio s PIN_PED_GREEN"
  shows "signals_safe (phaseNsGreen inp s)" and "\<not> gpio (phaseNsGreen inp s) PIN_PED_GREEN"
proof -
  let ?s1 = "setNsGreenState (set_currentPhase PHASE_NS_GREEN s)"
  have s1: "signals_safe ?s1"
    by (intro safe_setNsGreenState safe_set_currentPhase assms)
  have "signals_safe (countdown (nsGreenSecond inp b e) n ?s1)" for b e n
    by (rule countdown_inv [where P = signals_safe, OF _ s1]) (simp add: safe_greenSecond)
  then show "signals_safe (phaseNsGreen inp s)"
    by (simp add: phaseNsGreen_alt)
  have "gpio (countdown (nsGreenSecond inp b e) n ?s1) PIN_PED_GREEN = gpio ?s1 PIN_PED_GREEN"
    for b e n
    by (rule countdown_pedGreen) (rule pedGreen_second)
  then show "\<not> gpio (phaseNsGreen inp s) PIN_PED_GREEN"
    using assms(2) by (simp add: phaseNsGreen_alt pedGreen_setStates)
qed

lemma safe_phaseEwGreen:
  assumes "signals_safe s" and "\<not> gpio s PIN_PED_GREEN"
  shows "signals_safe (phaseEwGreen inp s)" and "\<not> gpio (phaseEwGreen inp s) PIN_PED_GREEN"
proof -
  let ?s1 = "setEwGreenState (set_currentPhase PHASE_EW_GREEN s)"
  have s1: "signals_safe ?s1"
    by (intro safe_setEwGreenState safe_set_currentPhase assms)
  have "signals_safe (countdown (ewGreenSecond inp b e) n ?s1)" for b e n
    by (rule countdown_inv [where P = signals_safe, OF _ s1]) (simp add: safe_greenSecond)
  then show "signals_safe (phaseEwGreen inp s)"
    by (simp add: phaseEwGreen_alt)
  have "gpio (countdown (ewGreenSecond inp b e) n ?s1) PIN_PED_GREEN = gpio ?s1 PIN_PED_GREEN"
    for b e n
    by (rule countdown_pedGreen) (rule pedGreen_second)
  then show "\<not> gpio (phaseEwGreen inp s) PIN_PED_GREEN"
    using assms(2) by (simp add: phaseEwGreen_alt pedGreen_setStates)
qed

lemma safe_phaseNsYellow:
  assumes "signals_safe s" and "\<not> gpio s PIN_PED_GREEN"
  shows "signals_safe (phaseNsYellow inp s)" and "\<not> gpio (phaseNsYellow inp s) PIN_PED_GREEN"
proof -
  let ?s1 = "set_currentPhase PHASE_NS_YELLOW s"
  have s1: "signals_safe ?s1"
    by (intro safe_set_currentPhase assms)
  show "signals_safe (phaseNsYellow inp s)"
    unfolding phaseNsYellow_def Let_def
    by (rule countdown_inv [where P = signals_safe, OF _ s1]) (rule safe_yellowSecond)
  have "gpio (countdown (nsYellowSecond inp) n ?s1) PIN_PED_GREEN = gpio ?s1 PIN_PED_GREEN"
    for n
    by (rule countdown_pedGreen) (rule pedGreen_second)
  then show "\<not> gpio (phaseNsYellow inp s) PIN_PED_GREEN"
    using assms(2) by (simp add: phaseNsYellow_def)
qed

lemma safe_phaseEwYellow:
  assumes "signals_safe s" and "\<not> gpio s PIN_PED_GREEN"
  shows "signals_safe (phaseEwYellow inp s)" and "\<not> gpio (phaseEwYellow inp s) PIN_PED_GREEN"
proof -
  let ?s1 = "set_currentPhase PHASE_EW_YELLOW s"
  have s1: "signals_safe ?s1"
    by (intro safe_set_currentPhase assms)
  show "signals_safe (phaseEwYellow inp s)"
    unfolding phaseEwYellow_def Let_def
    by (rule countdown_inv [where P = signals_safe, OF _ s1]) (rule safe_yellowSecond)
  have "gpio (countdown (ewYellowSecond inp) n ?s1) PIN_PED_GREEN = gpio ?s1 PIN_PED_GREEN"
    for n
    by (rule countdown_pedGreen) (rule pedGreen_second)
  then show "\<not> gpio (phaseEwYellow inp s) PIN_PED_GREEN"
    using assms(2) by (simp add: phaseEwYellow_def)
qed

lemma safe_phasePedestrian:
  assumes "signals_safe s" and "\<not> gpio s PIN_PED_GREEN"
  shows "signals_safe (phasePedestrianIfRequested inp s)"
    and "\<not> gpio (phasePedestrianIfRequested inp s) PIN_PED_GREEN"
proof -
  let ?s1 = "setPedestrianGreenState (set_currentPhase PHASE_PED_GREEN s)"
  let ?c = "countdown (pedSecond inp) PED_TIME_SEC ?s1"
  have s1: "signals_safe ?s1"
    by (intro safe_setPedestrianGreenState safe_set_pedPhase assms) simp
  have c: "signals_safe ?c"
    by (rule countdown_inv [where P = signals_safe, OF _ s1]) (simp add: safe_greenSecond)
  have "signals_safe (digitalWrite PIN_PED_GREEN LOW (digitalWrite PIN_PED_RED HIGH
      (setAllVehicleRed ?c)))"
    by (intro safe_write_low safe_write_other safe_setAllVehicleRed c)
      (simp_all add: pins_distinct)
  then show "signals_safe (phasePedestrianIfRequested inp s)"
    using assms(1) by (cases "pedRequest s") (simp_all add: phasePedestrian_alt phasePedestrian_skip)
  show "\<not> gpio (phasePedestrianIfRequested inp s) PIN_PED_GREEN"
    using assms(2)
    by (cases "pedRequest s")
      (simp_all add: phasePedestrian_alt phasePedestrian_skip gpio_digitalWrite)
qed

lemma safe_loop:
  assumes "signals_safe s" and "\<not> gpio s PIN_PED_GREEN"
  shows "signals_safe (loop inp s) \<and> \<not> gpio (loop inp s) PIN_PED_GREEN"
  unfolding loop_def Let_def
  by (intro conjI safe_phasePedestrian safe_phaseEwYellow safe_phaseEwGreen
      safe_phaseNsYellow safe_phaseNsGreen assms)

lemma safe_run:
  "signals_safe s \<Longrightarrow> \<not> gpio s PIN_PED_GREEN \<Longrightarrow>
   signals_safe (run inp n s) \<and> \<not> gpio (run inp n s) PIN_PED_GREEN"
proof (induction n arbitrary: s)
  case 0
  then show ?case by simp
next
  case (Suc n)
  from safe_loop [OF Suc.prems] have "signals_safe (loop inp s)"
    and "\<not> gpio (loop inp s) PIN_PED_GREEN"
    by simp_all
  from Suc.IH [OF this] show ?case by simp
qed

lemma safe_power_on: "safe_out (PHASE_NS_GREEN, g0) \<Longrightarrow> signals_safe (power_on g0)"
  by (simp add: signals_safe_def power_on_def)

lemma safe_setup_main:
  assumes "signals_safe s"
  shows "signals_safe (setup_main s)" and "\<not> gpio (setup_main s) PIN_PED_GREEN"
proof -
  have "signals_safe (digitalWrite PIN_PED_GREEN LOW (digitalWrite PIN_PED_RED HIGH
      (setAllVehicleRed (delay 1000 (lcdShowTwoLines ''Traffic System'' ''Starting...'' s)))))"
    by (intro safe_write_low safe_write_other safe_setAllVehicleRed)
      (simp_all add: assms pins_distinct)
  then show "signals_safe (setup_main s)"
    by (simp add: setup_main_def)
  show "\<not> gpio (setup_main s) PIN_PED_GREEN"
    by (simp add: setup_main_def gpio_digitalWrite)
qed

section \<open>Green-time policy\<close>

text \<open>
  C1: for every vehicle count, \<open>computeNsGreenSeconds\<close> and \<open>computeEwGreenSeconds\<close>
  return 10 below 5, 20 from 5 to 9, 30 from 10 to 14 and 40 from 15 on, and both are
  monotonic non-decreasing in the count.
\<close>

theorem green_time_policy:
  "computeNsGreenSeconds s =
     (if trafficCountNS s < 5 then 10
      else if trafficCountNS s < 10 then 20
      else if trafficCountNS s < 15 then 30
      else 40) \<and>
   computeEwGreenSeconds s =
     (if trafficCountEW s < 5 then 10
      else if trafficCountEW s < 10 then 20
      else if trafficCountEW s < 15 then 30
      else 40) \<and>
   (trafficCountNS s \<le> trafficCountNS s' \<longrightarrow>
      computeNsGreenSeconds s \<le> computeNsGreenSeconds s') \<and>
   (trafficCountEW s \<le> trafficCountEW s' \<longrightarrow>
      computeEwGreenSeconds s \<le> computeEwGreenSeconds s')"
  by (simp add: computeNsGreenSeconds_def computeEwGreenSeconds_def BASE_GREEN_SEC_def)

theorem green_time_policy_witness:
  "trafficCountNS (power_on all_low\<lparr>trafficCountNS := 7\<rparr>)
     \<le> trafficCountNS (power_on all_low\<lparr>trafficCountNS := 12\<rparr>) \<and>
   computeNsGreenSeconds (power_on all_low\<lparr>trafficCountNS := 7\<rparr>) = 20 \<and>
   computeNsGreenSeconds (power_on all_low\<lparr>trafficCountNS := 12\<rparr>) = 30 \<and>
   computeNsGreenSeconds (power_on all_low\<lparr>trafficCountNS := 7\<rparr>)
     \<le> computeNsGreenSeconds (power_on all_low\<lparr>trafficCountNS := 12\<rparr>)"
  using green_time_policy [of "power_on all_low\<lparr>trafficCountNS := 7\<rparr>"
      "power_on all_low\<lparr>trafficCountNS := 12\<rparr>"]
    green_time_policy [of "power_on all_low\<lparr>trafficCountNS := 12\<rparr>"
      "power_on all_low\<lparr>trafficCountNS := 12\<rparr>"]
  by simp

text \<open>
  C10: both functions return at least \<open>BASE_GREEN_SEC\<close> (10), so \<open>totalSecs - baseSecs\<close>
  is never negative and the clamp \<open>if (extraSecs < 0) extraSecs = 0\<close> of \<open>phaseNsGreen\<close>
  and \<open>phaseEwGreen\<close> is never taken: each phase function equals itself without the clamp.
\<close>

theorem clamp_unreachable:
  "BASE_GREEN_SEC = 10 \<and>
   BASE_GREEN_SEC \<le> computeNsGreenSeconds s \<and>
   BASE_GREEN_SEC \<le> computeEwGreenSeconds s \<and>
   \<not> (computeNsGreenSeconds s - BASE_GREEN_SEC < 0) \<and>
   \<not> (computeEwGreenSeconds s - BASE_GREEN_SEC < 0) \<and>
   phaseNsGreen inp s =
     (let s = set_currentPhase PHASE_NS_GREEN s;
          totalSecs = computeNsGreenSeconds s;
          s = setNsGreenState s;
          s = countdown (nsGreenSecond inp BASE_GREEN_SEC (totalSecs - BASE_GREEN_SEC)) totalSecs s
      in s\<lparr>trafficCountNS := 0\<rparr>) \<and>
   phaseEwGreen inp s =
     (let s = set_currentPhase PHASE_EW_GREEN s;
          totalSecs = computeEwGreenSeconds s;
          s = setEwGreenState s;
          s = countdown (ewGreenSecond inp BASE_GREEN_SEC (totalSecs - BASE_GREEN_SEC)) totalSecs s
      in s\<lparr>trafficCountEW := 0\<rparr>)"
proof -
  have ns: "BASE_GREEN_SEC \<le> computeNsGreenSeconds t" for t
    by (simp add: computeNsGreenSeconds_def)
  have ew: "BASE_GREEN_SEC \<le> computeEwGreenSeconds t" for t
    by (simp add: computeEwGreenSeconds_def)
  have ns': "(computeNsGreenSeconds t - BASE_GREEN_SEC < 0) = False" for t
    using ns [of t] by simp
  have ew': "(computeEwGreenSeconds t - BASE_GREEN_SEC < 0) = False" for t
    using ew [of t] by simp
  have base: "BASE_GREEN_SEC = 10"
    by (simp add: BASE_GREEN_SEC_def)
  have nsG: "phaseNsGreen inp s =
     (let s = set_currentPhase PHASE_NS_GREEN s;
          totalSecs = computeNsGreenSeconds s;
          s = setNsGreenState s;
          s = countdown (nsGreenSecond inp BASE_GREEN_SEC (totalSecs - BASE_GREEN_SEC)) totalSecs s
      in s\<lparr>trafficCountNS := 0\<rparr>)"
    unfolding phaseNsGreen_def Let_def ns' by simp
  have ewG: "phaseEwGreen inp s =
     (let s = set_currentPhase PHASE_EW_GREEN s;
          totalSecs = computeEwGreenSeconds s;
          s = setEwGreenState s;
          s = countdown (ewGreenSecond inp BASE_GREEN_SEC (totalSecs - BASE_GREEN_SEC)) totalSecs s
      in s\<lparr>trafficCountEW := 0\<rparr>)"
    unfolding phaseEwGreen_def Let_def ew' by simp
  from base ns ew ns' ew' nsG ewG show ?thesis
    by blast
qed

section \<open>Counting vehicles\<close>

text \<open>
  C2: on a press edge of an approach's count button (the sample is LOW and the last
  sample was HIGH), \<open>readButtons\<close> adds exactly one to that approach's count if the
  approach is stopped (\<open>isNsRed\<close>, \<open>isEwRed\<close>: the phase is neither its green nor its
  yellow), and otherwise leaves the count as it is.
\<close>

theorem count_iff_stopped:
  "trafficCountNS (readButtons inp s) =
     (if digitalRead inp PIN_BTN_NS_TRAFFIC s = LOW \<and> lastNsBtnState s = HIGH \<and> isNsRed s
      then trafficCountNS s + 1 else trafficCountNS s) \<and>
   trafficCountEW (readButtons inp s) =
     (if digitalRead inp PIN_BTN_EW_TRAFFIC s = LOW \<and> lastEwBtnState s = HIGH \<and> isEwRed s
      then trafficCountEW s + 1 else trafficCountEW s) \<and>
   isNsRed s = (currentPhase s \<noteq> PHASE_NS_GREEN \<and> currentPhase s \<noteq> PHASE_NS_YELLOW) \<and>
   isEwRed s = (currentPhase s \<noteq> PHASE_EW_GREEN \<and> currentPhase s \<noteq> PHASE_EW_YELLOW)"
proof -
  have "isNsRed s = (currentPhase s \<noteq> PHASE_NS_GREEN \<and> currentPhase s \<noteq> PHASE_NS_YELLOW)"
    by (cases "currentPhase s") (simp_all add: isNsRed_def)
  moreover
  have "isEwRed s = (currentPhase s \<noteq> PHASE_EW_GREEN \<and> currentPhase s \<noteq> PHASE_EW_YELLOW)"
    by (cases "currentPhase s") (simp_all add: isEwRed_def)
  ultimately show ?thesis
    by (simp add: readButtons_fields digitalRead_def)
qed

section \<open>Signal outputs\<close>

text \<open>
  C4: every output state the controller passes through is safe. The log \<open>outlog\<close> holds
  the output levels after each single \<open>digitalWrite\<close> (so also the states inside one
  update, which writes all-red first and then asserts one colour) and after each
  assignment of the phase, from power-on through setup and any number of rounds of
  \<open>loop\<close>: in none of them are NS green and EW green both asserted, and pedestrian
  green is asserted only while the phase is \<open>PHASE_PED_GREEN\<close>. The power-on levels
  \<open>g0\<close> are assumed safe themselves.
\<close>

theorem no_conflicting_greens:
  assumes "safe_out (PHASE_NS_GREEN, g0)"
  shows "list_all safe_out (outlog (boot inp n g0)) \<and>
    safe_out (currentPhase (boot inp n g0), gpio (boot inp n g0)) \<and>
    \<not> gpio (setAllVehicleRed s) PIN_NS_GREEN \<and>
    \<not> gpio (setAllVehicleRed s) PIN_EW_GREEN \<and>
    setNsGreenState s =
      digitalWrite PIN_NS_GREEN HIGH (digitalWrite PIN_NS_RED LOW (setAllVehicleRed s)) \<and>
    setEwGreenState s =
      digitalWrite PIN_EW_GREEN HIGH (digitalWrite PIN_EW_RED LOW (setAllVehicleRed s)) \<and>
    setPedestrianGreenState s =
      digitalWrite PIN_PED_GREEN HIGH (digitalWrite PIN_PED_RED LOW (setAllVehicleRed s))"
proof -
  have "signals_safe (setup_main (power_on g0))"
    and "\<not> gpio (setup_main (power_on g0)) PIN_PED_GREEN"
    by (rule safe_setup_main [OF safe_power_on [OF assms]])+
  from safe_run [OF this] have "signals_safe (boot inp n g0)"
    by (simp add: boot_def)
  then show ?thesis
    by (simp add: signals_safe_def gpio_setAllVehicleRed setNsGreenState_def
        setEwGreenState_def setPedestrianGreenState_def)
qed

theorem no_conflicting_greens_witness:
  "safe_out (PHASE_NS_GREEN, all_low) \<and>
   list_all safe_out (outlog (boot idle 1 all_low)) \<and>
   length (outlog (boot idle 0 all_low)) = 9"
proof -
  have h: "safe_out (PHASE_NS_GREEN, all_low)"
    by (simp add: safe_out_def all_low_def)
  have "length (outlog (boot idle 0 all_low)) = 9"
    by (simp add: boot_def setup_main_def setAllVehicleRed_def digitalWrite_def power_on_def)
  with h no_conflicting_greens [OF h, of idle 1] show ?thesis
    by simp
qed

subsection \<open>Reading the tick log\<close>

lemma print_int_digit:
  "print_int 0 = ''0''" "print_int 1 = ''1''" "print_int 2 = ''2''" "print_int 3 = ''3''"
  "print_int 4 = ''4''" "print_int 5 = ''5''" "print_int 6 = ''6''" "print_int 7 = ''7''"
  "print_int 8 = ''8''"
  by (simp_all add: print_int_def digits_of.simps)

lemma list_all2_weaken:
  "list_all2 P xs ys \<Longrightarrow> (\<And>x y. P x y \<Longrightarrow> Q x y) \<Longrightarrow> list_all2 Q xs ys"
  by (rule list_all2_mono)

lemma list_all_of_ticks:
  assumes "list_all2 P rs X" and "\<And>r f. P r f \<Longrightarrow> Q f"
  shows "list_all Q X"
  using assms(1)
  by (induction rule: list_all2_induct) (simp_all add: assms(2))

lemma ticks_3:
  assumes "list_all2 P [a, b, c] X"
  obtains f1 f2 f3 where "X = [f1, f2, f3]" "P a f1" "P b f2" "P c f3"
  using assms by (auto simp: list_all2_Cons1)

lemma ticks_8:
  assumes "list_all2 P [a1, a2, a3, a4, a5, a6, a7, a8] X"
  obtains f1 f2 f3 f4 f5 f6 f7 f8 where "X = [f1, f2, f3, f4, f5, f6, f7, f8]"
    "P a1 f1" "P a2 f2" "P a3 f3" "P a4 f4" "P a5 f5" "P a6 f6" "P a7 f7" "P a8 f8"
  using assms by (auto simp: list_all2_Cons1)

lemma elapsed_button:
  "elapsed s \<le> elapsed (readNsButton inp s)"
  "elapsed s \<le> elapsed (readEwButton inp s)"
  "elapsed s \<le> elapsed (readPedButton inp s)"
  by (simp_all add: readNsButton_def readEwButton_def readPedButton_def Let_def delay_def)

lemma elapsed_readButtons: "elapsed s \<le> elapsed (readButtons inp s)"
proof -
  have "elapsed s \<le> elapsed (readPedButton inp (readEwButton inp (readNsButton inp s)))"
    by (meson elapsed_button order_trans)
  then show ?thesis
    by (simp add: readButtons_def Let_def)
qed

lemma elapsed_pollN: "elapsed s + 20 * n \<le> elapsed (pollN inp n s)"
proof (induction n arbitrary: s)
  case 0
  show ?case by simp
next
  case (Suc n)
  have "elapsed s + 20 \<le> elapsed (delay 20 (readButtons inp s))"
    using elapsed_readButtons [of s inp] by (simp add: delay_def)
  with Suc.IH [of "delay 20 (readButtons inp s)"] show ?case by simp
qed

lemma tick_takes_a_second:
  "polls (waitOneSecondWithButtons inp s) = polls s + 50"
  "elapsed s + 1000 \<le> elapsed (waitOneSecondWithButtons inp s)"
proof -
  show "polls (waitOneSecondWithButtons inp s) = polls s + 50"
    using polled_waitOneSecond [of inp s] by (simp add: polled_def)
  show "elapsed s + 1000 \<le> elapsed (waitOneSecondWithButtons inp s)"
    using elapsed_pollN [of "s\<lparr>ticklog := ticklog s @ [observe s]\<rparr>" 50 inp]
    by (simp add: waitOneSecondWithButtons_def waitLoop_pollN)
qed

section \<open>Fixed phase durations\<close>

text \<open>
  C9: a yellow phase (NS or EW) runs exactly three ticks and a served pedestrian phase
  exactly eight; the countdown shown runs 3, 2, 1 and 8, 7, ..., 1. A tick is one call
  of \<open>waitOneSecondWithButtons\<close>: 50 polls, each followed by a delay of 20 ms.
\<close>

theorem fixed_phase_durations:
  "YELLOW_TIME_SEC = 3 \<and> PED_TIME_SEC = 8 \<and>
   ticklog (phaseNsYellow inp s) = ticklog s @ newticks s (phaseNsYellow inp s) \<and>
   map (\<lambda>f. (t_phase f, t_line1 f)) (newticks s (phaseNsYellow inp s)) =
     [(PHASE_NS_YELLOW, ''NSY T=3s''), (PHASE_NS_YELLOW, ''NSY T=2s''),
      (PHASE_NS_YELLOW, ''NSY T=1s'')] \<and>
   polls (phaseNsYellow inp s) = polls s + 3 * 50 \<and>
   ticklog (phaseEwYellow inp s) = ticklog s @ newticks s (phaseEwYellow inp s) \<and>
   map (\<lambda>f. (t_phase f, t_line1 f)) (newticks s (phaseEwYellow inp s)) =
     [(PHASE_EW_YELLOW, ''EWY T=3s''), (PHASE_EW_YELLOW, ''EWY T=2s''),
      (PHASE_EW_YELLOW, ''EWY T=1s'')] \<and>
   polls (phaseEwYellow inp s) = polls s + 3 * 50 \<and>
   (pedRequest s \<longrightarrow>
      ticklog (phasePedestrianIfRequested inp s) =
        ticklog s @ newticks s (phasePedestrianIfRequested inp s) \<and>
      map (\<lambda>f. (t_phase f, t_line2 f)) (newticks s (phasePedestrianIfRequested inp s)) =
        [(PHASE_PED_GREEN, ''T=8 WALK''), (PHASE_PED_GREEN, ''T=7 WALK''),
         (PHASE_PED_GREEN, ''T=6 WALK''), (PHASE_PED_GREEN, ''T=5 WALK''),
         (PHASE_PED_GREEN, ''T=4 WALK''), (PHASE_PED_GREEN, ''T=3 WALK''),
         (PHASE_PED_GREEN, ''T=2 WALK''), (PHASE_PED_GREEN, ''T=1 WALK'')] \<and>
      polls (phasePedestrianIfRequested inp s) = polls s + 8 * 50) \<and>
   polls (waitOneSecondWithButtons inp s) = polls s + 50 \<and>
   elapsed s + 1000 \<le> elapsed (waitOneSecondWithButtons inp s)"
proof -
  have ns: "map (\<lambda>f. (t_phase f, t_line1 f)) (newticks s (phaseNsYellow inp s)) =
     [(PHASE_NS_YELLOW, ''NSY T=3s''), (PHASE_NS_YELLOW, ''NSY T=2s''),
      (PHASE_NS_YELLOW, ''NSY T=1s'')]"
    using phaseNsYellow_ticks(2) [where inp = inp and s = s]
    unfolding YELLOW_TIME_SEC_def downfrom_3
    by (elim ticks_3) (simp add: print_int_digit)
  have ew: "map (\<lambda>f. (t_phase f, t_line1 f)) (newticks s (phaseEwYellow inp s)) =
     [(PHASE_EW_YELLOW, ''EWY T=3s''), (PHASE_EW_YELLOW, ''EWY T=2s''),
      (PHASE_EW_YELLOW, ''EWY T=1s'')]"
    using phaseEwYellow_ticks(2) [where inp = inp and s = s]
    unfolding YELLOW_TIME_SEC_def downfrom_3
    by (elim ticks_3) (simp add: print_int_digit)
  have ped: "map (\<lambda>f. (t_phase f, t_line2 f)) (newticks s (phasePedestrianIfRequested inp s)) =
        [(PHASE_PED_GREEN, ''T=8 WALK''), (PHASE_PED_GREEN, ''T=7 WALK''),
         (PHASE_PED_GREEN, ''T=6 WALK''), (PHASE_PED_GREEN, ''T=5 WALK''),
         (PHASE_PED_GREEN, ''T=4 WALK''), (PHASE_PED_GREEN, ''T=3 WALK''),
         (PHASE_PED_GREEN, ''T=2 WALK''), (PHASE_PED_GREEN, ''T=1 WALK'')]"
    if "pedRequest s"
    using phasePedestrian_ticks(2) [where inp = inp, OF that]
    unfolding PED_TIME_SEC_def downfrom_8
    by (elim ticks_8) (simp add: print_int_digit)
  show ?thesis
    using ns ew ped
    by (simp add: YELLOW_TIME_SEC_def PED_TIME_SEC_def phaseNsYellow_ticks(1)
        phaseEwYellow_ticks(1) phasePedestrian_ticks(1) phaseNsYellow_fields
        phaseEwYellow_fields phasePedestrian_fields tick_takes_a_second)
qed

theorem fixed_phase_durations_witness:
  "pedRequest (power_on all_low\<lparr>pedRequest := True\<rparr>) \<and>
   map (\<lambda>f. (t_phase f, t_line2 f))
     (newticks (power_on all_low\<lparr>pedRequest := True\<rparr>)
        (phasePedestrianIfRequested idle (power_on all_low\<lparr>pedRequest := True\<rparr>))) =
        [(PHASE_PED_GREEN, ''T=8 WALK''), (PHASE_PED_GREEN, ''T=7 WALK''),
         (PHASE_PED_GREEN, ''T=6 WALK''), (PHASE_PED_GREEN, ''T=5 WALK''),
         (PHASE_PED_GREEN, ''T=4 WALK''), (PHASE_PED_GREEN, ''T=3 WALK''),
         (PHASE_PED_GREEN, ''T=2 WALK''), (PHASE_PED_GREEN, ''T=1 WALK'')] \<and>
   polls (phasePedestrianIfRequested idle (power_on all_low\<lparr>pedRequest := True\<rparr>)) = 400"
  using fixed_phase_durations [where inp = idle
      and s = "power_on all_low\<lparr>pedRequest := True\<rparr>"]
  by (simp add: power_on_def)

section \<open>The display\<close>

lemma first_tick_nsYellow:
  "newticks s (phaseNsYellow inp s) =
     \<lparr>t_phase = PHASE_NS_YELLOW,
      t_line1 = ''NSY T='' @ print_int YELLOW_TIME_SEC @ ''s'',
      t_line2 = ''EW='' @ print_int (trafficCountEW s),
      t_countNS = trafficCountNS s, t_countEW = trafficCountEW s,
      t_request = pedRequest s\<rparr> #
     newticks (nsYellowSecond inp YELLOW_TIME_SEC (set_currentPhase PHASE_NS_YELLOW s))
       (phaseNsYellow inp s)"
proof -
  let ?s1 = "set_currentPhase PHASE_NS_YELLOW s"
  let ?u = "nsYellowSecond inp YELLOW_TIME_SEC ?s1"
  have eq: "phaseNsYellow inp s = countdown (nsYellowSecond inp) (YELLOW_TIME_SEC - 1) ?u"
    by (simp add: phaseNsYellow_def countdown_pos YELLOW_TIME_SEC_def)
  have "currentPhase ?u = PHASE_NS_YELLOW"
    by (simp add: second_keeps)
  from nsYellow_countdown_ticks(1) [where inp = inp and n = "YELLOW_TIME_SEC - 1", OF this]
  have "ticklog (phaseNsYellow inp s) = ticklog ?u @ newticks ?u (phaseNsYellow inp s)"
    by (simp add: eq)
  then have "ticklog (phaseNsYellow inp s) = ticklog s @
     (\<lparr>t_phase = PHASE_NS_YELLOW,
      t_line1 = ''NSY T='' @ print_int YELLOW_TIME_SEC @ ''s'',
      t_line2 = ''EW='' @ print_int (trafficCountEW s),
      t_countNS = trafficCountNS s, t_countEW = trafficCountEW s,
      t_request = pedRequest s\<rparr> #
     newticks ?u (phaseNsYellow inp s))"
    by (simp add: tick_nsYellowSecond)
  then show ?thesis
    by (rule newticks_append)
qed

text \<open>
  C8 as stated fails in the yellow phases: at the first refresh of \<open>NS_YELLOW\<close> after
  setup, with no car counted, line 2 shows \<open>EW=0\<close>, not \<open>T=3 EW=0\<close>; the seconds
  remaining are on line 1.
\<close>

theorem yellow_line2_counterexample:
  "t_phase (hd (newticks (boot idle 0 all_low) (phaseNsYellow idle (boot idle 0 all_low)))) =
     PHASE_NS_YELLOW \<and>
   t_line1 (hd (newticks (boot idle 0 all_low) (phaseNsYellow idle (boot idle 0 all_low)))) =
     ''NSY T=3s'' \<and>
   t_line2 (hd (newticks (boot idle 0 all_low) (phaseNsYellow idle (boot idle 0 all_low)))) =
     ''EW=0'' \<and>
   t_line2 (hd (newticks (boot idle 0 all_low) (phaseNsYellow idle (boot idle 0 all_low)))) \<noteq>
     ''T=3 EW=0''"
proof -
  have "trafficCountEW (boot idle 0 all_low) = 0"
    by (simp add: boot_def setup_main_def power_on_def)
  then show ?thesis
    by (simp add: first_tick_nsYellow YELLOW_TIME_SEC_def print_int_digit)
qed

text \<open>
  C8, amended: at every per-second refresh of a vehicle green phase, line 2 shows
  \<open>T=<remaining> <OTHER>=<count>\<close> with the other approach's count as it stands at that
  moment; in a yellow phase the seconds remaining are on line 1 (\<open><DIR>Y T=<remaining>s\<close>)
  and line 2 shows \<open><OTHER>=<count>\<close> only; in the pedestrian phase line 2 shows
  \<open>T=<remaining> WALK\<close>. A tick entry is what \<open>observe\<close> reads when the tick begins.
\<close>

theorem display_line2:
  "list_all2
     (\<lambda>r f. t_phase f = PHASE_NS_GREEN \<and>
        t_line2 f = ''T='' @ print_int r @ '' EW='' @ print_int (t_countEW f))
     (downfrom (computeNsGreenSeconds s)) (newticks s (phaseNsGreen inp s)) \<and>
   list_all2
     (\<lambda>r f. t_phase f = PHASE_EW_GREEN \<and>
        t_line2 f = ''T='' @ print_int r @ '' NS='' @ print_int (t_countNS f))
     (downfrom (computeEwGreenSeconds s)) (newticks s (phaseEwGreen inp s)) \<and>
   list_all2
     (\<lambda>r f. t_phase f = PHASE_NS_YELLOW \<and>
        t_line1 f = ''NSY T='' @ print_int r @ ''s'' \<and>
        t_line2 f = ''EW='' @ print_int (t_countEW f))
     (downfrom YELLOW_TIME_SEC) (newticks s (phaseNsYellow inp s)) \<and>
   list_all2
     (\<lambda>r f. t_phase f = PHASE_EW_YELLOW \<and>
        t_line1 f = ''EWY T='' @ print_int r @ ''s'' \<and>
        t_line2 f = ''NS='' @ print_int (t_countNS f))
     (downfrom YELLOW_TIME_SEC) (newticks s (phaseEwYellow inp s)) \<and>
   (pedRequest s \<longrightarrow>
      list_all2
        (\<lambda>r f. t_phase f = PHASE_PED_GREEN \<and> t_line2 f = ''T='' @ print_int r @ '' WALK'')
        (downfrom PED_TIME_SEC) (newticks s (phasePedestrianIfRequested inp s))) \<and>
   ticklog (waitOneSecondWithButtons inp u) = ticklog u @ [observe u] \<and>
   t_line2 (observe u) = line2 (lcd u) \<and>
   t_countNS (observe u) = trafficCountNS u \<and>
   t_countEW (observe u) = trafficCountEW u"
proof -
  have "list_all2
     (\<lambda>r f. t_phase f = PHASE_NS_GREEN \<and>
        t_line2 f = ''T='' @ print_int r @ '' EW='' @ print_int (t_countEW f))
     (downfrom (computeNsGreenSeconds s)) (newticks s (phaseNsGreen inp s))"
    by (rule list_all2_weaken [OF phaseNsGreen_ticks(2)]) simp
  moreover have "list_all2
     (\<lambda>r f. t_phase f = PHASE_EW_GREEN \<and>
        t_line2 f = ''T='' @ print_int r @ '' NS='' @ print_int (t_countNS f))
     (downfrom (computeEwGreenSeconds s)) (newticks s (phaseEwGreen inp s))"
    by (rule list_all2_weaken [OF phaseEwGreen_ticks(2)]) simp
  moreover have "list_all2
     (\<lambda>r f. t_phase f = PHASE_NS_YELLOW \<and>
        t_line1 f = ''NSY T='' @ print_int r @ ''s'' \<and>
        t_line2 f = ''EW='' @ print_int (t_countEW f))
     (downfrom YELLOW_TIME_SEC) (newticks s (phaseNsYellow inp s))"
    by (rule list_all2_weaken [OF phaseNsYellow_ticks(2)]) simp
  moreover have "list_all2
     (\<lambda>r f. t_phase f = PHASE_EW_YELLOW \<and>
        t_line1 f = ''EWY T='' @ print_int r @ ''s'' \<and>
        t_line2 f = ''NS='' @ print_int (t_countNS f))
     (downfrom YELLOW_TIME_SEC) (newticks s (phaseEwYellow inp s))"
    by (rule list_all2_weaken [OF phaseEwYellow_ticks(2)]) simp
  moreover have "list_all2
        (\<lambda>r f. t_phase f = PHASE_PED_GREEN \<and> t_line2 f = ''T='' @ print_int r @ '' WALK'')
        (downfrom PED_TIME_SEC) (newticks s (phasePedestrianIfRequested inp s))"
    if "pedRequest s"
    by (rule list_all2_weaken [OF phasePedestrian_ticks(2) [OF that]]) simp
  ultimately show ?thesis
    by (simp add: waitOneSecond_world observe_def)
qed

theorem display_line2_witness:
  "pedRequest (power_on all_low\<lparr>pedRequest := True\<rparr>) \<and>
   list_all2
        (\<lambda>r f. t_phase f = PHASE_PED_GREEN \<and> t_line2 f = ''T='' @ print_int r @ '' WALK'')
        [8, 7, 6, 5, 4, 3, 2, 1]
        (newticks (power_on all_low\<lparr>pedRequest := True\<rparr>)
           (phasePedestrianIfRequested idle (power_on all_low\<lparr>pedRequest := True\<rparr>)))"
  using display_line2 [where inp = idle and s = "power_on all_low\<lparr>pedRequest := True\<rparr>"]
  by (simp add: power_on_def PED_TIME_SEC_def downfrom_8)

section \<open>Resetting the counts\<close>

lemma pressEdges_idle: "pressEdges prev (samples idle pin k n) = 0"
proof -
  have "pressEdges prev (replicate n True) = 0" for prev
    by (induction n arbitrary: prev) simp_all
  then show ?thesis
    by (simp add: samples_def idle_def map_replicate_const)
qed

lemma green_countdown_keeps_own_count:
  "trafficCountNS (countdown (nsGreenSecond inp b e) n
      (setNsGreenState (set_currentPhase PHASE_NS_GREEN s))) = trafficCountNS s"
  "trafficCountEW (countdown (ewGreenSecond inp b e) n
      (setEwGreenState (set_currentPhase PHASE_EW_GREEN s))) = trafficCountEW s"
  using countdown_seconds(1) [of inp n "setNsGreenState (set_currentPhase PHASE_NS_GREEN s)" b e]
    countdown_seconds(2) [of inp n "setEwGreenState (set_currentPhase PHASE_EW_GREEN s)" b e]
  by (simp_all add: polled_def isNsRed_def isEwRed_def)

text \<open>
  C5: a count is reset to 0 at one point only, the end of its own approach's green
  countdown. Through that countdown the count keeps the value it had on entry (every
  tick logs it, and the state the countdown ends in still holds it); the assignment of
  0 follows. In every other phase (the other approach's green, both yellows, a served
  pedestrian phase) each count ends as it began plus the press edges of its button that
  were accepted, none at all for an approach that is not stopped; a pedestrian
  insertion point without a request changes nothing.
\<close>

theorem count_reset_only_after_own_green:
  "trafficCountNS (phaseNsGreen inp s) = 0 \<and>
   trafficCountEW (phaseEwGreen inp s) = 0 \<and>
   phaseNsGreen inp s =
     (countdown
        (nsGreenSecond inp BASE_GREEN_SEC (computeNsGreenSeconds s - BASE_GREEN_SEC))
        (computeNsGreenSeconds s)
        (setNsGreenState (set_currentPhase PHASE_NS_GREEN s)))\<lparr>trafficCountNS := 0\<rparr> \<and>
   trafficCountNS (countdown
        (nsGreenSecond inp BASE_GREEN_SEC (computeNsGreenSeconds s - BASE_GREEN_SEC))
        (computeNsGreenSeconds s)
        (setNsGreenState (set_currentPhase PHASE_NS_GREEN s))) = trafficCountNS s \<and>
   list_all (\<lambda>f. t_countNS f = trafficCountNS s) (newticks s (phaseNsGreen inp s)) \<and>
   phaseEwGreen inp s =
     (countdown
        (ewGreenSecond inp BASE_GREEN_SEC (computeEwGreenSeconds s - BASE_GREEN_SEC))
        (computeEwGreenSeconds s)
        (setEwGreenState (set_currentPhase PHASE_EW_GREEN s)))\<lparr>trafficCountEW := 0\<rparr> \<and>
   trafficCountEW (countdown
        (ewGreenSecond inp BASE_GREEN_SEC (computeEwGreenSeconds s - BASE_GREEN_SEC))
        (computeEwGreenSeconds s)
        (setEwGreenState (set_currentPhase PHASE_EW_GREEN s))) = trafficCountEW s \<and>
   list_all (\<lambda>f. t_countEW f = trafficCountEW s) (newticks s (phaseEwGreen inp s)) \<and>
   trafficCountEW (phaseNsGreen inp s) =
     trafficCountEW s + int (pressEdges (lastEwBtnState s)
       (samples inp PIN_BTN_EW_TRAFFIC (polls s) (50 * nat (computeNsGreenSeconds s)))) \<and>
   trafficCountNS (phaseEwGreen inp s) =
     trafficCountNS s + int (pressEdges (lastNsBtnState s)
       (samples inp PIN_BTN_NS_TRAFFIC (polls s) (50 * nat (computeEwGreenSeconds s)))) \<and>
   trafficCountNS (phaseNsYellow inp s) = trafficCountNS s \<and>
   trafficCountEW (phaseNsYellow inp s) =
     trafficCountEW s + int (pressEdges (lastEwBtnState s)
       (samples inp PIN_BTN_EW_TRAFFIC (polls s) 150)) \<and>
   trafficCountEW (phaseEwYellow inp s) = trafficCountEW s \<and>
   trafficCountNS (phaseEwYellow inp s) =
     trafficCountNS s + int (pressEdges (lastNsBtnState s)
       (samples inp PIN_BTN_NS_TRAFFIC (polls s) 150)) \<and>
   (pedRequest s \<longrightarrow>
      trafficCountNS (phasePedestrianIfRequested inp s) =
        trafficCountNS s + int (pressEdges (lastNsBtnState s)
          (samples inp PIN_BTN_NS_TRAFFIC (polls s) 400)) \<and>
      trafficCountEW (phasePedestrianIfRequested inp s) =
        trafficCountEW s + int (pressEdges (lastEwBtnState s)
          (samples inp PIN_BTN_EW_TRAFFIC (polls s) 400))) \<and>
   (\<not> pedRequest s \<longrightarrow> phasePedestrianIfRequested inp s = s)"
proof -
  have ns: "list_all (\<lambda>f. t_countNS f = trafficCountNS s) (newticks s (phaseNsGreen inp s))"
    by (rule list_all_of_ticks [OF phaseNsGreen_ticks(2)]) simp
  have ew: "list_all (\<lambda>f. t_countEW f = trafficCountEW s) (newticks s (phaseEwGreen inp s))"
    by (rule list_all_of_ticks [OF phaseEwGreen_ticks(2)]) simp
  have alt: "phaseNsGreen inp s =
     (countdown
        (nsGreenSecond inp BASE_GREEN_SEC (computeNsGreenSeconds s - BASE_GREEN_SEC))
        (computeNsGreenSeconds s)
        (setNsGreenState (set_currentPhase PHASE_NS_GREEN s)))\<lparr>trafficCountNS := 0\<rparr>"
    "phaseEwGreen inp s =
     (countdown
        (ewGreenSecond inp BASE_GREEN_SEC (computeEwGreenSeconds s - BASE_GREEN_SEC))
        (computeEwGreenSeconds s)
        (setEwGreenState (set_currentPhase PHASE_EW_GREEN s)))\<lparr>trafficCountEW := 0\<rparr>"
    by (rule phaseNsGreen_alt phaseEwGreen_alt)+
  show ?thesis
    by (intro conjI impI)
      (rule ns ew alt green_countdown_keeps_own_count
        | erule phasePedestrian_skip
        | simp only: phaseNsGreen_fields phaseEwGreen_fields phaseNsYellow_fields
            phaseEwYellow_fields phasePedestrian_fields phasePedestrian_skip)+
qed

theorem count_reset_only_after_own_green_witness:
  "pedRequest (power_on all_low\<lparr>pedRequest := True, trafficCountNS := 4\<rparr>) \<and>
   trafficCountNS (phasePedestrianIfRequested idle
     (power_on all_low\<lparr>pedRequest := True, trafficCountNS := 4\<rparr>)) = 4 \<and>
   \<not> pedRequest (power_on all_low) \<and>
   phasePedestrianIfRequested idle (power_on all_low) = power_on all_low"
  using count_reset_only_after_own_green [where inp = idle
      and s = "power_on all_low\<lparr>pedRequest := True, trafficCountNS := 4\<rparr>"]
    count_reset_only_after_own_green [where inp = idle and s = "power_on all_low"]
  by (simp add: power_on_def pressEdges_idle)

section \<open>Pedestrian requests\<close>

lemma pressEdges_pos_iff:
  "(0 < pressEdges prev xs) =
   (\<exists>k < length xs. xs ! k = LOW \<and> (if k = 0 then prev else xs ! (k - 1)) = HIGH)"
proof (induction xs arbitrary: prev)
  case Nil
  show ?case by simp
next
  case (Cons x xs)
  have "(\<exists>k < length (x # xs). (x # xs) ! k = LOW \<and>
          (if k = 0 then prev else (x # xs) ! (k - 1)) = HIGH) =
        ((x = LOW \<and> prev = HIGH) \<or>
         (\<exists>k < length xs. xs ! k = LOW \<and> (if k = 0 then x else xs ! (k - 1)) = HIGH))"
    (is "?L = (?A \<or> ?B)")
  proof
    assume ?L
    then obtain k where k: "k < Suc (length xs)" "(x # xs) ! k = LOW"
      "(if k = 0 then prev else (x # xs) ! (k - 1)) = HIGH"
      by auto
    show "?A \<or> ?B"
    proof (cases k)
      case 0
      with k show ?thesis by simp
    next
      case (Suc j)
      with k have "j < length xs" "xs ! j = LOW" "(if j = 0 then x else xs ! (j - 1)) = HIGH"
        by (auto simp: nth_Cons')
      then show ?thesis by blast
    qed
  next
    assume "?A \<or> ?B"
    then show ?L
    proof
      assume ?A
      then have "0 < length (x # xs) \<and> (x # xs) ! 0 = LOW \<and>
          (if (0::nat) = 0 then prev else (x # xs) ! (0 - 1)) = HIGH"
        by simp
      then show ?L by blast
    next
      assume ?B
      then obtain j where j: "j < length xs" "xs ! j = LOW"
        "(if j = 0 then x else xs ! (j - 1)) = HIGH"
        by auto
      then have "Suc j < length (x # xs) \<and> (x # xs) ! Suc j = LOW \<and>
          (if Suc j = 0 then prev else (x # xs) ! (Suc j - 1)) = HIGH"
        by (auto simp: nth_Cons')
      then show ?L by blast
    qed
  qed
  with Cons.IH [of x] show ?case by auto
qed

lemma newticks_trans:
  assumes "ticklog b = ticklog a @ newticks a b" and "ticklog c = ticklog b @ newticks b c"
  shows "newticks a c = newticks a b @ newticks b c"
    and "ticklog c = ticklog a @ newticks a c"
proof -
  have "ticklog c = ticklog a @ (newticks a b @ newticks b c)"
    using assms by simp
  then show "newticks a c = newticks a b @ newticks b c"
    by (rule newticks_append)
  with assms show "ticklog c = ticklog a @ newticks a c"
    by simp
qed

lemma phase_ticks:
  "map t_phase (newticks s (phaseNsGreen inp s)) =
     replicate (nat (computeNsGreenSeconds s)) PHASE_NS_GREEN"
  "map t_phase (newticks s (phaseEwGreen inp s)) =
     replicate (nat (computeEwGreenSeconds s)) PHASE_EW_GREEN"
  "map t_phase (newticks s (phaseNsYellow inp s)) = replicate 3 PHASE_NS_YELLOW"
  "map t_phase (newticks s (phaseEwYellow inp s)) = replicate 3 PHASE_EW_YELLOW"
  "map t_phase (newticks s (phasePedestrianIfRequested inp s)) =
     (if pedRequest s then replicate 8 PHASE_PED_GREEN else [])"
proof -
  show "map t_phase (newticks s (phaseNsGreen inp s)) =
     replicate (nat (computeNsGreenSeconds s)) PHASE_NS_GREEN"
    using phases_of_ticks [where p = PHASE_NS_GREEN,
        OF phaseNsGreen_ticks(2) [where inp = inp and s = s]]
    by (simp add: length_downfrom)
  show "map t_phase (newticks s (phaseEwGreen inp s)) =
     replicate (nat (computeEwGreenSeconds s)) PHASE_EW_GREEN"
    using phases_of_ticks [where p = PHASE_EW_GREEN,
        OF phaseEwGreen_ticks(2) [where inp = inp and s = s]]
    by (simp add: length_downfrom)
  show "map t_phase (newticks s (phaseNsYellow inp s)) = replicate 3 PHASE_NS_YELLOW"
    using phases_of_ticks [where p = PHASE_NS_YELLOW,
        OF phaseNsYellow_ticks(2) [where inp = inp and s = s]]
    by (simp add: length_downfrom YELLOW_TIME_SEC_def)
  show "map t_phase (newticks s (phaseEwYellow inp s)) = replicate 3 PHASE_EW_YELLOW"
    using phases_of_ticks [where p = PHASE_EW_YELLOW,
        OF phaseEwYellow_ticks(2) [where inp = inp and s = s]]
    by (simp add: length_downfrom YELLOW_TIME_SEC_def)
  show "map t_phase (newticks s (phasePedestrianIfRequested inp s)) =
     (if pedRequest s then replicate 8 PHASE_PED_GREEN else [])"
  proof (cases "pedRequest s")
    case True
    from phases_of_ticks [where p = PHASE_PED_GREEN,
        OF phasePedestrian_ticks(2) [where inp = inp, OF True]]
    show ?thesis
      using True by (simp add: length_downfrom PED_TIME_SEC_def)
  next
    case False
    then show ?thesis
      by (simp add: phasePedestrian_skip newticks_skip)
  qed
qed

lemma phasePedestrian_extends:
  "ticklog (phasePedestrianIfRequested inp s) =
     ticklog s @ newticks s (phasePedestrianIfRequested inp s)"
  by (cases "pedRequest s")
    (simp_all add: phasePedestrian_ticks(1) phasePedestrian_skip newticks_skip)

lemma ns_half_ticks:
  "ticklog (phaseNsYellow inp (phaseNsGreen inp s)) =
     ticklog s @ newticks s (phaseNsYellow inp (phaseNsGreen inp s))"
  "map t_phase (newticks s (phaseNsYellow inp (phaseNsGreen inp s))) =
     replicate (nat (computeNsGreenSeconds s)) PHASE_NS_GREEN @ replicate 3 PHASE_NS_YELLOW"
  using newticks_trans [OF phaseNsGreen_ticks(1) [where inp = inp and s = s]
      phaseNsYellow_ticks(1) [where inp = inp and s = "phaseNsGreen inp s"]]
  by (simp_all add: phase_ticks)

lemma ew_half_ticks:
  "ticklog (phaseEwYellow inp (phaseEwGreen inp s)) =
     ticklog s @ newticks s (phaseEwYellow inp (phaseEwGreen inp s))"
  "map t_phase (newticks s (phaseEwYellow inp (phaseEwGreen inp s))) =
     replicate (nat (computeEwGreenSeconds s)) PHASE_EW_GREEN @ replicate 3 PHASE_EW_YELLOW"
  using newticks_trans [OF phaseEwGreen_ticks(1) [where inp = inp and s = s]
      phaseEwYellow_ticks(1) [where inp = inp and s = "phaseEwGreen inp s"]]
  by (simp_all add: phase_ticks)

lemma ns_half_latch:
  "pedRequest (phaseNsYellow inp (phaseNsGreen inp s)) =
     (pedRequest s \<or> 0 < pressEdges (lastPedBtnState s)
        (samples inp PIN_BTN_PED_REQUEST (polls s) (50 * nat (computeNsGreenSeconds s) + 150)))"
  "polls (phaseNsYellow inp (phaseNsGreen inp s)) =
     polls s + (50 * nat (computeNsGreenSeconds s) + 150)"
  by (auto simp: phaseNsYellow_fields phaseNsGreen_fields samples_add pressEdges_append)

lemma ew_half_latch:
  "pedRequest (phaseEwYellow inp (phaseEwGreen inp s)) =
     (pedRequest s \<or> 0 < pressEdges (lastPedBtnState s)
        (samples inp PIN_BTN_PED_REQUEST (polls s) (50 * nat (computeEwGreenSeconds s) + 150)))"
  "polls (phaseEwYellow inp (phaseEwGreen inp s)) =
     polls s + (50 * nat (computeEwGreenSeconds s) + 150)"
  by (auto simp: phaseEwYellow_fields phaseEwGreen_fields samples_add pressEdges_append)


lemma pressEdges_high: "pressEdges prev (replicate n True) = 0"
  by (induction n arbitrary: prev) simp_all

lemma samples_press_at_other:
  "pin' \<noteq> pin \<Longrightarrow> samples (press_at k pin) pin' k0 n = replicate n True"
  by (simp add: samples_def press_at_def map_replicate_const)

lemma samples_press_at_outside:
  "k < k0 \<or> k0 + n \<le> k \<Longrightarrow> samples (press_at k pin) pin k0 n = replicate n True"
proof -
  assume "k < k0 \<or> k0 + n \<le> k"
  then have "map (\<lambda>j. press_at k pin j pin) [k0..<k0 + n] = map (\<lambda>j. True) [k0..<k0 + n]"
    by (intro map_cong) (auto simp: press_at_def)
  then show ?thesis
    by (simp add: samples_def map_replicate_const)
qed

lemma nth_samples: "i < n \<Longrightarrow> samples inp pin k n ! i = inp (k + i) pin"
  by (simp add: samples_def)

lemma pressEdges_press_at:
  assumes "k0 \<le> k" and "k < k0 + n" and "k = k0 \<Longrightarrow> prev"
  shows "0 < pressEdges prev (samples (press_at k pin) pin k0 n)"
proof -
  let ?xs = "samples (press_at k pin) pin k0 n"
  have "k - k0 < length ?xs"
    using assms by (simp add: length_samples)
  moreover have "?xs ! (k - k0) = LOW"
    using assms by (simp add: nth_samples press_at_def)
  moreover have "(if k - k0 = 0 then prev else ?xs ! (k - k0 - 1)) = HIGH"
    using assms by (auto simp: nth_samples press_at_def)
  ultimately show ?thesis
    unfolding pressEdges_pos_iff by blast
qed

lemma pedRequest_pollN: "pedRequest s \<Longrightarrow> pedRequest (pollN inp n s)"
  using polled_pollN [of inp n s] by (simp add: polled_def)

lemma ns_round_ticks:
  "ticklog (phasePedestrianIfRequested inp (phaseNsYellow inp (phaseNsGreen inp s))) =
     ticklog s @
     newticks s (phasePedestrianIfRequested inp (phaseNsYellow inp (phaseNsGreen inp s)))"
  "newticks s (phasePedestrianIfRequested inp (phaseNsYellow inp (phaseNsGreen inp s))) =
     newticks s (phaseNsYellow inp (phaseNsGreen inp s)) @
     newticks (phaseNsYellow inp (phaseNsGreen inp s))
       (phasePedestrianIfRequested inp (phaseNsYellow inp (phaseNsGreen inp s)))"
  by (rule newticks_trans [OF ns_half_ticks(1) phasePedestrian_extends])+

lemma ew_round_ticks:
  "ticklog (phasePedestrianIfRequested inp (phaseEwYellow inp (phaseEwGreen inp s))) =
     ticklog s @
     newticks s (phasePedestrianIfRequested inp (phaseEwYellow inp (phaseEwGreen inp s)))"
  "newticks s (phasePedestrianIfRequested inp (phaseEwYellow inp (phaseEwGreen inp s))) =
     newticks s (phaseEwYellow inp (phaseEwGreen inp s)) @
     newticks (phaseEwYellow inp (phaseEwGreen inp s))
       (phasePedestrianIfRequested inp (phaseEwYellow inp (phaseEwGreen inp s)))"
  by (rule newticks_trans [OF ew_half_ticks(1) phasePedestrian_extends])+

lemma loop_alt:
  "loop inp s =
     phasePedestrianIfRequested inp (phaseEwYellow inp (phaseEwGreen inp
       (phasePedestrianIfRequested inp (phaseNsYellow inp (phaseNsGreen inp s)))))"
  by (simp add: loop_def)

lemma loop_ticks:
  "newticks s (loop inp s) =
     newticks s (phasePedestrianIfRequested inp (phaseNsYellow inp (phaseNsGreen inp s))) @
     newticks (phasePedestrianIfRequested inp (phaseNsYellow inp (phaseNsGreen inp s)))
       (loop inp s)"
  "ticklog (loop inp s) = ticklog s @ newticks s (loop inp s)"
  unfolding loop_alt
  by (rule newticks_trans [OF ns_round_ticks(1) ew_round_ticks(1)])+

lemma pedRequest_run: "\<not> pedRequest s \<Longrightarrow> \<not> pedRequest (run inp n s)"
proof (induction n arbitrary: s)
  case 0
  then show ?case by simp
next
  case (Suc n)
  have "\<not> pedRequest (loop inp s)"
    by (simp add: loop_alt pedRequest_after_insertion)
  from Suc.IH [OF this] show ?case by simp
qed

lemma pedRequest_boot: "\<not> pedRequest (boot inp n g0)"
  unfolding boot_def
  by (rule pedRequest_run) (simp add: setup_main_def power_on_def)

lemma pedestrian_ticks_latched:
  "list_all t_request (newticks s (phasePedestrianIfRequested inp s))"
proof (cases "pedRequest s")
  case True
  show ?thesis
    by (rule list_all_of_ticks [OF phasePedestrian_ticks(2) [OF True]]) simp
next
  case False
  then show ?thesis
    by (simp add: phasePedestrian_skip newticks_skip)
qed

lemma latch_readButtons:
  "pedRequest (readButtons inp s) =
     (pedRequest s \<or>
      (digitalRead inp PIN_BTN_PED_REQUEST s = LOW \<and> lastPedBtnState s = HIGH))"
  by (simp add: readButtons_fields digitalRead_def)

text \<open>
  C3: a pedestrian request is served at the next insertion point and never cuts a
  vehicle phase short. From any state, NS green runs its full computed number of ticks
  and NS yellow its three, whatever the buttons do; the latch at the end of NS yellow
  is set exactly if it was set on entry or a press edge of the pedestrian button
  was sampled at any of the polls of the two phases; if it is set, the eight ticks of
  \<open>PHASE_PED_GREEN\<close> come next, and only then the ticks of EW green. The same holds
  for EW green, EW yellow and the NS green that follows. \<open>loop\<close> is these two halves.
  A request is latched when the latch goes from clear to set. That happens in the
  vehicle phases only: a poll sets the latch or leaves it, and at every tick of a
  pedestrian phase the latch is set already.
\<close>

theorem pedestrian_insertion_point:
  "(let s2 = phaseNsYellow inp (phaseNsGreen inp s);
        s3 = phasePedestrianIfRequested inp s2;
        s4 = phaseEwGreen inp s3
    in map t_phase (newticks s s2) =
         replicate (nat (computeNsGreenSeconds s)) PHASE_NS_GREEN @ replicate 3 PHASE_NS_YELLOW \<and>
       pedRequest s2 =
         (pedRequest s \<or> 0 < pressEdges (lastPedBtnState s)
            (samples inp PIN_BTN_PED_REQUEST (polls s)
               (50 * nat (computeNsGreenSeconds s) + 150))) \<and>
       polls s2 = polls s + (50 * nat (computeNsGreenSeconds s) + 150) \<and>
       map t_phase (newticks s2 s3) =
         (if pedRequest s2 then replicate 8 PHASE_PED_GREEN else []) \<and>
       list_all t_request (newticks s2 s3) \<and>
       (\<not> pedRequest s2 \<longrightarrow> s3 = s2) \<and>
       map t_phase (newticks s3 s4) =
         replicate (nat (computeEwGreenSeconds s3)) PHASE_EW_GREEN \<and>
       ticklog s4 = ticklog s @ newticks s s2 @ newticks s2 s3 @ newticks s3 s4) \<and>
   (let s2 = phaseEwYellow inp (phaseEwGreen inp s);
        s3 = phasePedestrianIfRequested inp s2;
        s4 = phaseNsGreen inp s3
    in map t_phase (newticks s s2) =
         replicate (nat (computeEwGreenSeconds s)) PHASE_EW_GREEN @ replicate 3 PHASE_EW_YELLOW \<and>
       pedRequest s2 =
         (pedRequest s \<or> 0 < pressEdges (lastPedBtnState s)
            (samples inp PIN_BTN_PED_REQUEST (polls s)
               (50 * nat (computeEwGreenSeconds s) + 150))) \<and>
       polls s2 = polls s + (50 * nat (computeEwGreenSeconds s) + 150) \<and>
       map t_phase (newticks s2 s3) =
         (if pedRequest s2 then replicate 8 PHASE_PED_GREEN else []) \<and>
       list_all t_request (newticks s2 s3) \<and>
       (\<not> pedRequest s2 \<longrightarrow> s3 = s2) \<and>
       map t_phase (newticks s3 s4) =
         replicate (nat (computeNsGreenSeconds s3)) PHASE_NS_GREEN \<and>
       ticklog s4 = ticklog s @ newticks s s2 @ newticks s2 s3 @ newticks s3 s4) \<and>
   loop inp s =
     phasePedestrianIfRequested inp (phaseEwYellow inp (phaseEwGreen inp
       (phasePedestrianIfRequested inp (phaseNsYellow inp (phaseNsGreen inp s))))) \<and>
   pedRequest (readButtons inp s) =
     (pedRequest s \<or>
      (digitalRead inp PIN_BTN_PED_REQUEST s = LOW \<and> lastPedBtnState s = HIGH)) \<and>
   (0 < pressEdges prev xs) =
     (\<exists>k < length xs. xs ! k = LOW \<and> (if k = 0 then prev else xs ! (k - 1)) = HIGH)"
proof -
  have ns: "ticklog (phaseEwGreen inp s3) =
      ticklog s @ newticks s s2 @ newticks s2 s3 @ newticks s3 (phaseEwGreen inp s3)"
    if "s2 = phaseNsYellow inp (phaseNsGreen inp s)"
      and "s3 = phasePedestrianIfRequested inp s2" for s2 s3
    unfolding that
    by (subst phaseEwGreen_ticks(1), subst ns_round_ticks(1), subst ns_round_ticks(2)) simp
  have ew: "ticklog (phaseNsGreen inp s3) =
      ticklog s @ newticks s s2 @ newticks s2 s3 @ newticks s3 (phaseNsGreen inp s3)"
    if "s2 = phaseEwYellow inp (phaseEwGreen inp s)"
      and "s3 = phasePedestrianIfRequested inp s2" for s2 s3
    unfolding that
    by (subst phaseNsGreen_ticks(1), subst ew_round_ticks(1), subst ew_round_ticks(2)) simp
  show ?thesis
    unfolding Let_def
    by (intro conjI impI)
      (rule ns_half_ticks ew_half_ticks ns_half_latch ew_half_latch phase_ticks loop_alt
          pedestrian_ticks_latched latch_readButtons
          pressEdges_pos_iff ns [OF refl refl] ew [OF refl refl]
        | erule phasePedestrian_skip)+
qed

theorem pedestrian_insertion_point_witness:
  "pedRequest (phaseNsYellow (press_at 7 PIN_BTN_PED_REQUEST)
      (phaseNsGreen (press_at 7 PIN_BTN_PED_REQUEST) (power_on all_low))) \<and>
   map t_phase
     (newticks (power_on all_low)
        (phaseNsYellow (press_at 7 PIN_BTN_PED_REQUEST)
          (phaseNsGreen (press_at 7 PIN_BTN_PED_REQUEST) (power_on all_low)))) =
     replicate 10 PHASE_NS_GREEN @ replicate 3 PHASE_NS_YELLOW \<and>
   map t_phase
     (newticks
        (phaseNsYellow (press_at 7 PIN_BTN_PED_REQUEST)
          (phaseNsGreen (press_at 7 PIN_BTN_PED_REQUEST) (power_on all_low)))
        (phasePedestrianIfRequested (press_at 7 PIN_BTN_PED_REQUEST)
          (phaseNsYellow (press_at 7 PIN_BTN_PED_REQUEST)
            (phaseNsGreen (press_at 7 PIN_BTN_PED_REQUEST) (power_on all_low))))) =
     replicate 8 PHASE_PED_GREEN \<and>
   \<not> pedRequest (phaseNsYellow idle (phaseNsGreen idle (power_on all_low))) \<and>
   phasePedestrianIfRequested idle (phaseNsYellow idle (phaseNsGreen idle (power_on all_low))) =
     phaseNsYellow idle (phaseNsGreen idle (power_on all_low))"
proof -
  have g: "computeNsGreenSeconds (power_on all_low) = 10"
    by (simp add: computeNsGreenSeconds_def power_on_def BASE_GREEN_SEC_def)
  have f: "polls (power_on all_low) = 0" "lastPedBtnState (power_on all_low) = HIGH"
    "pedRequest (power_on all_low) = False"
    by (simp_all add: power_on_def)
  have e: "0 < pressEdges True (samples (press_at 7 PIN_BTN_PED_REQUEST) PIN_BTN_PED_REQUEST 0 650)"
    by (rule pressEdges_press_at) simp_all
  show ?thesis
    using pedestrian_insertion_point [where inp = "press_at 7 PIN_BTN_PED_REQUEST"
        and s = "power_on all_low", THEN conjunct1]
      pedestrian_insertion_point [where inp = idle and s = "power_on all_low", THEN conjunct1]
    unfolding Let_def g f
    by (simp add: e pressEdges_idle)
qed

text \<open>
  C6: a latched request is served by exactly one pedestrian phase. After every
  insertion point the latch is clear, whatever the pedestrian button did meanwhile
  (a press edge polled while \<open>PHASE_PED_GREEN\<close> runs sets the latch, which is set
  already, and the clearing at the end of the phase covers it); a set latch gives
  the eight ticks of one pedestrian phase, a clear latch gives none. So in one round
  of \<open>loop\<close> the first insertion point serves a phase exactly if the latch was set on
  entry or an edge was polled during NS green or NS yellow, and the second exactly if
  an edge was polled during EW green or EW yellow; a vehicle green follows every
  pedestrian phase. Every round starts with the latch clear.
\<close>

theorem one_pedestrian_phase_per_request:
  "\<not> pedRequest (phasePedestrianIfRequested inp s) \<and>
   map t_phase (newticks s (phasePedestrianIfRequested inp s)) =
     (if pedRequest s then replicate 8 PHASE_PED_GREEN else []) \<and>
   (\<not> pedRequest s \<longrightarrow> phasePedestrianIfRequested inp s = s) \<and>
   pedRequest (readButtons inp s) =
     (pedRequest s \<or>
      (digitalRead inp PIN_BTN_PED_REQUEST s = LOW \<and> lastPedBtnState s = HIGH)) \<and>
   (let s2 = phaseNsYellow inp (phaseNsGreen inp s);
        s3 = phasePedestrianIfRequested inp s2
    in map t_phase (newticks s (loop inp s)) =
         replicate (nat (computeNsGreenSeconds s)) PHASE_NS_GREEN @
         replicate 3 PHASE_NS_YELLOW @
         (if pedRequest s \<or> 0 < pressEdges (lastPedBtnState s)
               (samples inp PIN_BTN_PED_REQUEST (polls s)
                  (50 * nat (computeNsGreenSeconds s) + 150))
          then replicate 8 PHASE_PED_GREEN else []) @
         replicate (nat (computeEwGreenSeconds s3)) PHASE_EW_GREEN @
         replicate 3 PHASE_EW_YELLOW @
         (if 0 < pressEdges (lastPedBtnState s3)
               (samples inp PIN_BTN_PED_REQUEST (polls s3)
                  (50 * nat (computeEwGreenSeconds s3) + 150))
          then replicate 8 PHASE_PED_GREEN else [])) \<and>
   ticklog (loop inp s) = ticklog s @ newticks s (loop inp s) \<and>
   \<not> pedRequest (loop inp s) \<and>
   \<not> pedRequest (boot inp n g0)"
proof -
  let ?s2 = "phaseNsYellow inp (phaseNsGreen inp s)"
  let ?s3 = "phasePedestrianIfRequested inp ?s2"
  let ?s5 = "phaseEwYellow inp (phaseEwGreen inp ?s3)"
  have clear: "\<not> pedRequest ?s3"
    by (rule pedRequest_after_insertion)
  have a: "newticks s (loop inp s) = newticks s ?s3 @ newticks ?s3 (loop inp s)"
    by (rule loop_ticks(1))
  have b: "newticks s ?s3 = newticks s ?s2 @ newticks ?s2 ?s3"
    by (rule ns_round_ticks(2))
  have c: "newticks ?s3 (loop inp s) =
      newticks ?s3 ?s5 @ newticks ?s5 (phasePedestrianIfRequested inp ?s5)"
    unfolding loop_alt by (rule ew_round_ticks(2))
  have "newticks s (loop inp s) =
      (newticks s ?s2 @ newticks ?s2 ?s3) @
      (newticks ?s3 ?s5 @ newticks ?s5 (phasePedestrianIfRequested inp ?s5))"
    unfolding a b c ..
  then have seq: "map t_phase (newticks s (loop inp s)) =
         replicate (nat (computeNsGreenSeconds s)) PHASE_NS_GREEN @
         replicate 3 PHASE_NS_YELLOW @
         (if pedRequest s \<or> 0 < pressEdges (lastPedBtnState s)
               (samples inp PIN_BTN_PED_REQUEST (polls s)
                  (50 * nat (computeNsGreenSeconds s) + 150))
          then replicate 8 PHASE_PED_GREEN else []) @
         replicate (nat (computeEwGreenSeconds ?s3)) PHASE_EW_GREEN @
         replicate 3 PHASE_EW_YELLOW @
         (if 0 < pressEdges (lastPedBtnState ?s3)
               (samples inp PIN_BTN_PED_REQUEST (polls ?s3)
                  (50 * nat (computeEwGreenSeconds ?s3) + 150))
          then replicate 8 PHASE_PED_GREEN else [])"
    using clear
    by (simp only: map_append ns_half_ticks(2) ew_half_ticks(2) phase_ticks(5)
        ns_half_latch(1) ew_half_latch(1) append_assoc simp_thms)
  have rb: "pedRequest (readButtons inp s) =
     (pedRequest s \<or>
      (digitalRead inp PIN_BTN_PED_REQUEST s = LOW \<and> lastPedBtnState s = HIGH))"
    by (simp add: readButtons_fields digitalRead_def)
  have lp: "\<not> pedRequest (loop inp s)"
    unfolding loop_alt by (rule pedRequest_after_insertion)
  show ?thesis
    unfolding Let_def
    by (intro conjI impI)
      (rule pedRequest_after_insertion phase_ticks seq rb lp loop_ticks pedRequest_boot
        | erule phasePedestrian_skip)+
qed

theorem one_pedestrian_phase_per_request_witness:
  "pedRequest (power_on all_low\<lparr>pedRequest := True\<rparr>) \<and>
   map t_phase
     (newticks (power_on all_low\<lparr>pedRequest := True\<rparr>)
        (loop (press_at 700 PIN_BTN_PED_REQUEST) (power_on all_low\<lparr>pedRequest := True\<rparr>))) =
     replicate 10 PHASE_NS_GREEN @ replicate 3 PHASE_NS_YELLOW @
     replicate 8 PHASE_PED_GREEN @
     replicate 10 PHASE_EW_GREEN @ replicate 3 PHASE_EW_YELLOW \<and>
   \<not> pedRequest (power_on all_low) \<and>
   phasePedestrianIfRequested idle (power_on all_low) = power_on all_low"
proof -
  let ?inp = "press_at 700 PIN_BTN_PED_REQUEST"
  let ?s = "power_on all_low\<lparr>pedRequest := True\<rparr>"
  let ?s2 = "phaseNsYellow ?inp (phaseNsGreen ?inp ?s)"
  let ?s3 = "phasePedestrianIfRequested ?inp ?s2"
  have g: "computeNsGreenSeconds ?s = 10"
    by (simp add: computeNsGreenSeconds_def power_on_def BASE_GREEN_SEC_def)
  have ne: "PIN_BTN_EW_TRAFFIC \<noteq> PIN_BTN_PED_REQUEST"
    by (simp add: PIN_BTN_EW_TRAFFIC_def PIN_BTN_PED_REQUEST_def)
  note quiet = samples_press_at_other [OF ne] pressEdges_high
  have s0: "pedRequest ?s" "polls ?s = 0" "trafficCountEW ?s = 0"
    by (simp_all add: power_on_def)
  have s2: "pedRequest ?s2" "polls ?s2 = 650" "trafficCountEW ?s2 = 0"
    by (simp_all add: ns_half_latch g phaseNsYellow_fields phaseNsGreen_fields quiet s0)
  have s3: "polls ?s3 = 1050" "trafficCountEW ?s3 = 0"
    by (simp_all add: phasePedestrian_fields [OF s2(1)] s2 quiet)
  have g3: "computeEwGreenSeconds ?s3 = 10"
    by (simp add: computeEwGreenSeconds_def s3 BASE_GREEN_SEC_def)
  have none: "pressEdges prev (samples ?inp PIN_BTN_PED_REQUEST 1050 650) = 0" for prev
    by (simp add: samples_press_at_outside pressEdges_high)
  have p: "pedRequest ?s" by simp
  show ?thesis
    using one_pedestrian_phase_per_request [where inp = ?inp and s = ?s]
      one_pedestrian_phase_per_request [where inp = idle and s = "power_on all_low"]
    unfolding Let_def g g3 s3
    by (simp add: none p) (simp add: power_on_def)
qed

text \<open>
  C7: setting the latch is idempotent. From a state whose latch is set, it stays set
  through any poll, any number of polls, any tick and any vehicle phase, whatever the
  inputs; a poll leaves it as any other poll would; and what follows is one pedestrian
  phase of eight ticks at the next insertion point, after which the latch is clear,
  however many press edges arrived.
\<close>

theorem latch_idempotent:
  "pedRequest s \<longrightarrow>
     pedRequest (readButtons inp s) \<and>
     pedRequest (readButtons inp s) = pedRequest (readButtons inp' s) \<and>
     pedRequest (pollN inp n s) \<and>
     pedRequest (waitOneSecondWithButtons inp s) \<and>
     pedRequest (phaseNsGreen inp s) \<and>
     pedRequest (phaseNsYellow inp s) \<and>
     pedRequest (phaseEwGreen inp s) \<and>
     pedRequest (phaseEwYellow inp s) \<and>
     map t_phase (newticks s (phasePedestrianIfRequested inp s)) =
       replicate 8 PHASE_PED_GREEN \<and>
     \<not> pedRequest (phasePedestrianIfRequested inp s) \<and>
     map t_phase
       (newticks s
          (phasePedestrianIfRequested inp (phaseNsYellow inp (phaseNsGreen inp s)))) =
       replicate (nat (computeNsGreenSeconds s)) PHASE_NS_GREEN @
       replicate 3 PHASE_NS_YELLOW @ replicate 8 PHASE_PED_GREEN \<and>
     \<not> pedRequest (phasePedestrianIfRequested inp (phaseNsYellow inp (phaseNsGreen inp s))) \<and>
     map t_phase
       (newticks s
          (phasePedestrianIfRequested inp (phaseEwYellow inp (phaseEwGreen inp s)))) =
       replicate (nat (computeEwGreenSeconds s)) PHASE_EW_GREEN @
       replicate 3 PHASE_EW_YELLOW @ replicate 8 PHASE_PED_GREEN \<and>
     \<not> pedRequest (phasePedestrianIfRequested inp (phaseEwYellow inp (phaseEwGreen inp s)))"
proof
  assume p: "pedRequest s"
  have w: "pedRequest (waitOneSecondWithButtons inp s)"
    using polled_waitOneSecond [of inp s] p by (simp add: polled_def)
  have ns: "map t_phase
       (newticks s
          (phasePedestrianIfRequested inp (phaseNsYellow inp (phaseNsGreen inp s)))) =
       replicate (nat (computeNsGreenSeconds s)) PHASE_NS_GREEN @
       replicate 3 PHASE_NS_YELLOW @ replicate 8 PHASE_PED_GREEN"
    using p by (simp add: ns_round_ticks(2) ns_half_ticks(2) phase_ticks(5) ns_half_latch(1))
  have ew: "map t_phase
       (newticks s
          (phasePedestrianIfRequested inp (phaseEwYellow inp (phaseEwGreen inp s)))) =
       replicate (nat (computeEwGreenSeconds s)) PHASE_EW_GREEN @
       replicate 3 PHASE_EW_YELLOW @ replicate 8 PHASE_PED_GREEN"
    using p by (simp add: ew_round_ticks(2) ew_half_ticks(2) phase_ticks(5) ew_half_latch(1))
  show "pedRequest (readButtons inp s) \<and>
     pedRequest (readButtons inp s) = pedRequest (readButtons inp' s) \<and>
     pedRequest (pollN inp n s) \<and>
     pedRequest (waitOneSecondWithButtons inp s) \<and>
     pedRequest (phaseNsGreen inp s) \<and>
     pedRequest (phaseNsYellow inp s) \<and>
     pedRequest (phaseEwGreen inp s) \<and>
     pedRequest (phaseEwYellow inp s) \<and>
     map t_phase (newticks s (phasePedestrianIfRequested inp s)) =
       replicate 8 PHASE_PED_GREEN \<and>
     \<not> pedRequest (phasePedestrianIfRequested inp s) \<and>
     map t_phase
       (newticks s
          (phasePedestrianIfRequested inp (phaseNsYellow inp (phaseNsGreen inp s)))) =
       replicate (nat (computeNsGreenSeconds s)) PHASE_NS_GREEN @
       replicate 3 PHASE_NS_YELLOW @ replicate 8 PHASE_PED_GREEN \<and>
     \<not> pedRequest (phasePedestrianIfRequested inp (phaseNsYellow inp (phaseNsGreen inp s))) \<and>
     map t_phase
       (newticks s
          (phasePedestrianIfRequested inp (phaseEwYellow inp (phaseEwGreen inp s)))) =
       replicate (nat (computeEwGreenSeconds s)) PHASE_EW_GREEN @
       replicate 3 PHASE_EW_YELLOW @ replicate 8 PHASE_PED_GREEN \<and>
     \<not> pedRequest (phasePedestrianIfRequested inp (phaseEwYellow inp (phaseEwGreen inp s)))"
    using p w ns ew
    by (simp add: readButtons_fields pedRequest_pollN phaseNsGreen_fields phaseNsYellow_fields
        phaseEwGreen_fields phaseEwYellow_fields phase_ticks(5) pedRequest_after_insertion)
qed

theorem latch_idempotent_witness:
  "pedRequest (power_on all_low\<lparr>pedRequest := True\<rparr>) \<and>
   pedRequest (readButtons (press_at 0 PIN_BTN_PED_REQUEST)
     (power_on all_low\<lparr>pedRequest := True\<rparr>)) \<and>
   pedRequest (phaseNsGreen (press_at 7 PIN_BTN_PED_REQUEST)
     (power_on all_low\<lparr>pedRequest := True\<rparr>)) \<and>
   map t_phase
     (newticks (power_on all_low\<lparr>pedRequest := True\<rparr>)
        (phasePedestrianIfRequested (press_at 7 PIN_BTN_PED_REQUEST)
          (phaseNsYellow (press_at 7 PIN_BTN_PED_REQUEST)
            (phaseNsGreen (press_at 7 PIN_BTN_PED_REQUEST)
              (power_on all_low\<lparr>pedRequest := True\<rparr>))))) =
     replicate 10 PHASE_NS_GREEN @ replicate 3 PHASE_NS_YELLOW @ replicate 8 PHASE_PED_GREEN"
proof -
  have g: "computeNsGreenSeconds (power_on all_low\<lparr>pedRequest := True\<rparr>) = 10"
    by (simp add: computeNsGreenSeconds_def power_on_def BASE_GREEN_SEC_def)
  have p: "pedRequest (power_on all_low\<lparr>pedRequest := True\<rparr>)" by simp
  show ?thesis
    using latch_idempotent [where inp = "press_at 0 PIN_BTN_PED_REQUEST" and inp' = idle
        and n = 0 and s = "power_on all_low\<lparr>pedRequest := True\<rparr>"]
      latch_idempotent [where inp = "press_at 7 PIN_BTN_PED_REQUEST" and inp' = idle
        and n = 0 and s = "power_on all_low\<lparr>pedRequest := True\<rparr>"]
    unfolding g
    by (simp add: p)
qed

section \<open>The counts stay small\<close>

text \<open>
  The sketch holds the counts in an \<open>int\<close> of the target; the model uses unbounded
  integers. The two agree: a count only grows by press edges, at most one per poll,
  and is reset by its own green, so at every phase boundary of every round it lies
  between 0 and 2950. Within a phase a count never decreases before the reset, so
  the bound at the boundaries is the bound throughout.
\<close>

lemma green_le_40: "computeNsGreenSeconds s \<le> 40" "computeEwGreenSeconds s \<le> 40"
  by (simp_all add: computeNsGreenSeconds_def computeEwGreenSeconds_def BASE_GREEN_SEC_def)

lemma edges_le: "pressEdges prev (samples inp pin k n) \<le> n"
  using pressEdges_le_length [of prev "samples inp pin k n"] by (simp add: length_samples)

lemma edges_green_le:
  "pressEdges prev (samples inp pin k (50 * nat (computeNsGreenSeconds s))) \<le> 2000"
  "pressEdges prev (samples inp pin k (50 * nat (computeEwGreenSeconds s))) \<le> 2000"
proof -
  have "50 * nat (computeNsGreenSeconds s) \<le> 2000" "50 * nat (computeEwGreenSeconds s) \<le> 2000"
    using green_le_40 [of s] by simp_all
  with edges_le [of prev inp pin k "50 * nat (computeNsGreenSeconds s)"]
    edges_le [of prev inp pin k "50 * nat (computeEwGreenSeconds s)"]
  show "pressEdges prev (samples inp pin k (50 * nat (computeNsGreenSeconds s))) \<le> 2000"
    "pressEdges prev (samples inp pin k (50 * nat (computeEwGreenSeconds s))) \<le> 2000"
    by simp_all
qed

lemma count_steps:
  "trafficCountNS (phaseNsGreen inp s) = 0"
  "trafficCountEW s \<le> trafficCountEW (phaseNsGreen inp s)"
  "trafficCountEW (phaseNsGreen inp s) \<le> trafficCountEW s + 2000"
  "trafficCountNS (phaseNsYellow inp s) = trafficCountNS s"
  "trafficCountEW s \<le> trafficCountEW (phaseNsYellow inp s)"
  "trafficCountEW (phaseNsYellow inp s) \<le> trafficCountEW s + 150"
  "trafficCountEW (phaseEwGreen inp s) = 0"
  "trafficCountNS s \<le> trafficCountNS (phaseEwGreen inp s)"
  "trafficCountNS (phaseEwGreen inp s) \<le> trafficCountNS s + 2000"
  "trafficCountEW (phaseEwYellow inp s) = trafficCountEW s"
  "trafficCountNS s \<le> trafficCountNS (phaseEwYellow inp s)"
  "trafficCountNS (phaseEwYellow inp s) \<le> trafficCountNS s + 150"
  using edges_le [of "lastEwBtnState s" inp PIN_BTN_EW_TRAFFIC "polls s" 150]
    edges_le [of "lastNsBtnState s" inp PIN_BTN_NS_TRAFFIC "polls s" 150]
  by (simp_all add: phaseNsGreen_fields phaseNsYellow_fields phaseEwGreen_fields
      phaseEwYellow_fields edges_green_le)

lemma count_steps_ped:
  "trafficCountNS s \<le> trafficCountNS (phasePedestrianIfRequested inp s)"
  "trafficCountNS (phasePedestrianIfRequested inp s) \<le> trafficCountNS s + 400"
  "trafficCountEW s \<le> trafficCountEW (phasePedestrianIfRequested inp s)"
  "trafficCountEW (phasePedestrianIfRequested inp s) \<le> trafficCountEW s + 400"
  using edges_le [of "lastEwBtnState s" inp PIN_BTN_EW_TRAFFIC "polls s" 400]
    edges_le [of "lastNsBtnState s" inp PIN_BTN_NS_TRAFFIC "polls s" 400]
  by (cases "pedRequest s"; simp add: phasePedestrian_fields phasePedestrian_skip)+

lemma counts_round:
  fixes inp :: inputs and s :: controller
  assumes "0 \<le> trafficCountNS s" "trafficCountNS s \<le> 2950"
    and "0 \<le> trafficCountEW s" "trafficCountEW s \<le> 400"
  defines "s1 \<equiv> phaseNsGreen inp s"
  defines "s2 \<equiv> phaseNsYellow inp s1"
  defines "s3 \<equiv> phasePedestrianIfRequested inp s2"
  defines "s4 \<equiv> phaseEwGreen inp s3"
  defines "s5 \<equiv> phaseEwYellow inp s4"
  shows "list_all
      (\<lambda>t. 0 \<le> trafficCountNS t \<and> trafficCountNS t \<le> 2950 \<and>
           0 \<le> trafficCountEW t \<and> trafficCountEW t \<le> 2950)
      [s1, s2, s3, s4, s5, loop inp s]"
    and "0 \<le> trafficCountEW (loop inp s) \<and> trafficCountEW (loop inp s) \<le> 400"
proof -
  have l: "loop inp s = phasePedestrianIfRequested inp s5"
    by (simp add: loop_alt s1_def s2_def s3_def s4_def s5_def)
  note a = count_steps [where inp = inp and s = s, folded s1_def]
  note b = count_steps [where inp = inp and s = s1, folded s2_def]
  note c = count_steps_ped [where inp = inp and s = s2, folded s3_def]
  note d = count_steps [where inp = inp and s = s3, folded s4_def]
  note e = count_steps [where inp = inp and s = s4, folded s5_def]
  note f = count_steps_ped [where inp = inp and s = s5, folded l]
  have 1: "trafficCountNS s1 = 0" "0 \<le> trafficCountEW s1" "trafficCountEW s1 \<le> 2400"
    using assms(3,4) a(1,2,3) by simp_all
  have 2: "trafficCountNS s2 = 0" "0 \<le> trafficCountEW s2" "trafficCountEW s2 \<le> 2550"
    using 1 b(4,5,6) by simp_all
  have 3: "0 \<le> trafficCountNS s3" "trafficCountNS s3 \<le> 400"
    "0 \<le> trafficCountEW s3" "trafficCountEW s3 \<le> 2950"
    using 2 c by simp_all
  have 4: "0 \<le> trafficCountNS s4" "trafficCountNS s4 \<le> 2400" "trafficCountEW s4 = 0"
    using 3 d(7,8,9) by simp_all
  have 5: "0 \<le> trafficCountNS s5" "trafficCountNS s5 \<le> 2550" "trafficCountEW s5 = 0"
    using 4 e(10,11,12) by simp_all
  have 6: "0 \<le> trafficCountNS (loop inp s)" "trafficCountNS (loop inp s) \<le> 2950"
    "0 \<le> trafficCountEW (loop inp s)" "trafficCountEW (loop inp s) \<le> 400"
    using 5 f by simp_all
  show "list_all
      (\<lambda>t. 0 \<le> trafficCountNS t \<and> trafficCountNS t \<le> 2950 \<and>
           0 \<le> trafficCountEW t \<and> trafficCountEW t \<le> 2950)
      [s1, s2, s3, s4, s5, loop inp s]"
    using 1 2 3 4 5 6 by simp
  show "0 \<le> trafficCountEW (loop inp s) \<and> trafficCountEW (loop inp s) \<le> 400"
    using 6 by simp
qed

lemma counts_run:
  "0 \<le> trafficCountNS s \<Longrightarrow> trafficCountNS s \<le> 2950 \<Longrightarrow>
   0 \<le> trafficCountEW s \<Longrightarrow> trafficCountEW s \<le> 400 \<Longrightarrow>
   0 \<le> trafficCountNS (run inp n s) \<and> trafficCountNS (run inp n s) \<le> 2950 \<and>
   0 \<le> trafficCountEW (run inp n s) \<and> trafficCountEW (run inp n s) \<le> 400"
proof (induction n arbitrary: s)
  case 0
  then show ?case by simp
next
  case (Suc n)
  from counts_round [OF Suc.prems, where inp = inp]
  have "0 \<le> trafficCountNS (loop inp s)" "trafficCountNS (loop inp s) \<le> 2950"
    "0 \<le> trafficCountEW (loop inp s)" "trafficCountEW (loop inp s) \<le> 400"
    by simp_all
  from Suc.IH [OF this] show ?case by simp
qed

lemma counts_stay_small:
  "0 \<le> trafficCountNS (boot inp n g0) \<and> trafficCountNS (boot inp n g0) \<le> 2950 \<and>
   0 \<le> trafficCountEW (boot inp n g0) \<and> trafficCountEW (boot inp n g0) \<le> 400"
  unfolding boot_def
  by (rule counts_run) (simp_all add: setup_main_def power_on_def)

end
